(* ===== verification/Prelude.thy ===== *)
theory Prelude
  imports Main "HOL-Library.Word" "HOL-Library.List_Lexorder"
begin

text \<open>
  Shared vocabulary of the development: Rust's fixed-width integers, its
  \<^verbatim>\<open>Result\<close> type extended with panics and non-termination, the
  state-and-result monad in which the handlers that mutate \<^verbatim>\<open>self\<close>
  are written, \<^verbatim>\<open>HashMap::retain\<close>, and the calculus of evolution
  relations with which facts about a whole handler are assembled from facts about its
  steps.
\<close>

named_theorems arith_defs "definitions of the fixed-width arithmetic"
named_theorems monad_defs "definitions of the state-and-result monad"

section \<open>Fixed-width integers\<close>

text \<open>
  \<^verbatim>\<open>u32\<close>, \<^verbatim>\<open>u64\<close> and \<^verbatim>\<open>usize\<close> values
  are naturals; the operations wrap around, as they do in the release profile the
  repository's scripts build (no profile section of the workspace turns overflow checks
  on). Bytes and the 128-bit chunks of the voter bit vectors are words.
\<close>

type_synonym u8 = "8 word"
type_synonym u32 = nat
type_synonym u64 = nat
type_synonym u128 = "128 word"
type_synonym usize = nat

definition add32 :: "u32 \<Rightarrow> u32 \<Rightarrow> u32" where
  [arith_defs]: "add32 a b = (a + b) mod 2 ^ 32"

definition sub32 :: "u32 \<Rightarrow> u32 \<Rightarrow> u32" where
  [arith_defs]: "sub32 a b = (a + (2 ^ 32 - b mod 2 ^ 32)) mod 2 ^ 32"

definition mul32 :: "u32 \<Rightarrow> u32 \<Rightarrow> u32" where
  [arith_defs]: "mul32 a b = (a * b) mod 2 ^ 32"

definition add64 :: "u64 \<Rightarrow> u64 \<Rightarrow> u64" where
  [arith_defs]: "add64 a b = (a + b) mod 2 ^ 64"

definition sub64 :: "u64 \<Rightarrow> u64 \<Rightarrow> u64" where
  [arith_defs]: "sub64 a b = (a + (2 ^ 64 - b mod 2 ^ 64)) mod 2 ^ 64"

lemma wrapping_sub_small:
  fixes a b M :: nat
  assumes "b \<le> a" "a < M"
  shows "(a + (M - b mod M)) mod M = a - b"
proof -
  have "a + (M - b mod M) = (a - b) + M" using assms by simp
  then have "(a + (M - b mod M)) mod M = ((a - b) + M) mod M" by (rule arg_cong)
  also have "\<dots> = (a - b) mod M" by (rule mod_add_self2)
  also have "\<dots> = a - b" using assms by (intro mod_less) simp
  finally show ?thesis .
qed

lemma add32_small [simp]: "a + b < 2 ^ 32 \<Longrightarrow> add32 a b = a + b"
  by (simp add: add32_def)

lemma mul32_small: "a * b < 2 ^ 32 \<Longrightarrow> mul32 a b = a * b"
  by (simp add: mul32_def)

lemma sub32_small [simp]:
  "b \<le> a \<Longrightarrow> a < 2 ^ 32 \<Longrightarrow> sub32 a b = a - b"
  unfolding sub32_def by (rule wrapping_sub_small)

lemma add64_small [simp]: "a + b < 2 ^ 64 \<Longrightarrow> add64 a b = a + b"
  by (simp add: add64_def)

lemma sub64_small [simp]:
  "b \<le> a \<Longrightarrow> a < 2 ^ 64 \<Longrightarrow> sub64 a b = a - b"
  unfolding sub64_def by (rule wrapping_sub_small)

lemma add64_bound: "add64 a b < 2 ^ 64"
  by (simp add: add64_def)

lemma sub64_add64_1:
  assumes "a < 2 ^ 64"
  shows "sub64 (add64 a 1) 1 = a"
proof (cases "a = 2 ^ 64 - 1")
  case True
  then show ?thesis by (simp add: add64_def sub64_def)
next
  case False
  with assms have "a + 1 < 2 ^ 64" by simp
  then show ?thesis by simp
qed

text \<open>\<^verbatim>\<open>u64::to_le_bytes\<close> and \<^verbatim>\<open>to_be_bytes\<close>.\<close>

fun le_bytes :: "nat \<Rightarrow> nat \<Rightarrow> u8 list" where
  "le_bytes 0 x = []"
| "le_bytes (Suc k) x = word_of_nat (x mod 256) # le_bytes k (x div 256)"

definition u64_to_le_bytes :: "u64 \<Rightarrow> u8 list" where
  "u64_to_le_bytes x = le_bytes 8 x"

definition u64_to_be_bytes :: "u64 \<Rightarrow> u8 list" where
  "u64_to_be_bytes x = rev (le_bytes 8 x)"

definition u32_to_le_bytes :: "u32 \<Rightarrow> u8 list" where
  "u32_to_le_bytes x = le_bytes 4 x"

lemma length_le_bytes [simp]: "length (le_bytes k x) = k"
  by (induction k arbitrary: x) auto

lemma length_u64_to_le_bytes [simp]: "length (u64_to_le_bytes x) = 8"
  by (simp add: u64_to_le_bytes_def)

lemma le_bytes_inj:
  "x < 256 ^ k \<Longrightarrow> y < 256 ^ k \<Longrightarrow> le_bytes k x = le_bytes k y \<Longrightarrow> x = y"
proof (induction k arbitrary: x y)
  case 0
  then show ?case by simp
next
  case (Suc k)
  have "(word_of_nat (x mod 256) :: u8) = word_of_nat (y mod 256)"
    and tl: "le_bytes k (x div 256) = le_bytes k (y div 256)"
    using Suc.prems(3) by simp_all
  then have "unat (word_of_nat (x mod 256) :: u8) = unat (word_of_nat (y mod 256) :: u8)"
    by simp
  then have m: "x mod 256 = y mod 256"
    by (simp add: unat_of_nat)
  have "x div 256 < 256 ^ k" "y div 256 < 256 ^ k"
    using Suc.prems(1,2) by (simp_all add: less_mult_imp_div_less mult.commute)
  from Suc.IH [OF this tl] m show ?case
    by (metis div_mult_mod_eq)
qed

lemma u64_to_le_bytes_inj:
  assumes "x < 2 ^ 64" "y < 2 ^ 64" "u64_to_le_bytes x = u64_to_le_bytes y"
  shows "x = y"
  using assms le_bytes_inj [of x 8 y] by (simp add: u64_to_le_bytes_def)

section \<open>Maps and lists\<close>

text \<open>\<^verbatim>\<open>HashMap::retain\<close>.\<close>

definition retain :: "('k \<Rightarrow> 'v \<Rightarrow> bool) \<Rightarrow> ('k \<rightharpoonup> 'v) \<Rightarrow> ('k \<rightharpoonup> 'v)" where
  "retain P m = (\<lambda>k. case m k of None \<Rightarrow> None | Some v \<Rightarrow> if P k v then Some v else None)"

lemma retain_eq_Some [simp]: "retain P m k = Some v \<longleftrightarrow> m k = Some v \<and> P k v"
  by (auto simp: retain_def split: option.splits)

lemma retain_None: "m k = None \<Longrightarrow> retain P m k = None"
  by (simp add: retain_def)

lemma retain_eq_None: "retain P m k = None \<longleftrightarrow> (\<forall>v. m k = Some v \<longrightarrow> \<not> P k v)"
  by (auto simp: retain_def split: option.splits)

lemma dom_retain: "dom (retain P m) = {k. \<exists>v. m k = Some v \<and> P k v}"
  by (auto simp: dom_def)

lemma dom_retain_subset: "dom (retain P m) \<subseteq> dom m"
  by (auto simp: dom_def)

lemma retain_ran: "v \<in> ran (retain P m) \<Longrightarrow> v \<in> ran m"
  by (auto simp: ran_def)

text \<open>Indexing a \<^verbatim>\<open>Vec\<close> and \<^verbatim>\<open>slice::binary_search\<close> with \<^verbatim>\<open>unwrap\<close>.\<close>

definition nth_opt :: "'a list \<Rightarrow> nat \<Rightarrow> 'a option" where
  "nth_opt xs i = (if i < length xs then Some (xs ! i) else None)"

lemma nth_opt_Some [simp]: "nth_opt xs i = Some x \<longleftrightarrow> i < length xs \<and> xs ! i = x"
  by (auto simp: nth_opt_def)

lemma nth_opt_None [simp]: "nth_opt xs i = None \<longleftrightarrow> length xs \<le> i"
  by (auto simp: nth_opt_def)

function bsearch :: "'a::linorder list \<Rightarrow> 'a \<Rightarrow> nat \<Rightarrow> nat \<Rightarrow> nat option" where
  "bsearch xs x lo hi =
     (if hi \<le> lo then None
      else let mid = lo + (hi - lo) div 2 in
        if xs ! mid = x then Some mid
        else if xs ! mid < x then bsearch xs x (mid + 1) hi
        else bsearch xs x lo mid)"
  by pat_completeness auto
termination
  by (relation "measure (\<lambda>(xs, x, lo, hi). hi - lo)") (auto simp: Let_def)

declare bsearch.simps [simp del]

definition binary_search :: "'a::linorder list \<Rightarrow> 'a \<Rightarrow> nat option" where
  "binary_search xs x = bsearch xs x 0 (length xs)"

lemma bsearch_sound:
  "bsearch xs x lo hi = Some i \<Longrightarrow> lo \<le> i \<and> i < hi \<and> xs ! i = x"
proof (induction xs x lo hi rule: bsearch.induct)
  case (1 xs x lo hi)
  then show ?case
    by (subst (asm) (3) bsearch.simps) (fastforce simp: Let_def split: if_splits)
qed

lemma bsearch_complete:
  assumes "sorted xs" "lo \<le> i" "i < hi" "hi \<le> length xs" "xs ! i = x"
  shows "\<exists>j. bsearch xs x lo hi = Some j"
  using assms
proof (induction xs x lo hi rule: bsearch.induct)
  case (1 xs x lo hi)
  define mid where "mid = lo + (hi - lo) div 2"
  have mid: "lo \<le> mid" "mid < hi" using "1.prems" by (auto simp: mid_def)
  consider (eq) "xs ! mid = x" | (lt) "xs ! mid < x" | (gt) "x < xs ! mid" by fastforce
  then show ?case
  proof cases
    case eq
    then show ?thesis using "1.prems"
      by (subst bsearch.simps) (simp add: Let_def mid_def)
  next
    case lt
    then have "mid < i" using "1.prems" mid
      by (metis not_less sorted_nth_mono order.strict_trans1 le_less_linear less_le_trans)
    then have "\<exists>j. bsearch xs x (mid + 1) hi = Some j"
      using "1.IH"(1) [of mid] "1.prems" lt by (auto simp: mid_def)
    then show ?thesis using "1.prems" lt
      by (subst bsearch.simps) (simp add: Let_def mid_def)
  next
    case gt
    then have "i < mid" using "1.prems" mid
      by (metis not_less sorted_nth_mono order.strict_trans2 le_less_linear less_le_trans)
    then have "\<exists>j. bsearch xs x lo mid = Some j"
      using "1.IH"(2) [of mid] "1.prems" gt by (auto simp: mid_def)
    then show ?thesis using "1.prems" gt
      by (subst bsearch.simps) (auto simp: Let_def mid_def)
  qed
qed

lemma binary_search_Some:
  "binary_search xs x = Some i \<Longrightarrow> i < length xs \<and> xs ! i = x"
  using bsearch_sound [of xs x 0 "length xs" i] by (simp add: binary_search_def)

lemma binary_search_in:
  assumes "sorted xs" "x \<in> set xs"
  obtains i where "binary_search xs x = Some i" "i < length xs" "xs ! i = x"
proof -
  from assms(2) obtain i where "i < length xs" "xs ! i = x" by (auto simp: in_set_conv_nth)
  with assms(1) obtain j where "binary_search xs x = Some j"
    using bsearch_complete [of xs 0 i "length xs" x] by (auto simp: binary_search_def)
  with binary_search_Some [of xs x j] that show ?thesis by blast
qed

text \<open>\<^verbatim>\<open>format!\<close> on an unsigned integer.\<close>

fun show_nat :: "nat \<Rightarrow> string" where
  "show_nat n = (if n < 10 then [char_of (48 + n)] else show_nat (n div 10) @ [char_of (48 + n mod 10)])"

section \<open>Results, panics and the handler monad\<close>

text \<open>
  A Rust function with result type \<^verbatim>\<open>Result<T, E>\<close> returns
  \<open>Ok\<close> or \<open>Err\<close>, or panics (\<^verbatim>\<open>assert!\<close>,
  \<^verbatim>\<open>unwrap\<close>, \<^verbatim>\<open>expect\<close>, an index out of range),
  or does not return. A method on \<^verbatim>\<open>&mut self\<close> leaves its changes to the
  state behind even when it returns an error, so the monad threads the state through
  every outcome.
\<close>

datatype ('e, 'a) res = Ok 'a | Err 'e | Panic string | Diverge

type_synonym ('st, 'e, 'a) handler = "'st \<Rightarrow> ('e, 'a) res \<times> 'st"

definition ret :: "'a \<Rightarrow> ('st, 'e, 'a) handler" where
  [monad_defs]: "ret a = (\<lambda>s. (Ok a, s))"

definition raise :: "'e \<Rightarrow> ('st, 'e, 'a) handler" where
  [monad_defs]: "raise e = (\<lambda>s. (Err e, s))"

definition panic :: "string \<Rightarrow> ('st, 'e, 'a) handler" where
  [monad_defs]: "panic msg = (\<lambda>s. (Panic msg, s))"

definition diverge :: "('st, 'e, 'a) handler" where
  [monad_defs]: "diverge = (\<lambda>s. (Diverge, s))"

definition bind_m ::
  "('st, 'e, 'a) handler \<Rightarrow> ('a \<Rightarrow> ('st, 'e, 'b) handler) \<Rightarrow> ('st, 'e, 'b) handler" where
  [monad_defs]: "bind_m m f = (\<lambda>s. case m s of
      (Ok a, s') \<Rightarrow> f a s'
    | (Err e, s') \<Rightarrow> (Err e, s')
    | (Panic msg, s') \<Rightarrow> (Panic msg, s')
    | (Diverge, s') \<Rightarrow> (Diverge, s'))"

definition then_m ::
  "('st, 'e, 'a) handler \<Rightarrow> ('st, 'e, 'b) handler \<Rightarrow> ('st, 'e, 'b) handler" where
  [monad_defs]: "then_m m m' = bind_m m (\<lambda>_. m')"

definition gets_m :: "('st \<Rightarrow> 'a) \<Rightarrow> ('st, 'e, 'a) handler" where
  [monad_defs]: "gets_m f = (\<lambda>s. (Ok (f s), s))"

definition modify_m :: "('st \<Rightarrow> 'st) \<Rightarrow> ('st, 'e, unit) handler" where
  [monad_defs]: "modify_m f = (\<lambda>s. (Ok (), f s))"

definition lift_m :: "('e, 'a) res \<Rightarrow> ('st, 'e, 'a) handler" where
  [monad_defs]: "lift_m r = (\<lambda>s. (r, s))"

definition when_m :: "bool \<Rightarrow> ('st, 'e, unit) handler \<Rightarrow> ('st, 'e, unit) handler" where
  [monad_defs]: "when_m b m = (if b then m else ret ())"

text \<open>\<^verbatim>\<open>assert!(b)\<close>, and \<^verbatim>\<open>let _ = m.await\<close>, which drops an error but not a panic.\<close>

definition assert_m :: "bool \<Rightarrow> string \<Rightarrow> ('st, 'e, unit) handler" where
  [monad_defs]: "assert_m b msg = (if b then ret () else panic msg)"

definition ignore_m :: "('st, 'e, 'a) handler \<Rightarrow> ('st, 'e, unit) handler" where
  [monad_defs]: "ignore_m m = (\<lambda>s. case m s of
      (Ok _, s') \<Rightarrow> (Ok (), s')
    | (Err _, s') \<Rightarrow> (Ok (), s')
    | (Panic msg, s') \<Rightarrow> (Panic msg, s')
    | (Diverge, s') \<Rightarrow> (Diverge, s'))"

text \<open>The pure \<^verbatim>\<open>?\<close> operator and \<^verbatim>\<open>ensure!\<close>.\<close>

definition bind_r :: "('e, 'a) res \<Rightarrow> ('a \<Rightarrow> ('e, 'b) res) \<Rightarrow> ('e, 'b) res" where
  [monad_defs]: "bind_r r f = (case r of Ok a \<Rightarrow> f a | Err e \<Rightarrow> Err e | Panic m \<Rightarrow> Panic m | Diverge \<Rightarrow> Diverge)"

definition ensure :: "bool \<Rightarrow> 'e \<Rightarrow> ('e, unit) res" where
  [monad_defs]: "ensure b e = (if b then Ok () else Err e)"

definition map_err :: "('e \<Rightarrow> 'f) \<Rightarrow> ('e, 'a) res \<Rightarrow> ('f, 'a) res" where
  "map_err g r = (case r of Ok a \<Rightarrow> Ok a | Err e \<Rightarrow> Err (g e) | Panic m \<Rightarrow> Panic m | Diverge \<Rightarrow> Diverge)"

text \<open>\<^verbatim>\<open>expect\<close> and \<^verbatim>\<open>unwrap\<close> on an \<^verbatim>\<open>Option\<close>.\<close>

definition expect :: "string \<Rightarrow> 'a option \<Rightarrow> ('e, 'a) res" where
  "expect msg x = (case x of Some a \<Rightarrow> Ok a | None \<Rightarrow> Panic msg)"

lemma bind_r_Ok_iff:
  "bind_r r f = Ok b \<longleftrightarrow> (\<exists>a. r = Ok a \<and> f a = Ok b)"
  by (cases r) (auto simp: bind_r_def)

lemma bind_r_simps [simp]:
  "bind_r (Ok a) f = f a" "bind_r (Err e) f = Err e"
  "bind_r (Panic m) f = Panic m" "bind_r Diverge f = Diverge"
  by (simp_all add: bind_r_def)

lemma ensure_Ok_iff [simp]: "ensure b e = Ok u \<longleftrightarrow> b"
  by (simp add: ensure_def)

lemma ensure_simps [simp]: "ensure True e = Ok ()" "ensure False e = Err e"
  by (simp_all add: ensure_def)

lemma ensure_total: "ensure b e \<noteq> Panic m" "ensure b e \<noteq> Diverge"
  by (simp_all add: ensure_def)

lemma map_err_simps [simp]:
  "map_err g (Ok a) = Ok a" "map_err g (Err e) = Err (g e)"
  "map_err g (Panic m) = Panic m" "map_err g Diverge = Diverge"
  by (simp_all add: map_err_def)

lemma map_err_Ok_iff [simp]: "map_err g r = Ok a \<longleftrightarrow> r = Ok a"
  by (cases r) auto

lemma expect_simps [simp]: "expect msg (Some a) = Ok a" "expect msg None = Panic msg"
  by (simp_all add: expect_def)

lemma expect_Ok_iff [simp]: "expect msg x = Ok a \<longleftrightarrow> x = Some a"
  by (cases x) auto

section \<open>Evolution relations\<close>

text \<open>
  \<open>steps R m\<close>: whatever the outcome of \<open>m\<close>, the state it leaves is related to the
  state it started from. With \<open>R s s' = (I s \<longrightarrow> I s')\<close> this is preservation of an
  invariant; with an order it is monotonicity.
\<close>

definition steps :: "('st \<Rightarrow> 'st \<Rightarrow> bool) \<Rightarrow> ('st, 'e, 'a) handler \<Rightarrow> bool" where
  "steps R m \<longleftrightarrow> (\<forall>s. R s (snd (m s)))"

definition steps_at :: "('st \<Rightarrow> 'st \<Rightarrow> bool) \<Rightarrow> ('st, 'e, 'a) handler \<Rightarrow> 'st \<Rightarrow> bool" where
  "steps_at R m s \<longleftrightarrow> R s (snd (m s))"

lemma stepsI: "(\<And>s. R s (snd (m s))) \<Longrightarrow> steps R m"
  by (simp add: steps_def)

lemma stepsD: "steps R m \<Longrightarrow> R s (snd (m s))"
  by (simp add: steps_def)

lemma snd_ignore_m: "snd (ignore_m m s) = snd (m s)"
  by (simp add: ignore_m_def split: prod.split res.split)

locale evolution =
  fixes R :: "'st \<Rightarrow> 'st \<Rightarrow> bool"
  assumes evo_refl: "R s s"
    and evo_trans: "R s t \<Longrightarrow> R t u \<Longrightarrow> R s u"
begin

lemma steps_ret: "steps R (ret a)"
  by (simp add: steps_def ret_def evo_refl)

lemma steps_raise: "steps R (raise e)"
  by (simp add: steps_def raise_def evo_refl)

lemma steps_panic: "steps R (panic msg)"
  by (simp add: steps_def panic_def evo_refl)

lemma steps_diverge: "steps R diverge"
  by (simp add: steps_def diverge_def evo_refl)

lemma steps_gets: "steps R (gets_m f)"
  by (simp add: steps_def gets_m_def evo_refl)

lemma steps_lift: "steps R (lift_m r)"
  by (simp add: steps_def lift_m_def evo_refl)

lemma steps_assert: "steps R (assert_m b msg)"
  by (simp add: assert_m_def steps_ret steps_panic)

lemma steps_modify: "(\<And>s. R s (f s)) \<Longrightarrow> steps R (modify_m f)"
  by (simp add: steps_def modify_m_def)

lemma steps_bind:
  assumes "steps R m" and "\<And>a. steps R (f a)"
  shows "steps R (bind_m m f)"
proof (rule stepsI)
  fix s
  obtain r s' where m: "m s = (r, s')" by (cases "m s")
  have 1: "R s s'" using stepsD [OF assms(1), of s] m by simp
  show "R s (snd (bind_m m f s))"
  proof (cases r)
    case (Ok a)
    with m 1 show ?thesis
      using evo_trans [OF 1 stepsD [OF assms(2) [of a], of s']] by (simp add: bind_m_def)
  qed (use m 1 in \<open>simp_all add: bind_m_def\<close>)
qed

lemma steps_then: "steps R m \<Longrightarrow> steps R m' \<Longrightarrow> steps R (then_m m m')"
  by (simp add: then_m_def steps_bind)

lemma steps_when: "(b \<Longrightarrow> steps R m) \<Longrightarrow> steps R (when_m b m)"
  by (simp add: when_m_def steps_ret)

lemma steps_if: "(b \<Longrightarrow> steps R m) \<Longrightarrow> (\<not> b \<Longrightarrow> steps R m') \<Longrightarrow> steps R (if b then m else m')"
  by simp

lemma steps_case_option:
  "(x = None \<Longrightarrow> steps R m) \<Longrightarrow> (\<And>a. x = Some a \<Longrightarrow> steps R (f a)) \<Longrightarrow>
   steps R (case x of None \<Rightarrow> m | Some a \<Rightarrow> f a)"
  by (cases x) auto

lemma steps_ignore: "steps R m \<Longrightarrow> steps R (ignore_m m)"
  by (simp add: steps_def snd_ignore_m)

lemmas steps_intros =
  steps_ret steps_raise steps_panic steps_diverge steps_gets steps_lift steps_assert
  steps_bind steps_then steps_when steps_if steps_case_option steps_ignore

text \<open>The same at one state, for steps that need what was read of it.\<close>

lemma at_steps: "steps R m \<Longrightarrow> steps_at R m s"
  by (simp add: steps_def steps_at_def)

lemma at_ret: "steps_at R (ret a) s"
  by (simp add: at_steps steps_ret)

lemma at_gets: "steps_at R (f (g s)) s \<Longrightarrow> steps_at R (bind_m (gets_m g) f) s"
  by (simp add: steps_at_def bind_m_def gets_m_def)

lemma at_lift: "(\<And>a. r = Ok a \<Longrightarrow> steps_at R (f a) s) \<Longrightarrow> steps_at R (bind_m (lift_m r) f) s"
  by (cases r) (simp_all add: steps_at_def bind_m_def lift_m_def evo_refl)

lemma at_assert: "(b \<Longrightarrow> steps_at R m s) \<Longrightarrow> steps_at R (then_m (assert_m b msg) m) s"
  by (simp add: steps_at_def then_m_def assert_m_def ret_def panic_def bind_m_def evo_refl)

lemma at_when: "(b \<Longrightarrow> steps_at R m s) \<Longrightarrow> steps_at R (when_m b m) s"
  by (simp add: when_m_def at_ret)

lemma at_if: "(b \<Longrightarrow> steps_at R m s) \<Longrightarrow> (\<not> b \<Longrightarrow> steps_at R m' s) \<Longrightarrow> steps_at R (if b then m else m') s"
  by simp

lemma at_case_option:
  "(x = None \<Longrightarrow> steps_at R m s) \<Longrightarrow> (\<And>a. x = Some a \<Longrightarrow> steps_at R (f a) s) \<Longrightarrow>
   steps_at R (case x of None \<Rightarrow> m | Some a \<Rightarrow> f a) s"
  by (cases x) auto

lemma at_modify: "R s (h s) \<Longrightarrow> steps_at R (modify_m h) s"
  by (simp add: steps_at_def modify_m_def)

lemma at_modify_then: "R s (h s) \<Longrightarrow> steps_at R m (h s) \<Longrightarrow> steps_at R (then_m (modify_m h) m) s"
  by (auto simp: steps_at_def then_m_def modify_m_def bind_m_def intro: evo_trans)

lemma at_bind:
  assumes "steps_at R m s" and "\<And>a. steps R (f a)"
  shows "steps_at R (bind_m m f) s"
  using assms evo_trans unfolding steps_at_def steps_def bind_m_def
  by (fastforce split: prod.splits res.splits)

lemma at_then: "steps_at R m s \<Longrightarrow> steps R m' \<Longrightarrow> steps_at R (then_m m m') s"
  by (simp add: then_m_def at_bind)

lemmas at_intros = at_gets at_lift at_assert at_when at_if at_case_option

end

lemma steps_of_at: "(\<And>s. steps_at R m s) \<Longrightarrow> steps R m"
  by (simp add: steps_def steps_at_def)

lemma modify_fuse:
  "then_m (modify_m f) (then_m (modify_m g) m) = then_m (modify_m (\<lambda>s. g (f s))) m"
  by (rule ext) (simp add: then_m_def modify_m_def bind_m_def)

lemma modify_fuse_last: "then_m (modify_m f) (modify_m g) = modify_m (\<lambda>s. g (f s))"
  by (rule ext) (simp add: then_m_def modify_m_def bind_m_def)

text \<open>
  The other half: what a handler's outcome is. \<open>returns m\<close> says that \<open>m\<close> is not the
  outcome of a loop that ran out of fuel.
\<close>

definition returns :: "('e, 'a) res \<Rightarrow> bool" where
  "returns r \<longleftrightarrow> r \<noteq> Diverge"

lemma returns_simps [simp]:
  "returns (Ok a)" "returns (Err e)" "returns (Panic m)" "\<not> returns Diverge"
  by (simp_all add: returns_def)

lemma returns_bind_r: "returns r \<Longrightarrow> (\<And>a. r = Ok a \<Longrightarrow> returns (f a)) \<Longrightarrow> returns (bind_r r f)"
  by (cases r) simp_all

lemma returns_ensure: "returns (ensure b e)"
  by (simp add: ensure_def)

lemma returns_map_err: "returns r \<Longrightarrow> returns (map_err g r)"
  by (cases r) simp_all

lemma returns_expect: "returns (expect msg x)"
  by (cases x) simp_all

lemma returns_if: "(b \<Longrightarrow> returns r) \<Longrightarrow> (\<not> b \<Longrightarrow> returns r') \<Longrightarrow> returns (if b then r else r')"
  by simp

lemma returns_case_option:
  "(x = None \<Longrightarrow> returns r) \<Longrightarrow> (\<And>a. x = Some a \<Longrightarrow> returns (f a)) \<Longrightarrow>
   returns (case x of None \<Rightarrow> r | Some a \<Rightarrow> f a)"
  by (cases x) simp_all

lemmas returns_intros = returns_simps(1-3) returns_bind_r returns_ensure returns_map_err
  returns_expect returns_if returns_case_option

definition halts_at :: "('st, 'e, 'a) handler \<Rightarrow> 'st \<Rightarrow> bool" where
  "halts_at m s \<longleftrightarrow> returns (fst (m s))"

lemma halts_simple:
  "halts_at (ret a) s" "halts_at (raise e) s" "halts_at (panic msg) s" "halts_at (gets_m g) s"
  "halts_at (modify_m h) s" "halts_at (assert_m b msg) s"
  by (simp_all add: halts_at_def monad_defs)

lemma halts_lift: "returns r \<Longrightarrow> halts_at (lift_m r) s"
  by (simp add: halts_at_def lift_m_def)

lemma halts_bind:
  "halts_at m s \<Longrightarrow> (\<And>a. fst (m s) = Ok a \<Longrightarrow> halts_at (f a) (snd (m s))) \<Longrightarrow> halts_at (bind_m m f) s"
  unfolding halts_at_def bind_m_def by (cases "m s"; cases "fst (m s)") auto

lemma halts_then:
  "halts_at m s \<Longrightarrow> (\<And>a. fst (m s) = Ok a \<Longrightarrow> halts_at m' (snd (m s))) \<Longrightarrow> halts_at (then_m m m') s"
  unfolding then_m_def by (rule halts_bind)

lemma halts_gets: "halts_at (f (g s)) s \<Longrightarrow> halts_at (bind_m (gets_m g) f) s"
  by (simp add: halts_at_def bind_m_def gets_m_def)

lemma halts_lift_bind: "returns r \<Longrightarrow> (\<And>a. r = Ok a \<Longrightarrow> halts_at (f a) s) \<Longrightarrow> halts_at (bind_m (lift_m r) f) s"
  by (cases r) (simp_all add: halts_at_def bind_m_def lift_m_def)

lemma halts_lift_then: "returns r \<Longrightarrow> (r = Ok u \<Longrightarrow> halts_at m s) \<Longrightarrow> halts_at (then_m (lift_m r) m) s" for u :: unit
  by (cases r) (simp_all add: halts_at_def then_m_def bind_m_def lift_m_def)

lemma halts_assert_then: "(b \<Longrightarrow> halts_at m s) \<Longrightarrow> halts_at (then_m (assert_m b msg) m) s"
  by (simp add: halts_at_def then_m_def bind_m_def assert_m_def ret_def panic_def)

lemma halts_modify_then: "halts_at m (h s) \<Longrightarrow> halts_at (then_m (modify_m h) m) s"
  by (simp add: halts_at_def then_m_def bind_m_def modify_m_def)

lemma halts_when: "(b \<Longrightarrow> halts_at m s) \<Longrightarrow> halts_at (when_m b m) s"
  by (simp add: when_m_def halts_simple)

lemma halts_if: "(b \<Longrightarrow> halts_at m s) \<Longrightarrow> (\<not> b \<Longrightarrow> halts_at m' s) \<Longrightarrow> halts_at (if b then m else m') s"
  by simp

lemma halts_case_option:
  "(x = None \<Longrightarrow> halts_at m s) \<Longrightarrow> (\<And>a. x = Some a \<Longrightarrow> halts_at (f a) s) \<Longrightarrow>
   halts_at (case x of None \<Rightarrow> m | Some a \<Rightarrow> f a) s"
  by (cases x) auto

lemma halts_ignore: "halts_at m s \<Longrightarrow> halts_at (ignore_m m) s"
  by (auto simp: halts_at_def ignore_m_def split: prod.split res.split)

lemmas halts_intros = halts_simple halts_gets halts_lift_bind halts_lift halts_lift_then halts_assert_then
  halts_modify_then halts_when halts_if halts_case_option halts_ignore

text \<open>What a handler's result satisfies when it returns one.\<close>

definition results :: "('a \<Rightarrow> bool) \<Rightarrow> ('st, 'e, 'a) handler \<Rightarrow> bool" where
  "results P m \<longleftrightarrow> (\<forall>s a. fst (m s) = Ok a \<longrightarrow> P a)"

lemma results_D: "results P m \<Longrightarrow> fst (m s) = Ok a \<Longrightarrow> P a"
  by (simp add: results_def)

lemma results_ret: "P a \<Longrightarrow> results P (ret a)"
  by (simp add: results_def ret_def)

lemma results_gets: "(\<And>s. P (g s)) \<Longrightarrow> results P (gets_m g)"
  by (simp add: results_def gets_m_def)

lemma results_bind: "(\<And>a. results P (f a)) \<Longrightarrow> results P (bind_m m f)"
  unfolding results_def bind_m_def by (fastforce split: prod.splits res.splits)

lemma results_then: "results P m' \<Longrightarrow> results P (then_m m m')"
  unfolding then_m_def by (rule results_bind)

lemma results_if: "(b \<Longrightarrow> results P m) \<Longrightarrow> (\<not> b \<Longrightarrow> results P m') \<Longrightarrow> results P (if b then m else m')"
  by simp

lemmas results_intros = results_ret results_gets results_bind results_then results_if

lemma bind_m_Ok:
  "m s = (Ok a, s') \<Longrightarrow> bind_m m f s = f a s'"
  by (simp add: bind_m_def)

lemma bind_m_fail:
  "m s = (Err e, s') \<Longrightarrow> bind_m m f s = (Err e, s')"
  "m s = (Panic msg, s') \<Longrightarrow> bind_m m f s = (Panic msg, s')"
  "m s = (Diverge, s') \<Longrightarrow> bind_m m f s = (Diverge, s')"
  by (simp_all add: bind_m_def)

lemma bind_m_ret [simp]: "bind_m (ret a) f = f a"
  by (simp add: bind_m_def ret_def)

lemma bind_m_assoc: "bind_m (bind_m m f) g = bind_m m (\<lambda>a. bind_m (f a) g)"
  by (rule ext) (simp add: bind_m_def split: prod.splits res.splits)

end
