(* ===== verification/Crypto.thy ===== *)
theory Crypto
  imports Prelude
begin

text \<open>
  The crypto crate (src/crypto/src/lib.rs): digests, ed25519 keys and signatures, and the
  BLS helpers that add and remove points. SHA-512, ed25519 and the BLS pairing check come
  from packages outside the repository: they are the fields of \<open>runtime\<close>, the parameter
  of every definition that uses them. BLS public key shares and signature shares are
  points of additive groups: the type variables \<open>'pk\<close> and \<open>'s\<close>, of sort
  \<open>ab_group_add\<close> where the code adds or subtracts points and \<open>linorder\<close> where it
  sorts keys. One more field, \<open>hash_order\<close>, is the order in which a
  \<^verbatim>\<open>HashMap\<close> is iterated, which the standard library leaves open.
\<close>

section \<open>Digests, keys, signatures\<close>

datatype digest = Digest (digest_bytes: "u8 list")

datatype public_key = PublicKey (key_bytes: "u8 list")

record signature =
  part1 :: "u8 list"
  part2 :: "u8 list"

definition digest_default :: digest where
  "digest_default = Digest (replicate 32 0)"

definition public_key_default :: public_key where
  "public_key_default = PublicKey (replicate 32 0)"

definition signature_default :: signature where
  "signature_default = \<lparr>part1 = replicate 32 0, part2 = replicate 32 0\<rparr>"

definition to_vec :: "digest \<Rightarrow> u8 list" where
  "to_vec d = digest_bytes d"

text \<open>\<^verbatim>\<open>#[derive(Ord)]\<close> on a byte array is the lexicographic order.\<close>

instantiation public_key :: linorder
begin

definition less_eq_public_key :: "public_key \<Rightarrow> public_key \<Rightarrow> bool" where
  "less_eq_public_key a b \<longleftrightarrow> key_bytes a \<le> key_bytes b"

definition less_public_key :: "public_key \<Rightarrow> public_key \<Rightarrow> bool" where
  "less_public_key a b \<longleftrightarrow> key_bytes a < key_bytes b"

instance
  by standard
    (auto simp: less_eq_public_key_def less_public_key_def intro: public_key.expand)

end

record ('pk, 's) runtime =
  sha512 :: "u8 list \<Rightarrow> u8 list"
  ed25519_sign :: "u8 list \<Rightarrow> u8 list"
  ed25519_verify :: "u8 list \<Rightarrow> u8 list \<Rightarrow> u8 list \<Rightarrow> bool"
  bls_sign :: "u8 list \<Rightarrow> 's"
  bls_verify_batch :: "u8 list \<Rightarrow> 'pk \<Rightarrow> 's \<Rightarrow> bool"
  bls_default :: 's
  hash_order :: "nat list \<Rightarrow> nat list"

datatype crypto_error = CryptoError

datatype bls_error = BlsError

text \<open>
  Every \<^verbatim>\<open>Hash\<close> implementation ends with the first 32 bytes of the
  SHA-512 of the bytes fed to the hasher.
\<close>

definition hash32 :: "('pk, 's) runtime \<Rightarrow> u8 list \<Rightarrow> digest" where
  "hash32 E bytes = Digest (take 32 (sha512 E bytes))"

definition signature_new :: "('pk, 's) runtime \<Rightarrow> digest \<Rightarrow> signature" where
  "signature_new E d =
     (let sig = ed25519_sign E (digest_bytes d)
      in \<lparr>part1 = take 32 sig, part2 = take 32 (drop 32 sig)\<rparr>)"

definition flatten :: "signature \<Rightarrow> u8 list" where
  "flatten sg = part1 sg @ part2 sg"

definition signature_verify ::
  "('pk, 's) runtime \<Rightarrow> signature \<Rightarrow> digest \<Rightarrow> public_key \<Rightarrow> (crypto_error, unit) res" where
  "signature_verify E sg d pk =
     (if ed25519_verify E (flatten sg) (digest_bytes d) (key_bytes pk)
      then Ok () else Err CryptoError)"

text \<open>\<^verbatim>\<open>SignatureShareG1::verify_batch\<close>.\<close>

definition verify_batch ::
  "('pk, 's) runtime \<Rightarrow> u8 list \<Rightarrow> 'pk \<Rightarrow> 's \<Rightarrow> (bls_error, unit) res" where
  "verify_batch E msg pk sg = (if bls_verify_batch E msg pk sg then Ok () else Err BlsError)"

section \<open>Point arithmetic\<close>

definition aggregate_sign :: "'s::ab_group_add \<Rightarrow> 's \<Rightarrow> 's" where
  "aggregate_sign agg_sig new_sign = agg_sig + new_sign"

definition aggregate_pubkey :: "'pk::ab_group_add \<Rightarrow> 'pk \<Rightarrow> 'pk" where
  "aggregate_pubkey agg_key new_key = agg_key + new_key"

fun remove_pubkeys :: "'pk::ab_group_add \<Rightarrow> nat list \<Rightarrow> 'pk list \<Rightarrow> ('e, 'pk) res" where
  "remove_pubkeys agg [] sorted_keys = Ok agg"
| "remove_pubkeys agg (i # ids) sorted_keys =
     (case nth_opt sorted_keys i of
        None \<Rightarrow> Panic ''index out of bounds''
      | Some key \<Rightarrow> remove_pubkeys (agg - key) ids sorted_keys)"

definition combine_keys :: "'pk::ab_group_add list \<Rightarrow> ('e, 'pk) res" where
  "combine_keys keys =
     (case keys of
        [] \<Rightarrow> Panic ''index out of bounds''
      | key # rest \<Rightarrow> Ok (foldl (\<lambda>agg k. agg + k) key rest))"

fun combine_rest :: "'pk::ab_group_add \<Rightarrow> nat list \<Rightarrow> 'pk list \<Rightarrow> ('e, 'pk) res" where
  "combine_rest agg [] sorted_keys = Ok agg"
| "combine_rest agg (i # ids) sorted_keys =
     (case nth_opt sorted_keys i of
        None \<Rightarrow> Panic ''index out of bounds''
      | Some key \<Rightarrow> combine_rest (agg + key) ids sorted_keys)"

definition combine_key_from_ids :: "nat list \<Rightarrow> 'pk::ab_group_add list \<Rightarrow> ('e, 'pk) res" where
  "combine_key_from_ids ids sorted_keys =
     (case ids of
        [] \<Rightarrow> Panic ''index out of bounds''
      | i # rest \<Rightarrow>
          (case nth_opt sorted_keys i of
             None \<Rightarrow> Panic ''index out of bounds''
           | Some key \<Rightarrow> combine_rest key rest sorted_keys))"

section \<open>Adding the signers is removing the others\<close>

lemma signature_verify_Ok_iff [simp]:
  "signature_verify E sg d pk = Ok u \<longleftrightarrow> ed25519_verify E (flatten sg) (digest_bytes d) (key_bytes pk)"
  by (simp add: signature_verify_def)

lemma verify_batch_Ok_iff [simp]: "verify_batch E msg pk sg = Ok u \<longleftrightarrow> bls_verify_batch E msg pk sg"
  by (simp add: verify_batch_def)

lemma flatten_signature_new:
  "length (ed25519_sign E (digest_bytes d)) = 64 \<Longrightarrow>
   flatten (signature_new E d) = ed25519_sign E (digest_bytes d)"
  by (simp add: flatten_def signature_new_def Let_def append_take_drop_id flip: take_add)

lemma foldl_plus: "foldl (\<lambda>agg k. agg + k) a xs = a + sum_list (xs :: 'a::ab_group_add list)"
  by (induction xs arbitrary: a) (simp_all add: add.assoc)

lemma combine_keys_sum: "keys \<noteq> [] \<Longrightarrow> combine_keys keys = Ok (sum_list keys)"
  by (cases keys) (simp_all add: combine_keys_def foldl_plus)

lemma remove_pubkeys_sum:
  assumes "\<forall>i \<in> set ids. i < length keys"
  shows "remove_pubkeys agg ids keys = Ok (agg - (\<Sum>i\<leftarrow>ids. keys ! i))"
  using assms
proof (induction ids arbitrary: agg)
  case Nil
  then show ?case by simp
next
  case (Cons i ids)
  then show ?case by (simp add: nth_opt_def algebra_simps)
qed

lemma combine_rest_sum:
  assumes "\<forall>i \<in> set ids. i < length keys"
  shows "combine_rest agg ids keys = Ok (agg + (\<Sum>i\<leftarrow>ids. keys ! i))"
  using assms by (induction ids arbitrary: agg) (simp_all add: nth_opt_def algebra_simps)

lemma combine_key_from_ids_sum:
  assumes "ids \<noteq> []" "\<forall>i \<in> set ids. i < length keys"
  shows "combine_key_from_ids ids keys = Ok (\<Sum>i\<leftarrow>ids. keys ! i)"
  using assms
  by (cases ids) (simp_all add: combine_key_from_ids_def nth_opt_def combine_rest_sum)

lemma sum_list_filter_split:
  "(\<Sum>i\<leftarrow>xs. f i) = (\<Sum>i\<leftarrow>filter P xs. f i) + (\<Sum>i\<leftarrow>filter (\<lambda>i. \<not> P i) xs. (f i :: 'a::ab_group_add))"
  by (induction xs) (simp_all add: algebra_simps)

lemma sum_list_keys: "sum_list keys = (\<Sum>i\<leftarrow>[0..<length keys]. keys ! i)"
  by (simp add: map_nth)

text \<open>
  The two ways the code computes the key of a set of signers agree: subtracting the keys
  of the nodes outside the set from the committee's combined key, and adding the keys of
  the nodes inside it.
\<close>

lemma remove_complement_is_combine:
  fixes keys :: "'pk::ab_group_add list"
  assumes "filter P [0..<length keys] \<noteq> []"
  shows "remove_pubkeys (sum_list keys) (filter (\<lambda>i. \<not> P i) [0..<length keys]) keys =
         combine_key_from_ids (filter P [0..<length keys]) keys"
proof -
  let ?ids = "[0..<length keys]"
  have "remove_pubkeys (sum_list keys) (filter (\<lambda>i. \<not> P i) ?ids) keys =
      Ok (sum_list keys - (\<Sum>i\<leftarrow>filter (\<lambda>i. \<not> P i) ?ids. keys ! i))"
    by (rule remove_pubkeys_sum) auto
  also have "sum_list keys - (\<Sum>i\<leftarrow>filter (\<lambda>i. \<not> P i) ?ids. keys ! i) = (\<Sum>i\<leftarrow>filter P ?ids. keys ! i)"
    unfolding sum_list_keys [of keys] sum_list_filter_split [where P = P and xs = ?ids] by simp
  also have "Ok \<dots> = combine_key_from_ids (filter P ?ids) keys"
    using assms by (intro combine_key_from_ids_sum [symmetric]) auto
  finally show ?thesis .
qed

end
