(* ===== verification/Config.thy ===== *)
theory Config
  imports Crypto
begin

text \<open>
  The config crate (src/config/src/lib.rs): the committee, its four thresholds and its
  lookups, and the node parameters. \<^verbatim>\<open>BTreeMap<PublicKey, Authority>\<close> is an
  association list in ascending key order, \<^verbatim>\<open>HashMap<WorkerId, _>\<close> one in
  the (unspecified) iteration order. Reading and writing JSON files and generating keys are
  in the theory \<open>Keys\<close>.
\<close>

section \<open>Data\<close>

datatype socket_addr = SocketAddr "u8 list" nat

type_synonym stake = u32
type_synonym worker_id = u32

datatype config_error =
  NotInCommittee public_key | UnknownWorker worker_id | ImportError string string | ExportError string string

datatype leader_elector_kind =
  FailureBestCase | FailureMidCase | FailureWorstCase | FairSuccession | Simple

record parameters =
  p_consensus_only :: bool
  p_timeout_delay :: u64
  p_header_size :: usize
  p_max_block_size :: usize
  p_max_header_delay :: u64
  p_gc_depth :: u64
  p_sync_retry_delay :: u64
  p_sync_retry_nodes :: usize
  p_batch_size :: usize
  p_max_batch_delay :: u64
  p_use_vote_aggregator :: bool
  p_leader_elector :: leader_elector_kind
  p_n :: u32
  p_f :: u32
  p_c :: u32
  p_k :: u32

definition parameters_default :: parameters where
  "parameters_default = \<lparr>p_consensus_only = False, p_timeout_delay = 5000, p_header_size = 1000,
     p_max_block_size = 1, p_max_header_delay = 100, p_gc_depth = 50, p_sync_retry_delay = 5000,
     p_sync_retry_nodes = 3, p_batch_size = 500000, p_max_batch_delay = 100,
     p_use_vote_aggregator = False, p_leader_elector = Simple, p_n = 15, p_f = 3, p_c = 2, p_k = 1\<rparr>"

record consensus_addresses =
  consensus_to_consensus :: socket_addr

record primary_addresses =
  primary_to_primary :: socket_addr
  worker_to_primary :: socket_addr

record worker_addresses =
  wa_transactions :: socket_addr
  worker_to_worker :: socket_addr
  primary_to_worker :: socket_addr

record 'pk authority =
  a_id :: u32
  bls_pubkey_g2 :: 'pk
  is_honest :: bool
  a_stake :: stake
  a_consensus :: consensus_addresses
  a_primary :: primary_addresses
  a_workers :: "(worker_id \<times> worker_addresses) list"

record 'pk committee =
  authorities :: "(public_key \<times> 'pk authority) list"
  sorted_keys :: "'pk list"
  combined_pubkey :: 'pk
  cm_n :: u32
  cm_f :: u32
  cm_c :: u32
  cm_k :: u32
  cm_p :: u32
  cm_quorum_threshold :: u32
  cm_slow_commit_threshold :: u32
  cm_fast_commit_threshold :: u32
  cm_view_change_threshold :: u32

section \<open>Construction and thresholds\<close>

text \<open>
  \<^verbatim>\<open>Committee::new\<close>. The two divisions by 2.0 are exact on
  \<^verbatim>\<open>f64\<close> for every 32-bit operand, so the ceiling and the truncating cast are
  integer divisions.
\<close>

definition committee_new ::
  "(public_key \<times> 'pk::{linorder, ab_group_add} authority) list \<Rightarrow> u32 \<Rightarrow> u32 \<Rightarrow> u32 \<Rightarrow> u32 \<Rightarrow>
   ('e, 'pk committee) res" where
  "committee_new auths n f c k =
     (let keys = sort (map (\<lambda>(_, x). bls_pubkey_g2 x) auths);
          p = add32 c k div 2;
          quorum_threshold = (add32 (add32 n f) 1 + 1) div 2;
          slow_commit_threshold = add32 (add32 (mul32 2 f) c) 1;
          fast_commit_threshold = sub32 n p;
          view_change_threshold = sub32 (sub32 n f) c
      in bind_r (combine_keys keys) (\<lambda>combined.
         Ok \<lparr>authorities = auths, sorted_keys = keys, combined_pubkey = combined,
             cm_n = n, cm_f = f, cm_c = c, cm_k = k, cm_p = p,
             cm_quorum_threshold = quorum_threshold,
             cm_slow_commit_threshold = slow_commit_threshold,
             cm_fast_commit_threshold = fast_commit_threshold,
             cm_view_change_threshold = view_change_threshold\<rparr>))"

definition get_byzantine_ids :: "'pk committee \<Rightarrow> public_key list" where
  "get_byzantine_ids C = map fst (filter (\<lambda>(_, attrs). \<not> is_honest attrs) (authorities C))"

definition get_honest_ids :: "'pk committee \<Rightarrow> public_key list" where
  "get_honest_ids C = map fst (filter (\<lambda>(_, attrs). is_honest attrs) (authorities C))"

definition committee_size :: "'pk committee \<Rightarrow> usize" where
  "committee_size C = length (authorities C)"

definition authority_of :: "'pk committee \<Rightarrow> public_key \<Rightarrow> 'pk authority option" where
  "authority_of C name = map_of (authorities C) name"

definition stake_of :: "'pk committee \<Rightarrow> public_key \<Rightarrow> stake" where
  "stake_of C name = (case authority_of C name of None \<Rightarrow> 0 | Some x \<Rightarrow> a_stake x)"

definition committee_id :: "'pk committee \<Rightarrow> public_key \<Rightarrow> ('e, u32) res" where
  "committee_id C name =
     bind_r (expect ''called Option::unwrap() on a None value'' (authority_of C name))
       (\<lambda>x. Ok (a_id x))"

definition others_stake :: "'pk committee \<Rightarrow> public_key \<Rightarrow> (public_key \<times> stake) list" where
  "others_stake C myself =
     map (\<lambda>(name, a). (name, a_stake a)) (filter (\<lambda>(name, _). name \<noteq> myself) (authorities C))"

definition quorum_threshold :: "'pk committee \<Rightarrow> stake" where
  "quorum_threshold C = cm_quorum_threshold C"

definition fast_commit_quorum_threshold :: "'pk committee \<Rightarrow> stake" where
  "fast_commit_quorum_threshold C = cm_fast_commit_threshold C"

definition slow_commit_threshold :: "'pk committee \<Rightarrow> stake" where
  "slow_commit_threshold C = cm_slow_commit_threshold C"

definition view_change_threshold :: "'pk committee \<Rightarrow> stake" where
  "view_change_threshold C = cm_view_change_threshold C"

definition validity_threshold :: "'pk committee \<Rightarrow> stake" where
  "validity_threshold C = add32 (cm_f C) 1"

section \<open>Address and key lookups\<close>

definition committee_consensus :: "'pk committee \<Rightarrow> public_key \<Rightarrow> (config_error, consensus_addresses) res" where
  "committee_consensus C to =
     (case authority_of C to of None \<Rightarrow> Err (NotInCommittee to) | Some x \<Rightarrow> Ok (a_consensus x))"

definition others_consensus :: "'pk committee \<Rightarrow> public_key \<Rightarrow> (public_key \<times> consensus_addresses) list" where
  "others_consensus C myself =
     map (\<lambda>(name, a). (name, a_consensus a))
       (filter (\<lambda>(name, attrs). name \<noteq> myself \<and> is_honest attrs) (authorities C))"

definition others_consensus_sockets :: "'pk committee \<Rightarrow> public_key \<Rightarrow> socket_addr list" where
  "others_consensus_sockets C myself =
     map (\<lambda>(_, x). consensus_to_consensus x) (others_consensus C myself)"

definition committee_primary :: "'pk committee \<Rightarrow> public_key \<Rightarrow> (config_error, primary_addresses) res" where
  "committee_primary C to =
     (case authority_of C to of None \<Rightarrow> Err (NotInCommittee to) | Some x \<Rightarrow> Ok (a_primary x))"

definition others_primaries :: "'pk committee \<Rightarrow> public_key \<Rightarrow> (public_key \<times> primary_addresses) list" where
  "others_primaries C myself =
     map (\<lambda>(name, a). (name, a_primary a)) (filter (\<lambda>(name, _). name \<noteq> myself) (authorities C))"

definition committee_worker :: "'pk committee \<Rightarrow> public_key \<Rightarrow> worker_id \<Rightarrow> (config_error, worker_addresses) res" where
  "committee_worker C to w =
     (case find (\<lambda>(name, _). name = to) (authorities C) of
        None \<Rightarrow> Err (NotInCommittee to)
      | Some (_, a) \<Rightarrow>
          (case find (\<lambda>(worker_id, _). worker_id = w) (a_workers a) of
             None \<Rightarrow> Err (NotInCommittee to)
           | Some (_, worker) \<Rightarrow> Ok worker))"

definition our_workers :: "'pk committee \<Rightarrow> public_key \<Rightarrow> (config_error, worker_addresses list) res" where
  "our_workers C myself =
     (case find (\<lambda>(name, _). name = myself) (authorities C) of
        None \<Rightarrow> Err (NotInCommittee myself)
      | Some (_, a) \<Rightarrow> Ok (map snd (a_workers a)))"

definition others_workers ::
  "'pk committee \<Rightarrow> public_key \<Rightarrow> worker_id \<Rightarrow> (public_key \<times> worker_addresses) list" where
  "others_workers C myself w =
     List.map_filter (\<lambda>(name, a).
        map_option (\<lambda>(_, addresses). (name, addresses))
          (find (\<lambda>(worker_id, _). worker_id = w) (a_workers a)))
       (filter (\<lambda>(name, _). name \<noteq> myself) (authorities C))"

definition get_public_keys :: "'pk committee \<Rightarrow> public_key list" where
  "get_public_keys C = map fst (authorities C)"

definition get_bls_g2_public_keys :: "'pk committee \<Rightarrow> 'pk list" where
  "get_bls_g2_public_keys C = map (\<lambda>(_, x). bls_pubkey_g2 x) (authorities C)"

definition get_bls_public_g2 :: "'pk committee \<Rightarrow> public_key \<Rightarrow> ('e, 'pk) res" where
  "get_bls_public_g2 C name =
     expect ''called Option::unwrap() on a None value''
       (map_option bls_pubkey_g2 (authority_of C name))"

section \<open>Well-formed committees\<close>

text \<open>
  What a deployment's committee file gives: one entry per name, pairwise different BLS
  keys, sizes that fit 32 bits, and the resilience equation of the protocol,
  \<open>n = 3f + 2c + k + 1\<close> (the shipped defaults are \<open>15 = 3*3 + 2*2 + 1 + 1\<close>).
\<close>

definition resilient :: "u32 \<Rightarrow> u32 \<Rightarrow> u32 \<Rightarrow> u32 \<Rightarrow> bool" where
  "resilient n f c k \<longleftrightarrow> n = 3 * f + 2 * c + k + 1 \<and> 2 * n < 2 ^ 32"

definition committee_wf :: "'pk::linorder committee \<Rightarrow> bool" where
  "committee_wf C \<longleftrightarrow>
     distinct (map fst (authorities C)) \<and>
     distinct (map (\<lambda>(_, x). bls_pubkey_g2 x) (authorities C)) \<and>
     sorted_keys C = sort (map (\<lambda>(_, x). bls_pubkey_g2 x) (authorities C)) \<and>
     cm_n C = length (authorities C) \<and>
     (\<Sum>(_, a)\<leftarrow>authorities C. a_stake a) < 2 ^ 32"

definition members :: "'pk committee \<Rightarrow> public_key set" where
  "members C = fst ` set (authorities C)"

lemma authority_of_member: "authority_of C name = Some a \<Longrightarrow> name \<in> members C"
  by (force simp: authority_of_def members_def dest: map_of_SomeD)

lemma member_authority_of: "name \<in> members C \<Longrightarrow> \<exists>a. authority_of C name = Some a"
  by (simp add: authority_of_def members_def)
    (metis map_of_eq_None_iff option.exhaust)

lemma stake_pos_member: "0 < stake_of C name \<Longrightarrow> name \<in> members C"
  by (auto simp: stake_of_def split: option.splits dest: authority_of_member)

lemma stake_of_outside: "name \<notin> members C \<Longrightarrow> stake_of C name = 0"
  using stake_pos_member by blast

lemma get_bls_public_g2_outside:
  "name \<notin> members C \<Longrightarrow>
   get_bls_public_g2 C name = Panic ''called Option::unwrap() on a None value''"
  by (metis authority_of_member expect_simps(2) get_bls_public_g2_def not_None_eq option.map(1))

lemma get_bls_public_g2_member:
  assumes "name \<in> members C"
  obtains key where "get_bls_public_g2 C name = Ok key"
    "key \<in> set (get_bls_g2_public_keys C)"
proof -
  from member_authority_of [OF assms] obtain a where a: "authority_of C name = Some a" ..
  then have "(name, a) \<in> set (authorities C)"
    by (simp add: authority_of_def map_of_SomeD)
  then have "bls_pubkey_g2 a \<in> set (get_bls_g2_public_keys C)"
    by (force simp: get_bls_g2_public_keys_def)
  with a that show ?thesis by (simp add: get_bls_public_g2_def)
qed

lemma finite_members [simp]: "finite (members C)"
  by (simp add: members_def)

lemma sum_stake_members:
  assumes "distinct (map fst (authorities C))"
  shows "(\<Sum>m\<in>members C. stake_of C m) = (\<Sum>(_, a)\<leftarrow>authorities C. a_stake a)"
proof -
  have "(\<Sum>m\<in>members C. stake_of C m) = sum_list (map (stake_of C) (map fst (authorities C)))"
    unfolding members_def using assms
    by (subst sum_list_distinct_conv_sum_set) (simp_all add: set_map)
  also have "map (stake_of C) (map fst (authorities C)) = map (\<lambda>(_, a). a_stake a) (authorities C)"
    using assms by (auto simp: stake_of_def authority_of_def)
  finally show ?thesis .
qed

section \<open>Weighted quorums\<close>

text \<open>
  The counting argument behind every threshold, for any finite set of weighted voters.
  The client of this interface is the vote aggregation; the provider is the committee.
\<close>

locale weighted_voters =
  fixes voters :: "'v set" and weight :: "'v \<Rightarrow> nat"
  assumes voters_finite: "finite voters"
begin

lemma overlap:
  assumes "A \<subseteq> voters" "B \<subseteq> voters"
  shows "sum weight A + sum weight B \<le> sum weight voters + sum weight (A \<inter> B)"
proof -
  have fin: "finite A" "finite B" using assms voters_finite by (auto intro: finite_subset)
  then have "sum weight A + sum weight B = sum weight (A \<union> B) + sum weight (A \<inter> B)"
    by (rule sum.union_inter [symmetric])
  also have "sum weight (A \<union> B) \<le> sum weight voters"
    using assms voters_finite by (intro sum_mono2) auto
  finally show ?thesis by simp
qed

lemma good_overlap:
  assumes "A \<subseteq> voters" "B \<subseteq> voters" "bad \<subseteq> voters"
    and "sum weight voters + sum weight bad < sum weight A + sum weight B"
  shows "\<exists>v \<in> A \<inter> B. v \<notin> bad"
proof (rule ccontr)
  assume "\<not> ?thesis"
  then have "A \<inter> B \<subseteq> bad" by blast
  then have "sum weight (A \<inter> B) \<le> sum weight bad"
    using assms voters_finite by (intro sum_mono2) (auto intro: finite_subset)
  with overlap [OF assms(1,2)] assms(4) show False by linarith
qed

lemma good_weight:
  assumes "A \<subseteq> voters" "bad \<subseteq> voters"
  shows "sum weight A \<le> sum weight (A - bad) + sum weight bad"
proof -
  have "finite A" using assms voters_finite by (auto intro: finite_subset)
  then have "sum weight A = sum weight (A - bad) + sum weight (A \<inter> bad)"
    using sum.Int_Diff [of A weight bad] by simp
  also have "sum weight (A \<inter> bad) \<le> sum weight bad"
    using assms voters_finite by (intro sum_mono2) (auto intro: finite_subset)
  finally show ?thesis by simp
qed

end

interpretation committee_voters: weighted_voters "members C" "stake_of C" for C
  by unfold_locales simp

text \<open>The thresholds that \<open>committee_new\<close> stores, in closed form.\<close>

lemma committee_new_thresholds:
  assumes "committee_new auths n f c k = Ok C" "resilient n f c k"
  shows "authorities C = auths" "cm_n C = n" "cm_f C = f" "cm_c C = c" "cm_k C = k"
    "cm_p C = (c + k) div 2"
    "quorum_threshold C = 2 * f + c + 1 + (k + 1) div 2"
    "slow_commit_threshold C = 2 * f + c + 1"
    "fast_commit_quorum_threshold C = n - (c + k) div 2"
    "view_change_threshold C = 2 * f + c + k + 1"
    "validity_threshold C = f + 1"
proof -
  have small: "2 * n < 2 ^ 32" "n = 3 * f + 2 * c + k + 1"
    using assms(2) by (auto simp: resilient_def)
  have q: "(add32 (add32 n f) 1 + 1) div 2 = 2 * f + c + 1 + (k + 1) div 2"
  proof -
    have "add32 (add32 n f) 1 = n + f + 1" using small by simp
    then show ?thesis using small by (simp add: div_plus_div_distrib_dvd_left)
  qed
  have s: "add32 (add32 (mul32 2 f) c) 1 = 2 * f + c + 1"
    using small by (simp add: mul32_small)
  have fa: "sub32 n (add32 c k div 2) = n - (c + k) div 2"
    using small by simp
  have v: "sub32 (sub32 n f) c = 2 * f + c + k + 1"
    using small by simp
  obtain combined where C: "C = \<lparr>authorities = auths, sorted_keys = sort (map (\<lambda>(_, x). bls_pubkey_g2 x) auths),
      combined_pubkey = combined, cm_n = n, cm_f = f, cm_c = c, cm_k = k, cm_p = add32 c k div 2,
      cm_quorum_threshold = (add32 (add32 n f) 1 + 1) div 2,
      cm_slow_commit_threshold = add32 (add32 (mul32 2 f) c) 1,
      cm_fast_commit_threshold = sub32 n (add32 c k div 2),
      cm_view_change_threshold = sub32 (sub32 n f) c\<rparr>"
    using assms(1) by (auto simp: committee_new_def Let_def bind_r_Ok_iff)
  show "authorities C = auths" "cm_n C = n" "cm_f C = f" "cm_c C = c" "cm_k C = k"
    by (simp_all add: C)
  show "cm_p C = (c + k) div 2" using small by (simp add: C)
  show "quorum_threshold C = 2 * f + c + 1 + (k + 1) div 2"
    using q by (simp add: C quorum_threshold_def)
  show "slow_commit_threshold C = 2 * f + c + 1"
    using s by (simp add: C slow_commit_threshold_def)
  show "fast_commit_quorum_threshold C = n - (c + k) div 2"
    using fa by (simp add: C fast_commit_quorum_threshold_def)
  show "view_change_threshold C = 2 * f + c + k + 1"
    using v by (simp add: C view_change_threshold_def)
  show "validity_threshold C = f + 1"
    using small by (simp add: C validity_threshold_def)
qed

end
