(* ===== verification/Primary_Messages.thy ===== *)
theory Primary_Messages
  imports Config
begin

text \<open>
  The messages of the primary crate (src/primary/src/messages.rs and error.rs): headers,
  votes on headers, and the certificates that consensus orders. A transaction is a value
  of a package outside the repository: the type variable \<open>'tx\<close>, with its BCS encoding
  as a parameter.
\<close>

unbundle bit_operations_syntax

datatype dag_error =
  DagInvalidSignature | DagInvalidBlsSignature | DagStoreError | DagSerializationError
| InvalidHeaderId | MalformedHeader digest | DagUnknownAuthority public_key
| DagAuthorityReuse public_key | UnexpectedVote digest | CertificateRequiresQuorum
| HeaderRequiresQuorum digest | HeaderTooOld digest u64 | VoteTooOld digest u64
| CertificateTooOld digest u64

section \<open>Headers\<close>

record 'tx header =
  h_author :: public_key
  h_round :: u64
  h_payload :: "'tx list"
  h_id :: digest
  h_signature :: signature

definition header_digest :: "('pk, 's) runtime \<Rightarrow> ('tx \<Rightarrow> u8 list) \<Rightarrow> 'tx header \<Rightarrow> digest" where
  "header_digest E bcs h =
     hash32 E (key_bytes (h_author h) @ u64_to_le_bytes (h_round h) @ concat (map bcs (h_payload h)))"

definition header_new ::
  "('pk, 's) runtime \<Rightarrow> ('tx \<Rightarrow> u8 list) \<Rightarrow> public_key \<Rightarrow> u64 \<Rightarrow> 'tx list \<Rightarrow> 'tx header" where
  "header_new E bcs author round payload =
     (let header = \<lparr>h_author = author, h_round = round, h_payload = payload,
                    h_id = digest_default, h_signature = signature_default\<rparr>;
          i = header_digest E bcs header
      in header\<lparr>h_id := i, h_signature := signature_new E i\<rparr>)"

definition header_verify ::
  "('pk, 's) runtime \<Rightarrow> ('tx \<Rightarrow> u8 list) \<Rightarrow> 'pk committee \<Rightarrow> 'tx header \<Rightarrow> (dag_error, unit) res" where
  "header_verify E bcs C h =
     bind_r (ensure (header_digest E bcs h = h_id h) InvalidHeaderId) (\<lambda>_.
     bind_r (ensure (0 < stake_of C (h_author h)) (DagUnknownAuthority (h_author h))) (\<lambda>_.
       map_err (\<lambda>_. DagInvalidSignature) (signature_verify E (h_signature h) (h_id h) (h_author h))))"

section \<open>Votes on headers\<close>

record 's pvote =
  pv_id :: digest
  pv_round :: u64
  pv_origin :: public_key
  pv_author :: public_key
  pv_signature :: 's

definition pvote_digest :: "('pk, 's) runtime \<Rightarrow> 's pvote \<Rightarrow> digest" where
  "pvote_digest E v =
     hash32 E (digest_bytes (pv_id v) @ u64_to_le_bytes (pv_round v) @ key_bytes (pv_origin v))"

definition pvote_new :: "('pk, 's) runtime \<Rightarrow> 'tx header \<Rightarrow> public_key \<Rightarrow> 's pvote" where
  "pvote_new E h author =
     (let vote = \<lparr>pv_id = h_id h, pv_round = h_round h, pv_origin = h_author h,
                  pv_author = author, pv_signature = bls_default E\<rparr>
      in vote\<lparr>pv_signature := bls_sign E (digest_bytes (pvote_digest E vote))\<rparr>)"

definition pvote_verify :: "'pk committee \<Rightarrow> 's pvote \<Rightarrow> (dag_error, unit) res" where
  "pvote_verify C v = ensure (0 < stake_of C (pv_author v)) (DagUnknownAuthority (pv_author v))"

section \<open>Certificates\<close>

record 's certificate =
  cert_id :: digest
  cert_round :: u64
  cert_origin :: public_key
  cert_votes :: "u128 \<times> 's"

definition certificate_default :: "('pk, 's) runtime \<Rightarrow> 's certificate" where
  "certificate_default E = \<lparr>cert_id = digest_default, cert_round = 0,
     cert_origin = public_key_default, cert_votes = (0, bls_default E)\<rparr>"

definition certificate_digest :: "('pk, 's) runtime \<Rightarrow> 's certificate \<Rightarrow> digest" where
  "certificate_digest E c =
     hash32 E (digest_bytes (cert_id c) @ u64_to_le_bytes (cert_round c) @ key_bytes (cert_origin c))"

text \<open>The shift amount of \<^verbatim>\<open>1 << idx\<close> on \<^verbatim>\<open>u128\<close> is taken modulo 128.\<close>

definition certificate_ids :: "u128 \<Rightarrow> usize \<Rightarrow> nat list" where
  "certificate_ids bits n = filter (\<lambda>idx. bits AND push_bit (idx mod 128) 1 \<noteq> 0) [0..<n]"

definition certificate_verify ::
  "('pk::ab_group_add, 's) runtime \<Rightarrow> 'pk committee \<Rightarrow> 's certificate \<Rightarrow> (dag_error, unit) res" where
  "certificate_verify E C c =
     (let ids = certificate_ids (fst (cert_votes c)) (committee_size C) in
      bind_r (combine_key_from_ids ids (sorted_keys C)) (\<lambda>agg_pk.
        map_err (\<lambda>_. DagInvalidBlsSignature)
          (verify_batch E (digest_bytes (certificate_digest E c)) agg_pk (snd (cert_votes c)))))"

text \<open>\<^verbatim>\<open>impl PartialEq for Certificate\<close>: the votes are not compared.\<close>

definition certificate_eq :: "'s certificate \<Rightarrow> 's certificate \<Rightarrow> bool" where
  "certificate_eq a b \<longleftrightarrow> cert_id a = cert_id b \<and> cert_round a = cert_round b \<and> cert_origin a = cert_origin b"

lemma certificate_eq_refl [simp]: "certificate_eq c c"
  by (simp add: certificate_eq_def)

lemma header_new_digest:
  "header_digest E bcs (header_new E bcs a r p) = h_id (header_new E bcs a r p)"
  by (simp add: header_new_def header_digest_def Let_def)

lemma pvote_certificate_digest:
  "pv_id v = cert_id c \<Longrightarrow> pv_round v = cert_round c \<Longrightarrow> pv_origin v = cert_origin c \<Longrightarrow>
   pvote_digest E v = certificate_digest E c"
  by (simp add: pvote_digest_def certificate_digest_def)

text \<open>A certificate without a single vote makes verification index an empty vector.\<close>

lemma certificate_verify_no_votes:
  assumes "fst (cert_votes c) = 0"
  shows "certificate_verify E C c = Panic ''index out of bounds''"
  using assms
  by (simp add: certificate_verify_def certificate_ids_def combine_key_from_ids_def Let_def)

end
