(* ===== verification/Messages.thy ===== *)
theory Messages
  imports Primary_Messages
begin

text \<open>
  The consensus messages (src/hydrangea/src/messages.rs, error.rs and the message enums
  of consensus.rs): blocks, proposals, votes, quorum certificates (QC), weak quorum
  certificates (WQC), timeouts and timeout certificates (TC), their digests and their
  \<^verbatim>\<open>is_well_formed\<close> checks. The display functions are not modelled.
\<close>

type_synonym round = u64

datatype vote_type = Commit | Normal

datatype proposal_type = FallbackProposal | NormalProposalType

record 's block =
  b_author :: public_key
  b_parent :: digest
  b_payload :: "'s certificate list"
  b_round :: round
  b_signature :: signature

record 's vote =
  v_author :: public_key
  v_blk_hash :: digest
  v_kind :: vote_type
  v_round :: round
  v_signature :: 's

record 's qc =
  qc_blk_hash :: digest
  qc_kind :: vote_type
  qc_round :: round
  qc_votes :: "u128 list \<times> 's"
  qc_fast_quorum :: bool

record 's wqc =
  wqc_blk_hash :: digest
  wqc_round :: round
  wqc_votes :: "u128 list \<times> 's"

record 's timeout =
  t_high_vote :: "'s vote"
  t_high_qc :: "'s qc"
  t_high_wqc :: "'s wqc"
  t_round :: round
  t_author :: public_key
  t_signature :: signature

record 's tc =
  tc_high_qc :: "'s qc"
  tc_high_wqc :: "'s wqc"
  tc_round :: round
  tc_votes :: "(public_key \<times> signature \<times> round) list"

record 's normal_proposal =
  np_block :: "'s block"
  np_qc :: "'s qc"

record 's fallback_recovery_proposal =
  fp_block :: "'s block"
  fp_tc :: "'s tc"

datatype 's proposal_message =
  PropF "'s fallback_recovery_proposal"
| PropN "'s normal_proposal"

datatype 's consensus_message =
  Propose "'s proposal_message"
| VoteMsg "'s vote"
| VerifiedVoteMsg "'s vote"
| TimeoutMsg "'s timeout"
| QCMsg "'s qc"
| TCMsg "'s tc"
| SyncRequest digest public_key
| SyncResponse "'s block"

datatype 's consensus_error =
  NetworkError | SerializationError | StoreError | CNotInCommittee public_key
| InvalidSignature | InvalidBlsSign | AuthorityReuse public_key | UnknownAuthority public_key
| QCRequiresQuorum round | TimeoutBadQC round round | TCBadQC round round | TCRequiresQuorum
| TCInvalidHighQC "'s qc" | MalformedBlock digest | MalformedNormalProposal digest
| FallbackRecoveryBadParent digest | FallbackRecoveryBadQcPrime digest round round
| BlockBadJustification digest round | BlockBadQC digest round round
| BlockBadTC digest round round | WrongLeader digest public_key round | InvalidPayload
| TooOld digest round | DagErr dag_error

section \<open>Blocks\<close>

definition block_digest :: "('pk, 's) runtime \<Rightarrow> 's block \<Rightarrow> digest" where
  "block_digest E b =
     hash32 E (key_bytes (b_author b) @ digest_bytes (b_parent b) @ u64_to_le_bytes (b_round b) @
       concat (map (\<lambda>x. digest_bytes (cert_id x)) (b_payload b)))"

definition block_genesis :: "'s block" where
  "block_genesis = \<lparr>b_author = public_key_default, b_parent = digest_default, b_payload = [],
     b_round = 0, b_signature = signature_default\<rparr>"

definition block_new ::
  "('pk, 's) runtime \<Rightarrow> public_key \<Rightarrow> digest \<Rightarrow> 's certificate list \<Rightarrow> round \<Rightarrow> 's block" where
  "block_new E author parent payload round =
     (let b = \<lparr>b_author = author, b_parent = parent, b_payload = payload, b_round = round,
               b_signature = signature_default\<rparr>
      in b\<lparr>b_signature := signature_new E (block_digest E b)\<rparr>)"

definition block_is_well_formed ::
  "('pk, 's) runtime \<Rightarrow> 'pk committee \<Rightarrow> 's block \<Rightarrow> ('s consensus_error, unit) res" where
  "block_is_well_formed E C b =
     (if block_digest E b \<noteq> block_digest E block_genesis then
        bind_r (ensure (0 < stake_of C (b_author b)) (UnknownAuthority (b_author b))) (\<lambda>_.
          map_err (\<lambda>_. InvalidSignature)
            (signature_verify E (b_signature b) (block_digest E b) (b_author b)))
      else Ok ())"

section \<open>Votes and certificates\<close>

definition vote_type_digest :: "('pk, 's) runtime \<Rightarrow> vote_type \<Rightarrow> digest" where
  "vote_type_digest E k = hash32 E (case k of Commit \<Rightarrow> [67] | Normal \<Rightarrow> [78, 86])"

definition proposal_type_digest :: "('pk, 's) runtime \<Rightarrow> proposal_type \<Rightarrow> digest" where
  "proposal_type_digest E k =
     hash32 E (case k of FallbackProposal \<Rightarrow> [70, 97, 108, 108, 98, 97, 99, 107]
                       | NormalProposalType \<Rightarrow> [78, 111, 114, 109, 97, 108])"

definition vote_digest :: "('pk, 's) runtime \<Rightarrow> 's vote \<Rightarrow> digest" where
  "vote_digest E v =
     hash32 E (digest_bytes (v_blk_hash v) @ digest_bytes (vote_type_digest E (v_kind v)) @
       u64_to_le_bytes (v_round v))"

definition vote_new ::
  "('pk, 's) runtime \<Rightarrow> public_key \<Rightarrow> digest \<Rightarrow> vote_type \<Rightarrow> round \<Rightarrow> 's vote" where
  "vote_new E author blk_hash kind round =
     (let vote = \<lparr>v_author = author, v_blk_hash = blk_hash, v_kind = kind, v_round = round,
                  v_signature = bls_default E\<rparr>
      in vote\<lparr>v_signature := bls_sign E (digest_bytes (vote_digest E vote))\<rparr>)"

definition vote_is_well_formed :: "'pk committee \<Rightarrow> 's vote \<Rightarrow> ('s consensus_error, unit) res" where
  "vote_is_well_formed C v = ensure (0 < stake_of C (v_author v)) (UnknownAuthority (v_author v))"

definition qc_digest :: "('pk, 's) runtime \<Rightarrow> 's qc \<Rightarrow> digest" where
  "qc_digest E q =
     hash32 E (digest_bytes (qc_blk_hash q) @ digest_bytes (vote_type_digest E (qc_kind q)) @
       u64_to_le_bytes (qc_round q))"

definition qc_genesis :: "('pk, 's) runtime \<Rightarrow> 's qc" where
  "qc_genesis E = \<lparr>qc_blk_hash = block_digest E block_genesis, qc_kind = Commit, qc_round = 0,
     qc_votes = ([], bls_default E), qc_fast_quorum = False\<rparr>"

text \<open>
  The loop over \<^verbatim>\<open>0..committee.size()\<close> that collects the indices whose bit is
  set in the vector of 128-bit chunks; a chunk that is not there is an index out of
  range.
\<close>

fun scan_bits :: "u128 list \<Rightarrow> nat list \<Rightarrow> ('e, nat list) res" where
  "scan_bits votes [] = Ok []"
| "scan_bits votes (idx # rest) =
     (case nth_opt votes (idx div 128) of
        None \<Rightarrow> Panic ''index out of bounds''
      | Some chunk \<Rightarrow>
          bind_r (scan_bits votes rest) (\<lambda>ids.
            Ok (if chunk AND push_bit (idx - idx div 128 * 128) 1 \<noteq> 0 then idx # ids else ids)))"

definition missing_ids :: "'pk committee \<Rightarrow> u128 list \<Rightarrow> ('e, nat list) res" where
  "missing_ids C votes = scan_bits votes [0..<committee_size C]"

definition qc_is_well_formed ::
  "('pk::ab_group_add, 's) runtime \<Rightarrow> 'pk committee \<Rightarrow> 's qc \<Rightarrow> ('s consensus_error, unit) res" where
  "qc_is_well_formed E C q =
     (if qc_round q = 0 then Ok ()
      else bind_r (missing_ids C (fst (qc_votes q))) (\<lambda>ids.
           bind_r (remove_pubkeys (combined_pubkey C) ids (sorted_keys C)) (\<lambda>agg_pk.
             map_err (\<lambda>_. InvalidBlsSign)
               (verify_batch E (digest_bytes (qc_digest E q)) agg_pk (snd (qc_votes q))))))"

text \<open>\<^verbatim>\<open>impl PartialEq for QC\<close>.\<close>

definition qc_eq :: "'s qc \<Rightarrow> 's qc \<Rightarrow> bool" where
  "qc_eq a b \<longleftrightarrow> qc_kind a = qc_kind b \<and> qc_blk_hash a = qc_blk_hash b \<and> qc_round a = qc_round b"

definition wqc_genesis :: "('pk, 's) runtime \<Rightarrow> 's wqc" where
  "wqc_genesis E = \<lparr>wqc_blk_hash = block_digest E block_genesis, wqc_round = 0,
     wqc_votes = ([], bls_default E)\<rparr>"

definition wqc_digest :: "('pk, 's) runtime \<Rightarrow> 's wqc \<Rightarrow> digest" where
  "wqc_digest E w = hash32 E (digest_bytes (wqc_blk_hash w) @ u64_to_le_bytes (wqc_round w))"

definition wqc_is_well_formed ::
  "('pk::ab_group_add, 's) runtime \<Rightarrow> 'pk committee \<Rightarrow> 'pk list \<Rightarrow> 'pk \<Rightarrow> 's wqc \<Rightarrow>
   ('s consensus_error, unit) res" where
  "wqc_is_well_formed E C keys combined_key w =
     (if wqc_round w = 0 then Ok ()
      else bind_r (missing_ids C (fst (wqc_votes w))) (\<lambda>ids.
           bind_r (remove_pubkeys combined_key ids keys) (\<lambda>agg_pk.
             map_err (\<lambda>_. InvalidBlsSign)
               (verify_batch E (digest_bytes (wqc_digest E w)) agg_pk (snd (wqc_votes w))))))"

definition wqc_eq :: "'s wqc \<Rightarrow> 's wqc \<Rightarrow> bool" where
  "wqc_eq a b \<longleftrightarrow> wqc_blk_hash a = wqc_blk_hash b \<and> wqc_round a = wqc_round b"

section \<open>Timeouts and timeout certificates\<close>

text \<open>The signed bytes cover the round of the reported QC and the round of the timeout.\<close>

definition timeout_bytes_digest :: "('pk, 's) runtime \<Rightarrow> round \<Rightarrow> round \<Rightarrow> digest" where
  "timeout_bytes_digest E high_qc_round round =
     hash32 E (u64_to_le_bytes high_qc_round @ u64_to_le_bytes round)"

definition timeout_digest :: "('pk, 's) runtime \<Rightarrow> 's timeout \<Rightarrow> digest" where
  "timeout_digest E t = timeout_bytes_digest E (qc_round (t_high_qc t)) (t_round t)"

definition timeout_new ::
  "('pk, 's) runtime \<Rightarrow> 's vote \<Rightarrow> 's qc \<Rightarrow> 's wqc \<Rightarrow> round \<Rightarrow> public_key \<Rightarrow> 's timeout" where
  "timeout_new E high_vote high_qc high_wqc round author =
     (let t = \<lparr>t_high_vote = high_vote, t_high_qc = high_qc, t_high_wqc = high_wqc,
               t_round = round, t_author = author, t_signature = signature_default\<rparr>
      in t\<lparr>t_signature := signature_new E (timeout_digest E t)\<rparr>)"

definition author_is_authorised :: "'pk committee \<Rightarrow> 's timeout \<Rightarrow> ('s consensus_error, bool) res" where
  "author_is_authorised C t =
     bind_r (ensure (0 < stake_of C (t_author t)) (UnknownAuthority (t_author t))) (\<lambda>_. Ok True)"

definition timeout_is_well_formed ::
  "('pk::ab_group_add, 's) runtime \<Rightarrow> 'pk committee \<Rightarrow> 's timeout \<Rightarrow> ('s consensus_error, unit) res" where
  "timeout_is_well_formed E C t =
     bind_r (author_is_authorised C t) (\<lambda>_.
     bind_r (map_err (\<lambda>_. InvalidSignature)
         (signature_verify E (t_signature t) (timeout_digest E t) (t_author t))) (\<lambda>_.
       if \<not> qc_eq (t_high_qc t) (qc_genesis E) then qc_is_well_formed E C (t_high_qc t) else Ok ()))"

fun tc_scan ::
  "'pk committee \<Rightarrow> 's qc \<Rightarrow> (public_key \<times> signature \<times> round) list \<Rightarrow> stake \<Rightarrow> public_key set \<Rightarrow>
   ('s consensus_error, stake) res" where
  "tc_scan C high_qc [] weight used = Ok weight"
| "tc_scan C high_qc ((name, _, locked_qc_round) # votes) weight used =
     bind_r (ensure (locked_qc_round \<le> qc_round high_qc) (TCInvalidHighQC high_qc)) (\<lambda>_.
     bind_r (ensure (name \<notin> used) (AuthorityReuse name)) (\<lambda>_.
     bind_r (ensure (0 < stake_of C name) (UnknownAuthority name)) (\<lambda>_.
       tc_scan C high_qc votes (add32 weight (stake_of C name)) (insert name used))))"

fun tc_check_signatures ::
  "('pk, 's) runtime \<Rightarrow> round \<Rightarrow> (public_key \<times> signature \<times> round) list \<Rightarrow> ('s consensus_error, unit) res" where
  "tc_check_signatures E round [] = Ok ()"
| "tc_check_signatures E round ((author, sg, locked_qc_round) # votes) =
     bind_r (map_err (\<lambda>_. InvalidSignature)
         (signature_verify E sg (timeout_bytes_digest E locked_qc_round round) author)) (\<lambda>_.
       tc_check_signatures E round votes)"

definition tc_is_well_formed ::
  "('pk, 's) runtime \<Rightarrow> 'pk committee \<Rightarrow> 's tc \<Rightarrow> ('s consensus_error, unit) res" where
  "tc_is_well_formed E C tc =
     bind_r (tc_scan C (tc_high_qc tc) (tc_votes tc) 0 {}) (\<lambda>weight.
     bind_r (ensure (quorum_threshold C \<le> weight) TCRequiresQuorum) (\<lambda>_.
       tc_check_signatures E (tc_round tc) (tc_votes tc)))"

definition locked_rounds :: "'s tc \<Rightarrow> round list" where
  "locked_rounds tc = map (\<lambda>(_, _, locked_round). locked_round) (tc_votes tc)"

definition tc_digest :: "('pk, 's) runtime \<Rightarrow> 's tc \<Rightarrow> digest" where
  "tc_digest E tc =
     hash32 E (u64_to_le_bytes (tc_round tc) @ digest_bytes (qc_digest E (tc_high_qc tc)) @
       digest_bytes (wqc_digest E (tc_high_wqc tc)) @
       concat (map u64_to_be_bytes (locked_rounds tc)))"

section \<open>Proposals\<close>

definition np_digest :: "('pk, 's) runtime \<Rightarrow> 's normal_proposal \<Rightarrow> digest" where
  "np_digest E p = hash32 E (digest_bytes (block_digest E (np_block p)) @ digest_bytes (qc_digest E (np_qc p)))"

definition fp_digest :: "('pk, 's) runtime \<Rightarrow> 's fallback_recovery_proposal \<Rightarrow> digest" where
  "fp_digest E p = hash32 E (digest_bytes (block_digest E (fp_block p)) @ digest_bytes (tc_digest E (fp_tc p)))"

definition np_is_well_formed ::
  "('pk, 's) runtime \<Rightarrow> 'pk committee \<Rightarrow> 's normal_proposal \<Rightarrow> ('s consensus_error, unit) res" where
  "np_is_well_formed E C p =
     bind_r (block_is_well_formed E C (np_block p)) (\<lambda>_.
       ensure (qc_blk_hash (np_qc p) = b_parent (np_block p) \<and>
               qc_round (np_qc p) = sub64 (b_round (np_block p)) 1)
         (MalformedNormalProposal (np_digest E p)))"

text \<open>The choice between the two certificates of a TC, shared with the proposer.\<close>

definition safe_blk_hash :: "'s tc \<Rightarrow> digest" where
  "safe_blk_hash tc =
     (if wqc_round (tc_high_wqc tc) > qc_round (tc_high_qc tc)
      then wqc_blk_hash (tc_high_wqc tc) else qc_blk_hash (tc_high_qc tc))"

definition fp_is_well_formed ::
  "('pk, 's) runtime \<Rightarrow> 'pk committee \<Rightarrow> 's fallback_recovery_proposal \<Rightarrow> ('s consensus_error, unit) res" where
  "fp_is_well_formed E C p =
     bind_r (block_is_well_formed E C (fp_block p)) (\<lambda>_.
     bind_r (ensure (tc_round (fp_tc p) = sub64 (b_round (fp_block p)) 1)
         (BlockBadTC (fp_digest E p) (b_round (fp_block p)) (tc_round (fp_tc p)))) (\<lambda>_.
       ensure (b_parent (fp_block p) = safe_blk_hash (fp_tc p))
         (FallbackRecoveryBadParent (block_digest E (fp_block p)))))"

section \<open>What the checks accept\<close>

lemma chunk_offset: "idx - idx div 128 * 128 = idx mod (128 :: nat)"
  by (simp add: minus_div_mult_eq_mod)

lemma scan_bits_filter:
  assumes "\<forall>i \<in> set is. i div 128 < length votes"
  shows "scan_bits votes is = Ok (filter (\<lambda>i. bit (votes ! (i div 128)) (i mod 128)) is)"
  using assms
  by (induction "is") (simp_all add: nth_opt_def and_exp_eq_0_iff_not_bit chunk_offset)

lemma missing_ids_filter:
  assumes "committee_size C \<le> 128 * length votes"
  shows "missing_ids C votes =
    Ok (filter (\<lambda>i. bit (votes ! (i div 128)) (i mod 128)) [0..<committee_size C])"
  unfolding missing_ids_def using assms by (intro scan_bits_filter) auto

text \<open>A bit vector that is too short for the committee is an index out of range.\<close>

lemma scan_bits_short:
  "\<exists>i \<in> set is. length votes \<le> i div 128 \<Longrightarrow> scan_bits votes is = Panic ''index out of bounds''"
proof (induction "is")
  case Nil
  then show ?case by simp
next
  case (Cons j js)
  show ?case
  proof (cases "length votes \<le> j div 128")
    case True
    then show ?thesis by (simp add: nth_opt_def)
  next
    case False
    with Cons show ?thesis by (simp add: nth_opt_def)
  qed
qed

lemma missing_ids_short:
  assumes "128 * length votes < committee_size C"
  shows "missing_ids C votes = Panic ''index out of bounds''"
  unfolding missing_ids_def
  using assms by (intro scan_bits_short bexI [of _ "128 * length votes"]) auto

lemma vote_qc_digest:
  "v_blk_hash v = qc_blk_hash q \<Longrightarrow> v_kind v = qc_kind q \<Longrightarrow> v_round v = qc_round q \<Longrightarrow>
   vote_digest E v = qc_digest E q"
  by (simp add: vote_digest_def qc_digest_def)

lemma vote_new_simps [simp]:
  "v_author (vote_new E a d k r) = a" "v_blk_hash (vote_new E a d k r) = d"
  "v_kind (vote_new E a d k r) = k" "v_round (vote_new E a d k r) = r"
  by (simp_all add: vote_new_def Let_def)

lemma timeout_new_simps [simp]:
  "t_high_vote (timeout_new E v q w r a) = v" "t_high_qc (timeout_new E v q w r a) = q"
  "t_high_wqc (timeout_new E v q w r a) = w" "t_round (timeout_new E v q w r a) = r"
  "t_author (timeout_new E v q w r a) = a"
  by (simp_all add: timeout_new_def Let_def)

lemma block_new_simps [simp]:
  "b_author (block_new E a p pl r) = a" "b_parent (block_new E a p pl r) = p"
  "b_payload (block_new E a p pl r) = pl" "b_round (block_new E a p pl r) = r"
  by (simp_all add: block_new_def Let_def)

lemma block_digest_signature [simp]:
  "block_digest E (b\<lparr>b_signature := sg\<rparr>) = block_digest E b"
  by (simp add: block_digest_def)

lemma block_genesis_simps [simp]: "b_round block_genesis = 0" "b_parent block_genesis = digest_default"
  by (simp_all add: block_genesis_def)

lemma qc_genesis_simps [simp]:
  "qc_round (qc_genesis E) = 0" "qc_blk_hash (qc_genesis E) = block_digest E block_genesis"
  "qc_kind (qc_genesis E) = Commit" "qc_fast_quorum (qc_genesis E) = False"
  by (simp_all add: qc_genesis_def)

lemma wqc_genesis_simps [simp]:
  "wqc_round (wqc_genesis E) = 0" "wqc_blk_hash (wqc_genesis E) = block_digest E block_genesis"
  by (simp_all add: wqc_genesis_def)

lemma tc_scan_Ok:
  "tc_scan C hq votes w used = Ok w' \<Longrightarrow>
     distinct (map fst votes) \<and> set (map fst votes) \<inter> used = {} \<and>
     (\<forall>v \<in> set votes. 0 < stake_of C (fst v) \<and> snd (snd v) \<le> qc_round hq) \<and>
     w' mod 2 ^ 32 = (w + (\<Sum>v\<leftarrow>votes. stake_of C (fst v))) mod 2 ^ 32"
proof (induction votes arbitrary: w used)
  case Nil
  then show ?case by simp
next
  case (Cons v votes)
  obtain name sg r where v: "v = (name, sg, r)" by (cases v)
  from Cons.prems v have
    h: "r \<le> qc_round hq" "name \<notin> used" "0 < stake_of C name" and
    rest: "tc_scan C hq votes (add32 w (stake_of C name)) (insert name used) = Ok w'"
    by (auto simp: bind_r_Ok_iff)
  from Cons.IH [OF rest] h v show ?case
    by (auto simp: add32_def mod_add_left_eq add.assoc)
qed

lemma tc_scan_complete:
  assumes "distinct (map fst votes)" "set (map fst votes) \<inter> used = {}"
    "\<forall>v \<in> set votes. 0 < stake_of C (fst v) \<and> snd (snd v) \<le> qc_round hq"
    "w + (\<Sum>v\<leftarrow>votes. stake_of C (fst v)) < 2 ^ 32"
  shows "tc_scan C hq votes w used = Ok (w + (\<Sum>v\<leftarrow>votes. stake_of C (fst v)))"
  using assms
proof (induction votes arbitrary: w used)
  case Nil
  then show ?case by simp
next
  case (Cons v votes)
  obtain name sg r where v: "v = (name, sg, r)" by (cases v)
  have "tc_scan C hq votes (w + stake_of C name) (insert name used) =
      Ok (w + stake_of C name + (\<Sum>v\<leftarrow>votes. stake_of C (fst v)))"
    using Cons.prems v by (intro Cons.IH) auto
  with Cons.prems v show ?case by (simp add: add.assoc)
qed

end
