(* ===== verification/Aggregator.thy ===== *)
theory Aggregator
  imports Messages
begin

text \<open>
  Vote aggregation (src/hydrangea/src/aggregator.rs): \<^verbatim>\<open>QCMaker\<close> collects
  votes for one block (or, for commit votes, one round), \<^verbatim>\<open>TCMaker\<close> the
  timeouts of one round, and \<^verbatim>\<open>Aggregator\<close> holds the makers by round. The
  methods take \<^verbatim>\<open>&mut self\<close>, so they are handlers over the maker's state.
\<close>

section \<open>QCMaker\<close>

record ('pk, 's) qc_maker =
  qm_used :: "public_key set"
  qm_votes :: "('pk \<times> 's) list"
  qm_weight :: stake
  qm_agg_sign :: 's
  qm_pk_bit_vec :: "u128 list"
  qm_is_qc_formed :: bool

definition qc_maker_new :: "('pk, 's) runtime \<Rightarrow> usize \<Rightarrow> ('pk, 's) qc_maker" where
  "qc_maker_new E total_nodes = \<lparr>qm_used = {}, qm_votes = [], qm_weight = 0,
     qm_agg_sign = bls_default E, qm_pk_bit_vec = replicate ((total_nodes + 127) div 128) (- 1),
     qm_is_qc_formed = False\<rparr>"

definition qcm_is_valid :: "('pk, 's) qc_maker \<Rightarrow> 's vote \<Rightarrow> bool" where
  "qcm_is_valid m vote \<longleftrightarrow> v_author vote \<notin> qm_used m"

text \<open>\<^verbatim>\<open>pk_bit_vec[chunk] &= !(1 << bit)\<close>.\<close>

definition clear_bit_at :: "u128 list \<Rightarrow> nat \<Rightarrow> ('e, u128 list) res" where
  "clear_bit_at bits i =
     (case nth_opt bits (i div 128) of
        None \<Rightarrow> Panic ''index out of bounds''
      | Some chunk \<Rightarrow> Ok (bits[i div 128 := chunk AND NOT (push_bit (i mod 128) 1)]))"

definition sorted_key_id :: "'pk::linorder committee \<Rightarrow> 'pk \<Rightarrow> ('e, nat) res" where
  "sorted_key_id C key =
     expect ''called Result::unwrap() on an Err value'' (binary_search (sorted_keys C) key)"

text \<open>Checking the aggregate and building the certificate; both quorum branches end like this.\<close>

definition qcm_seal ::
  "('pk::ab_group_add, 's) runtime \<Rightarrow> 'pk committee \<Rightarrow> 's vote \<Rightarrow> bool \<Rightarrow>
   (('pk, 's) qc_maker, 's consensus_error, 's qc option) handler" where
  "qcm_seal E C vote fast =
     bind_m (gets_m qm_pk_bit_vec) (\<lambda>bits.
     bind_m (gets_m qm_agg_sign) (\<lambda>agg_sign.
     bind_m (lift_m (missing_ids C bits)) (\<lambda>ids.
     bind_m (lift_m (remove_pubkeys (combined_pubkey C) ids (sorted_keys C))) (\<lambda>agg_pk.
     then_m (lift_m (map_err (\<lambda>_. InvalidBlsSign)
       (verify_batch E (digest_bytes (vote_digest E vote)) agg_pk agg_sign)))
     (ret (Some \<lparr>qc_blk_hash = v_blk_hash vote, qc_kind = v_kind vote, qc_round = v_round vote,
                 qc_votes = (bits, agg_sign), qc_fast_quorum = fast\<rparr>))))))"

text \<open>The part of \<^verbatim>\<open>append\<close> under \<^verbatim>\<open>if !self.is_qc_formed\<close>.\<close>

definition qcm_count ::
  "('pk::{linorder, ab_group_add}, 's::ab_group_add) runtime \<Rightarrow> 'pk committee \<Rightarrow> 's vote \<Rightarrow> 'pk \<Rightarrow> bool \<Rightarrow>
   (('pk, 's) qc_maker, 's consensus_error, 's qc option) handler" where
  "qcm_count E C vote author_bls_g2 check_fast_threshold =
     bind_m (lift_m (sorted_key_id C author_bls_g2)) (\<lambda>i.
     bind_m (gets_m qm_pk_bit_vec) (\<lambda>bits.
     bind_m (lift_m (clear_bit_at bits i)) (\<lambda>bits'.
     then_m (modify_m (\<lambda>m. m\<lparr>qm_pk_bit_vec := bits'\<rparr>)) (
     then_m (modify_m (\<lambda>m. if length (qm_votes m) = 1
                           then m\<lparr>qm_agg_sign := v_signature vote\<rparr>
                           else if 2 \<le> length (qm_votes m)
                           then m\<lparr>qm_agg_sign := aggregate_sign (qm_agg_sign m) (v_signature vote)\<rparr>
                           else m)) (
     then_m (modify_m (\<lambda>m. m\<lparr>qm_weight := add32 (qm_weight m) (stake_of C (v_author vote))\<rparr>)) (
     bind_m (gets_m qm_weight) (\<lambda>weight.
     if v_kind vote = Normal \<and> weight = quorum_threshold C \<or>
        v_kind vote = Commit \<and> weight = slow_commit_threshold C then
       then_m (when_m (\<not> check_fast_threshold) (modify_m (\<lambda>m. m\<lparr>qm_is_qc_formed := True\<rparr>)))
         (qcm_seal E C vote False)
     else if v_kind vote = Normal \<and> weight = fast_commit_quorum_threshold C then
       then_m (modify_m (\<lambda>m. m\<lparr>qm_weight := 0, qm_is_qc_formed := True\<rparr>))
         (qcm_seal E C vote True)
     else ret None)))))))"

definition qcm_append ::
  "('pk::{linorder, ab_group_add}, 's::ab_group_add) runtime \<Rightarrow> 'pk committee \<Rightarrow> 's vote \<Rightarrow> bool \<Rightarrow>
   (('pk, 's) qc_maker, 's consensus_error, 's qc option) handler" where
  "qcm_append E C vote check_fast_threshold =
     bind_m (lift_m (get_bls_public_g2 C (v_author vote))) (\<lambda>author_bls_g2.
     bind_m (gets_m (\<lambda>m. qcm_is_valid m vote)) (\<lambda>valid.
     if valid then
       then_m (lift_m (vote_is_well_formed C vote)) (
       then_m (modify_m (\<lambda>m. m\<lparr>qm_used := insert (v_author vote) (qm_used m),
                               qm_votes := qm_votes m @ [(author_bls_g2, v_signature vote)]\<rparr>)) (
       bind_m (gets_m qm_is_qc_formed) (\<lambda>formed.
         if \<not> formed then qcm_count E C vote author_bls_g2 check_fast_threshold else ret None)))
     else ret None))"

section \<open>TCMaker\<close>

record 's tc_maker =
  tm_high_qc :: "'s qc"
  tm_high_wqc :: "'s wqc"
  tm_used :: "public_key set"
  tm_votes :: "(public_key \<times> signature \<times> round) list"
  tm_high_votes :: "'s vote list"
  tm_weight :: stake

definition tc_maker_new :: "('pk, 's) runtime \<Rightarrow> 's tc_maker" where
  "tc_maker_new E = \<lparr>tm_high_qc = qc_genesis E, tm_high_wqc = wqc_genesis E, tm_used = {},
     tm_votes = [], tm_high_votes = [], tm_weight = 0\<rparr>"

text \<open>The loop of \<^verbatim>\<open>check_wqc\<close> over the votes of one round.\<close>

fun wqc_fold ::
  "'pk::linorder committee \<Rightarrow> 's::ab_group_add vote list \<Rightarrow> bool \<Rightarrow> 's \<Rightarrow> u128 list \<Rightarrow> nat list \<Rightarrow>
   ('e, 's \<times> u128 list \<times> nat list) res" where
  "wqc_fold C [] first agg bits ids = Ok (agg, bits, ids)"
| "wqc_fold C (vote # votes) first agg bits ids =
     bind_r (get_bls_public_g2 C (v_author vote)) (\<lambda>key.
     bind_r (sorted_key_id C key) (\<lambda>i.
     bind_r (clear_bit_at bits i) (\<lambda>bits'.
       wqc_fold C votes False (if first then agg else aggregate_sign agg (v_signature vote))
         bits' (ids @ [i]))))"

text \<open>
  \<^verbatim>\<open>freq_map.into_iter().find(..)\<close>: the first round, in the iteration order of
  the hash map, whose bucket is large enough.
\<close>

definition frequent_round :: "('pk, 's) runtime \<Rightarrow> 'pk committee \<Rightarrow> 's vote list \<Rightarrow> round option" where
  "frequent_round E C votes =
     find (\<lambda>r. add32 (add32 (cm_f C) (cm_p C)) 1 \<le> length (filter (\<lambda>v. v_round v = r) votes))
       (hash_order E (remdups (map v_round votes)))"

definition check_wqc ::
  "('pk::{linorder, ab_group_add}, 's::ab_group_add) runtime \<Rightarrow> 'pk committee \<Rightarrow> 's tc_maker \<Rightarrow>
   ('s consensus_error, 's wqc option) res" where
  "check_wqc E C m =
     (case frequent_round E C (tm_high_votes m) of
        None \<Rightarrow> Ok None
      | Some r \<Rightarrow>
          (case filter (\<lambda>v. v_round v = r) (tm_high_votes m) of
             [] \<Rightarrow> Panic ''index out of bounds''
           | first_vote # rest \<Rightarrow>
               bind_r (wqc_fold C (first_vote # rest) True (v_signature first_vote)
                   (replicate ((cm_n C + 127) div 128) (- 1)) []) (\<lambda>(agg_sign, bits, ids).
               bind_r (combine_key_from_ids ids (sorted_keys C)) (\<lambda>agg_pk.
                 case verify_batch E (digest_bytes (vote_digest E (last (first_vote # rest)))) agg_pk agg_sign of
                   Ok _ \<Rightarrow> Ok (Some \<lparr>wqc_blk_hash = v_blk_hash first_vote,
                                wqc_round = v_round first_vote, wqc_votes = (bits, agg_sign)\<rparr>)
                 | _ \<Rightarrow> Ok None))))"

definition tcm_append ::
  "('pk::{linorder, ab_group_add}, 's::ab_group_add) runtime \<Rightarrow> 'pk committee \<Rightarrow> 's timeout \<Rightarrow>
   ('s tc_maker, 's consensus_error, stake \<times> 's tc option) handler" where
  "tcm_append E C timeout =
     bind_m (gets_m (\<lambda>m. t_author timeout \<notin> tm_used m)) (\<lambda>fresh.
     if fresh then
       then_m (lift_m (timeout_is_well_formed E C timeout)) (
       then_m (modify_m (\<lambda>m. m\<lparr>tm_used := insert (t_author timeout) (tm_used m),
           tm_votes := tm_votes m @ [(t_author timeout, t_signature timeout, qc_round (t_high_qc timeout))],
           tm_high_votes := tm_high_votes m @ [t_high_vote timeout],
           tm_weight := add32 (tm_weight m) (stake_of C (t_author timeout))\<rparr>)) (
       then_m (modify_m (\<lambda>m. if qc_round (t_high_qc timeout) > qc_round (tm_high_qc m)
                             then m\<lparr>tm_high_qc := t_high_qc timeout\<rparr> else m)) (
       then_m (modify_m (\<lambda>m. if wqc_round (t_high_wqc timeout) > wqc_round (tm_high_wqc m)
                             then m\<lparr>tm_high_wqc := t_high_wqc timeout\<rparr> else m)) (
       bind_m (gets_m tm_weight) (\<lambda>weight.
       if view_change_threshold C \<le> weight then
         bind_m (gets_m id) (\<lambda>m.
         bind_m (lift_m (check_wqc E C m)) (\<lambda>maybe_wqc.
         then_m (case maybe_wqc of
                   None \<Rightarrow> ret ()
                 | Some w \<Rightarrow> modify_m (\<lambda>m. if wqc_round w > wqc_round (tm_high_wqc m)
                                            then m\<lparr>tm_high_wqc := w\<rparr> else m))
           (gets_m (\<lambda>m. (tm_weight m,
              Some \<lparr>tc_high_qc = tm_high_qc m, tc_high_wqc = tm_high_wqc m,
                    tc_round = t_round timeout, tc_votes = tm_votes m\<rparr>)))))
       else ret (weight, None))))))
     else bind_m (gets_m tm_weight) (\<lambda>weight. ret (weight, None)))"

section \<open>Aggregator\<close>

record ('pk, 's) aggregator =
  ag_committee :: "'pk committee"
  votes_aggregators :: "round \<rightharpoonup> (digest \<rightharpoonup> ('pk, 's) qc_maker)"
  commit_aggregators :: "round \<rightharpoonup> ('pk, 's) qc_maker"
  timeouts_aggregators :: "round \<rightharpoonup> 's tc_maker"

definition aggregator_new :: "'pk committee \<Rightarrow> ('pk, 's) aggregator" where
  "aggregator_new C = \<lparr>ag_committee = C, votes_aggregators = Map.empty,
     commit_aggregators = Map.empty, timeouts_aggregators = Map.empty\<rparr>"

text \<open>\<^verbatim>\<open>entry(k).or_insert_with(f)\<close>.\<close>

definition or_insert :: "'v \<Rightarrow> 'v option \<Rightarrow> 'v" where
  "or_insert d x = (case x of None \<Rightarrow> d | Some v \<Rightarrow> v)"

definition add_normal_vote ::
  "('pk::{linorder, ab_group_add}, 's::ab_group_add) runtime \<Rightarrow> 's vote \<Rightarrow>
   (('pk, 's) aggregator, 's consensus_error, 's qc option) handler" where
  "add_normal_vote E vote = (\<lambda>A.
     let per_round = or_insert Map.empty (votes_aggregators A (v_round vote));
         maker = or_insert (qc_maker_new E (cm_n (ag_committee A))) (per_round (v_blk_hash vote));
         (r, maker') = qcm_append E (ag_committee A) vote True maker
     in (r, A\<lparr>votes_aggregators := (votes_aggregators A)
               (v_round vote \<mapsto> per_round(v_blk_hash vote \<mapsto> maker'))\<rparr>))"

definition add_commit_vote ::
  "('pk::{linorder, ab_group_add}, 's::ab_group_add) runtime \<Rightarrow> 's vote \<Rightarrow>
   (('pk, 's) aggregator, 's consensus_error, 's qc option) handler" where
  "add_commit_vote E vote = (\<lambda>A.
     let maker = or_insert (qc_maker_new E (cm_n (ag_committee A))) (commit_aggregators A (v_round vote));
         (r, maker') = qcm_append E (ag_committee A) vote False maker
     in (r, A\<lparr>commit_aggregators := (commit_aggregators A)(v_round vote \<mapsto> maker')\<rparr>))"

definition add_timeout ::
  "('pk::{linorder, ab_group_add}, 's::ab_group_add) runtime \<Rightarrow> 's timeout \<Rightarrow>
   (('pk, 's) aggregator, 's consensus_error, stake \<times> 's tc option) handler" where
  "add_timeout E timeout = (\<lambda>A.
     let maker = or_insert (tc_maker_new E) (timeouts_aggregators A (t_round timeout));
         (r, maker') = tcm_append E (ag_committee A) timeout maker
     in (r, A\<lparr>timeouts_aggregators := (timeouts_aggregators A)(t_round timeout \<mapsto> maker')\<rparr>))"

definition cleanup_prepares :: "round \<Rightarrow> ('pk, 's) aggregator \<Rightarrow> ('pk, 's) aggregator" where
  "cleanup_prepares r A = A\<lparr>
     votes_aggregators := retain (\<lambda>block_round _. block_round > r) (votes_aggregators A),
     commit_aggregators := retain (\<lambda>block_round _. block_round > r) (commit_aggregators A)\<rparr>"

definition cleanup_timeouts :: "round \<Rightarrow> ('pk, 's) aggregator \<Rightarrow> ('pk, 's) aggregator" where
  "cleanup_timeouts r A = A\<lparr>
     timeouts_aggregators := retain (\<lambda>k _. k > r) (timeouts_aggregators A)\<rparr>"

end
