(* ===== verification/Leader.thy ===== *)
theory Leader
  imports Config
begin

text \<open>
  The leader electors (src/hydrangea/src/leader.rs): round robin by authority identifier,
  the deterministic fair succession and the three failure-simulation schedules. An index
  out of range, a missing map key and a division by zero are panics.
\<close>

section \<open>Round robin\<close>

record simple_leader_elector =
  se_node_ids :: "public_key list"
  se_n :: usize

fun collect_ids :: "(u32 \<rightharpoonup> public_key) \<Rightarrow> nat list \<Rightarrow> ('e, public_key list) res" where
  "collect_ids id_map [] = Ok []"
| "collect_ids id_map (idx # rest) =
     bind_r (expect ''no entry found for key'' (id_map idx)) (\<lambda>key.
     bind_r (collect_ids id_map rest) (\<lambda>keys. Ok (key # keys)))"

definition id_map :: "'pk committee \<Rightarrow> u32 \<rightharpoonup> public_key" where
  "id_map C = map_of (rev (map (\<lambda>(x, y). (a_id y, x)) (authorities C)))"

definition simple_new :: "'pk committee \<Rightarrow> ('e, simple_leader_elector) res" where
  "simple_new C =
     bind_r (collect_ids (id_map C) [0..<committee_size C mod 2 ^ 32]) (\<lambda>ids.
       Ok \<lparr>se_node_ids = ids, se_n = committee_size C\<rparr>)"

definition rem_usize :: "usize \<Rightarrow> usize \<Rightarrow> ('e, usize) res" where
  "rem_usize a b =
     (if b = 0 then Panic ''attempt to calculate the remainder with a divisor of zero''
      else Ok (a mod b))"

definition index_vec :: "'a list \<Rightarrow> usize \<Rightarrow> ('e, 'a) res" where
  "index_vec xs i = expect ''index out of bounds'' (nth_opt xs i)"

definition simple_get_leader :: "simple_leader_elector \<Rightarrow> u64 \<Rightarrow> ('e, public_key) res" where
  "simple_get_leader e round =
     bind_r (rem_usize round (se_n e)) (\<lambda>i. index_vec (se_node_ids e) i)"

section \<open>Deterministic fair succession\<close>

record fair_leader_elector =
  fe_nodes_ids :: "public_key list"
  fe_schedule :: "usize list"

text \<open>
  The map from each index to the queue of its successors; the keys are
  \<^verbatim>\<open>0..n\<close>, so it is kept as a list.
\<close>

definition index_schedule :: "usize \<Rightarrow> usize \<Rightarrow> usize list" where
  "index_schedule n i =
     filter (\<lambda>next_successor. next_successor \<noteq> i) (map (\<lambda>j. (i + j) mod n) [0..<n])"

function walk :: "usize list list \<Rightarrow> usize \<Rightarrow> ('e, usize list) res" where
  "walk successors leader =
     (case nth_opt successors leader of
        None \<Rightarrow> Panic ''called Option::unwrap() on a None value''
      | Some [] \<Rightarrow> Ok [leader]
      | Some (successor # rest) \<Rightarrow>
          bind_r (walk (successors[leader := rest]) successor) (\<lambda>schedule. Ok (leader # schedule)))"
  by pat_completeness auto

lemma sum_list_nth_split:
  fixes xs :: "nat list"
  assumes "i < length xs"
  shows "sum_list xs = xs ! i + sum_list (xs[i := 0])"
  using assms
  by (induction xs arbitrary: i) (auto simp: less_Suc_eq_0_disj)

lemma sum_length_pop:
  assumes "i < length succs" "succs ! i = s # rest"
  shows "sum_list (map length succs) = Suc (sum_list (map length (succs[i := rest])))"
  using assms sum_list_nth_split [of i "map length succs"]
    sum_list_nth_split [of i "map length (succs[i := rest])"]
  by (simp add: map_update)

termination walk
  by (relation "measure (\<lambda>(succs, _). sum_list (map length succs))")
    (auto dest!: sum_length_pop split: list.splits)

declare walk.simps [simp del]

definition generate_schedule :: "usize \<Rightarrow> ('e, usize list) res" where
  "generate_schedule n =
     (if n < 1 then Ok []
      else bind_r (walk (map (index_schedule n) [0..<n]) 0) (\<lambda>schedule.
             if schedule \<noteq> [] \<and> hd schedule = last schedule
             then Ok (butlast schedule)
             else Panic ''assertion failed: schedule.first() == schedule.last()''))"

definition fair_new :: "'pk committee \<Rightarrow> ('e, fair_leader_elector) res" where
  "fair_new C =
     bind_r (generate_schedule (committee_size C)) (\<lambda>schedule.
       Ok \<lparr>fe_nodes_ids = sort (get_public_keys C), fe_schedule = schedule\<rparr>)"

definition fair_get_leader :: "fair_leader_elector \<Rightarrow> u64 \<Rightarrow> ('e, public_key) res" where
  "fair_get_leader e round =
     bind_r (rem_usize round (length (fe_schedule e))) (\<lambda>i.
     bind_r (index_vec (fe_schedule e) i) (\<lambda>leader. index_vec (fe_nodes_ids e) leader))"

text \<open>
  The fairness check of the schedule. Each window of \<open>3 n - 2\<close> rounds must hold its first leader
  twice; the loop stops at the first window that does not fit.
\<close>

definition test_generate_schedule_fairness :: "usize \<Rightarrow> ('e, unit) res" where
  "test_generate_schedule_fairness n =
     bind_r (generate_schedule n) (\<lambda>schedule.
       if n < 1 then Panic ''attempt to subtract with overflow''
       else if length schedule \<noteq> n * (n - 1) then
         Panic ''assertion failed: schedule.len() == n * (n - 1)''
       else if \<exists>i \<in> set [0..<n]. count_list schedule i \<noteq> n - 1 then
         Panic ''assertion failed: schedule.iter().filter(|x| **x == i).count() == n - 1''
       else if \<exists>start \<in> set (takeWhile (\<lambda>start. \<not> start + 3 * n - 2 > length schedule) [0..<length schedule]).
                 (let cycle = take (3 * n - 2) (drop start schedule) in \<not> count_list cycle (hd cycle) \<ge> 2) then
         Panic ''assertion failed: cycle.iter().filter(|x| **x == cycle[0]).count() >= 2''
       else Ok ())"

section \<open>Failure simulation\<close>

datatype failure_scenario = BEST | MID | WORST

definition generate_best_schedule :: "'pk committee \<Rightarrow> ('e, public_key list) res" where
  "generate_best_schedule C = Ok (get_honest_ids C @ get_byzantine_ids C)"

definition generate_mid_schedule :: "'pk committee \<Rightarrow> ('e, public_key list) res" where
  "generate_mid_schedule C =
     (let byzantine = get_byzantine_ids C; honest = get_honest_ids C in
      if \<not> length honest > length byzantine then
        Panic ''assertion failed: honest.len() > byzantine.len()''
      else Ok (concat (map (\<lambda>i. if i < length byzantine then [honest ! i, byzantine ! i]
                                 else [honest ! i]) [0..<length honest])))"

definition generate_worst_schedule :: "'pk committee \<Rightarrow> ('e, public_key list) res" where
  "generate_worst_schedule C =
     (let byzantine = get_byzantine_ids C; honest = get_honest_ids C in
      if \<not> length honest > 2 * length byzantine then
        Panic ''assertion failed: honest.len() > 2 * byzantine.len()''
      else Ok (concat (map (\<lambda>i. if i < length byzantine * 2 \<and> i mod 2 = 1
                                 then [honest ! i, byzantine ! (i div 2)]
                                 else [honest ! i]) [0..<length honest])))"

definition failure_new :: "'pk committee \<Rightarrow> failure_scenario \<Rightarrow> ('e, public_key list) res" where
  "failure_new C scenario =
     (case scenario of
        BEST \<Rightarrow> generate_best_schedule C
      | MID \<Rightarrow> generate_mid_schedule C
      | WORST \<Rightarrow> generate_worst_schedule C)"

definition failure_get_leader :: "public_key list \<Rightarrow> u64 \<Rightarrow> ('e, public_key) res" where
  "failure_get_leader schedule round =
     bind_r (rem_usize round (length schedule)) (\<lambda>i. index_vec schedule i)"

section \<open>The elector the core holds\<close>

datatype leader_elector =
  SimpleElector simple_leader_elector
| FairElector fair_leader_elector
| FailureElector "public_key list"

definition leader_elector_new :: "leader_elector_kind \<Rightarrow> 'pk committee \<Rightarrow> ('e, leader_elector) res" where
  "leader_elector_new kind C =
     (case kind of
        Simple \<Rightarrow> bind_r (simple_new C) (\<lambda>e. Ok (SimpleElector e))
      | FairSuccession \<Rightarrow> bind_r (fair_new C) (\<lambda>e. Ok (FairElector e))
      | FailureBestCase \<Rightarrow> bind_r (failure_new C BEST) (\<lambda>e. Ok (FailureElector e))
      | FailureMidCase \<Rightarrow> bind_r (failure_new C MID) (\<lambda>e. Ok (FailureElector e))
      | FailureWorstCase \<Rightarrow> bind_r (failure_new C WORST) (\<lambda>e. Ok (FailureElector e)))"

definition get_leader :: "leader_elector \<Rightarrow> u64 \<Rightarrow> ('e, public_key) res" where
  "get_leader e round =
     (case e of
        SimpleElector x \<Rightarrow> simple_get_leader x round
      | FairElector x \<Rightarrow> fair_get_leader x round
      | FailureElector x \<Rightarrow> failure_get_leader x round)"

end
