(* ===== verification/Tasks.thy ===== *)
theory Tasks
  imports Prelude
begin

text \<open>
  Contracts of the background tasks. A task is a loop that takes one event per turn; a run
  is the fold of its turns over a sequence of events. Three contracts recur in the code:
  a task keeps an invariant; a task passes on what it receives, in order, without loss or
  duplication; a task implements an abstract machine.
\<close>

section \<open>Runs and invariants\<close>

definition task_run :: "('ev \<Rightarrow> 'st \<Rightarrow> 'st) \<Rightarrow> 'ev list \<Rightarrow> 'st \<Rightarrow> 'st" where
  "task_run turn evs s = fold turn evs s"

lemma task_run_simps [simp]:
  "task_run turn [] s = s"
  "task_run turn (ev # evs) s = task_run turn evs (turn ev s)"
  "task_run turn (evs @ evs') s = task_run turn evs' (task_run turn evs s)"
  by (simp_all add: task_run_def)

text \<open>\<open>allowed\<close> restricts the events, to values that the code's types admit.\<close>

locale guarded_task =
  fixes turn :: "'ev \<Rightarrow> 'st \<Rightarrow> 'st" and inv :: "'st \<Rightarrow> bool" and allowed :: "'ev \<Rightarrow> bool"
  assumes guarded_turn: "allowed ev \<Longrightarrow> inv s \<Longrightarrow> inv (turn ev s)"
begin

lemma guarded_run: "list_all allowed evs \<Longrightarrow> inv s \<Longrightarrow> inv (task_run turn evs s)"
  by (induction evs arbitrary: s) (auto intro: guarded_turn)

end

locale task =
  fixes turn :: "'ev \<Rightarrow> 'st \<Rightarrow> 'st" and inv :: "'st \<Rightarrow> bool"
  assumes inv_turn: "inv s \<Longrightarrow> inv (turn ev s)"
begin

sublocale guarded_task turn inv "\<lambda>_. True"
  by unfold_locales (rule inv_turn)

lemma inv_run: "inv s \<Longrightarrow> inv (task_run turn evs s)"
  by (rule guarded_run) (simp_all add: list_all_iff)

end

section \<open>Tasks that pass on what they receive\<close>

text \<open>
  \<open>takes ev\<close> is what the task receives with an event, \<open>held\<close> what it has received and
  not yet passed on, \<open>sent\<close> what it has passed on so far.
\<close>

locale forwarding_task =
  fixes turn :: "'ev \<Rightarrow> 'st \<Rightarrow> 'st"
    and takes :: "'ev \<Rightarrow> 'x list" and held sent :: "'st \<Rightarrow> 'x list"
  assumes forward_turn: "sent (turn ev s) @ held (turn ev s) = sent s @ held s @ takes ev"
begin

lemma forward_run:
  "sent (task_run turn evs s) @ held (task_run turn evs s) = sent s @ held s @ concat (map takes evs)"
  by (induction evs arbitrary: s) (simp_all add: forward_turn flip: append_assoc)

lemma forward_count:
  "length (sent (task_run turn evs s)) + length (held (task_run turn evs s)) =
   length (sent s) + length (held s) + length (concat (map takes evs))"
  using arg_cong [OF forward_run, of length evs s] by simp

end

text \<open>Two such tasks in a row: what the first sends, in chunks, is what the second takes.\<close>

locale forwarding_pipeline =
  first: forwarding_task turn1 takes1 held1 sent1 +
  second: forwarding_task turn2 takes2 held2 sent2
  for turn1 :: "'ev \<Rightarrow> 'st \<Rightarrow> 'st" and takes1 :: "'ev \<Rightarrow> 'x list" and held1 sent1 :: "'st \<Rightarrow> 'x list"
    and turn2 :: "'ev2 \<Rightarrow> 'st2 \<Rightarrow> 'st2" and takes2 :: "'ev2 \<Rightarrow> 'x list" and held2 sent2 :: "'st2 \<Rightarrow> 'x list"
begin

lemma pipeline_run:
  assumes "concat (map takes2 evs2) @ queued = sent1 (task_run turn1 evs1 s1)"
    and "sent1 s1 = []" "held1 s1 = []" "sent2 s2 = []" "held2 s2 = []"
  shows "sent2 (task_run turn2 evs2 s2) @ held2 (task_run turn2 evs2 s2) @ queued @
         held1 (task_run turn1 evs1 s1) = concat (map takes1 evs1)"
proof -
  have "sent2 (task_run turn2 evs2 s2) @ held2 (task_run turn2 evs2 s2) = concat (map takes2 evs2)"
    using second.forward_run [of evs2 s2] assms by simp
  then have "(sent2 (task_run turn2 evs2 s2) @ held2 (task_run turn2 evs2 s2)) @ queued @
      held1 (task_run turn1 evs1 s1) = sent1 (task_run turn1 evs1 s1) @ held1 (task_run turn1 evs1 s1)"
    using assms(1) by simp
  also have "\<dots> = concat (map takes1 evs1)"
    using first.forward_run [of evs1 s1] assms by simp
  finally show ?thesis by simp
qed

end

section \<open>Simulation\<close>

text \<open>
  Every step of the concrete machine is a step, or a stutter, of the abstract one under the
  abstraction function; invariants of the abstract machine then hold of every concrete run.
\<close>

locale simulation =
  fixes cstep :: "'c \<Rightarrow> 'c \<Rightarrow> bool" and astep :: "'a \<Rightarrow> 'a \<Rightarrow> bool" and abs :: "'c \<Rightarrow> 'a"
  assumes simulates: "cstep c c' \<Longrightarrow> astep (abs c) (abs c') \<or> abs c' = abs c"
begin

lemma simulates_rtranclp: "cstep\<^sup>*\<^sup>* c c' \<Longrightarrow> astep\<^sup>*\<^sup>* (abs c) (abs c')"
proof (induction rule: rtranclp_induct)
  case base
  then show ?case by simp
next
  case (step y z)
  then show ?case
    using simulates [OF step.hyps(2)] by (metis rtranclp.rtrancl_into_rtrancl)
qed

lemma abstract_invariant:
  assumes "cstep\<^sup>*\<^sup>* c c'" "I (abs c)" "\<And>a b. I a \<Longrightarrow> astep a b \<Longrightarrow> I b"
  shows "I (abs c')"
  using simulates_rtranclp [OF assms(1)] assms(2,3)
  by (induction rule: rtranclp_induct) auto

end

end
