(* ===== verification/Proposer.thy ===== *)
theory Proposer
  imports Messages Tasks
begin

text \<open>
  The block proposer (src/hydrangea/src/proposer.rs): a task that turns a QC or TC handed
  over by the core into a signed block, sends the proposal back to the core and to the
  peers, and buffers the mempool certificates that become payload. A
  \<^verbatim>\<open>CancelHandler\<close> of the reliable sender is the pair of the address and the
  proposal it keeps sending.
\<close>

datatype 's proposal_trigger = TriggerQC "'s qc" | TriggerTC "'s tc"

datatype 's proposer_message =
  PropRequest "'s proposal_trigger"
| Cleanup round
| Observed "'s certificate list"

type_synonym 's cancel_handler = "socket_addr \<times> 's proposal_message"

datatype 's proposer_effect =
  Loopback "'s proposal_message"
| BroadcastProposal "socket_addr list" "'s proposal_message"
| BroadcastAck "socket_addr list"

record ('pk, 's) proposer =
  pr_name :: public_key
  pr_consensus_only :: bool
  pr_committee :: "'pk committee"
  pr_in_progress :: "round \<rightharpoonup> 's cancel_handler list"
  pr_last_proposed :: "'s block"
  pr_max_block_size :: usize
  pr_proposal_request :: "'s proposal_trigger option"
  pr_buffer :: "'s certificate list"
  pr_trace :: "'s proposer_effect list"

definition proposer_new :: "public_key \<Rightarrow> bool \<Rightarrow> 'pk committee \<Rightarrow> usize \<Rightarrow> ('pk, 's) proposer" where
  "proposer_new name consensus_only C max_block_size = \<lparr>pr_name = name,
     pr_consensus_only = consensus_only, pr_committee = C, pr_in_progress = Map.empty,
     pr_last_proposed = block_genesis, pr_max_block_size = max_block_size,
     pr_proposal_request = None, pr_buffer = [], pr_trace = []\<rparr>"

definition get_payload ::
  "('pk, 's) runtime \<Rightarrow> ('pk, 's) proposer \<Rightarrow> 's certificate list \<times> ('pk, 's) proposer" where
  "get_payload E p =
     (if pr_consensus_only p then (replicate (pr_max_block_size p) (certificate_default E), p)
      else if length (pr_buffer p) < pr_max_block_size p then (pr_buffer p, p\<lparr>pr_buffer := []\<rparr>)
      else (take (pr_max_block_size p) (pr_buffer p),
            p\<lparr>pr_buffer := drop (pr_max_block_size p) (pr_buffer p)\<rparr>))"

definition send_proposal :: "'s proposal_message \<Rightarrow> ('pk, 's) proposer \<Rightarrow> ('pk, 's) proposer" where
  "send_proposal proposal p =
     (let addresses = map (\<lambda>(_, x). consensus_to_consensus x)
                        (others_consensus (pr_committee p) (pr_name p));
          handles = map (\<lambda>a. (a, proposal)) addresses
      in p\<lparr>pr_trace := pr_trace p @ [BroadcastProposal addresses proposal],
           pr_in_progress := (pr_in_progress p)(b_round (pr_last_proposed p) \<mapsto> handles)\<rparr>)"

definition record_proposal :: "'s block \<Rightarrow> ('pk, 's) proposer \<Rightarrow> ('pk, 's) proposer" where
  "record_proposal b p = p\<lparr>pr_last_proposed := b\<rparr>"

definition make_fallback_proposal ::
  "('pk, 's) runtime \<Rightarrow> 's tc \<Rightarrow> ('pk, 's) proposer \<Rightarrow> 's proposal_message \<times> ('pk, 's) proposer" where
  "make_fallback_proposal E tc p =
     (let r = add64 (tc_round tc) 1;
          safe = (if wqc_round (tc_high_wqc tc) > qc_round (tc_high_qc tc)
                  then wqc_blk_hash (tc_high_wqc tc) else qc_blk_hash (tc_high_qc tc));
          (payload, p') = get_payload E p;
          b = block_new E (pr_name p) safe payload r
      in (PropF \<lparr>fp_block = b, fp_tc = tc\<rparr>, record_proposal b p'))"

definition make_normal_proposal ::
  "('pk, 's) runtime \<Rightarrow> 's qc \<Rightarrow> ('pk, 's) proposer \<Rightarrow> 's proposal_message \<times> ('pk, 's) proposer" where
  "make_normal_proposal E parent_qc p =
     (let r = add64 (qc_round parent_qc) 1;
          (payload, p') = get_payload E p;
          b = block_new E (pr_name p) (qc_blk_hash parent_qc) payload r
      in (PropN \<lparr>np_block = b, np_qc = parent_qc\<rparr>, record_proposal b p'))"

definition propose ::
  "('pk, 's) runtime \<Rightarrow> 's proposal_trigger \<Rightarrow> ('pk, 's) proposer \<Rightarrow> ('pk, 's) proposer" where
  "propose E trigger p =
     (let (proposal, p') =
        (case trigger of
           TriggerQC parent_qc \<Rightarrow> make_normal_proposal E parent_qc p
         | TriggerTC tc \<Rightarrow> make_fallback_proposal E tc p)
      in send_proposal proposal (p'\<lparr>pr_trace := pr_trace p' @ [Loopback proposal]\<rparr>))"

definition proposer_cleanup :: "round \<Rightarrow> ('pk, 's) proposer \<Rightarrow> ('pk, 's) proposer" where
  "proposer_cleanup r p =
     p\<lparr>pr_in_progress := retain (\<lambda>proposal_round _. proposal_round > r) (pr_in_progress p)\<rparr>"

definition observe :: "'s certificate list \<Rightarrow> ('pk, 's) proposer \<Rightarrow> ('pk, 's) proposer" where
  "observe certificates p =
     p\<lparr>pr_buffer := filter (\<lambda>cert. \<not> (\<exists>c \<in> set certificates. certificate_eq c cert)) (pr_buffer p)\<rparr>"

text \<open>
  One turn of the two loops of \<^verbatim>\<open>run\<close>. In the second, \<open>timer_expired\<close> is
  the answer of \<^verbatim>\<open>timer.is_elapsed()\<close> at the top of the turn and the event the
  branch of \<^verbatim>\<open>select!\<close> that completes.
\<close>

datatype 's proposer_event = FromMempool "'s certificate" | FromCore "'s proposer_message" | TimerFired

definition proposer_start :: "('pk, 's) proposer \<Rightarrow> ('pk, 's) proposer" where
  "proposer_start p = p\<lparr>pr_trace := pr_trace p @
     [BroadcastAck (others_consensus_sockets (pr_committee p) (pr_name p))]\<rparr>"

definition proposer_turn_consensus_only ::
  "('pk, 's) runtime \<Rightarrow> 's proposer_message \<Rightarrow> ('pk, 's) proposer \<Rightarrow> ('pk, 's) proposer" where
  "proposer_turn_consensus_only E m p =
     (case m of
        PropRequest trigger \<Rightarrow> propose E trigger p
      | Cleanup r \<Rightarrow> proposer_cleanup r p
      | Observed _ \<Rightarrow> p)"

definition try_propose :: "('pk, 's) runtime \<Rightarrow> bool \<Rightarrow> ('pk, 's) proposer \<Rightarrow> ('pk, 's) proposer" where
  "try_propose E timer_expired p =
     (if timer_expired \<or> pr_buffer p \<noteq> [] then
        (case pr_proposal_request p of
           None \<Rightarrow> p
         | Some trigger \<Rightarrow> propose E trigger (p\<lparr>pr_proposal_request := None\<rparr>))
      else p)"

definition proposer_select :: "'s proposer_event \<Rightarrow> ('pk, 's) proposer \<Rightarrow> ('pk, 's) proposer" where
  "proposer_select ev p =
     (case ev of
        FromMempool certificate \<Rightarrow> p\<lparr>pr_buffer := pr_buffer p @ [certificate]\<rparr>
      | FromCore m \<Rightarrow>
          (case m of
             PropRequest trigger \<Rightarrow> p\<lparr>pr_proposal_request := Some trigger\<rparr>
           | Cleanup r \<Rightarrow> proposer_cleanup r p
           | Observed certificates \<Rightarrow> observe certificates p)
      | TimerFired \<Rightarrow> p)"

definition proposer_turn ::
  "('pk, 's) runtime \<Rightarrow> bool \<Rightarrow> 's proposer_event \<Rightarrow> ('pk, 's) proposer \<Rightarrow> ('pk, 's) proposer" where
  "proposer_turn E timer_expired ev p = proposer_select ev (try_propose E timer_expired p)"

section \<open>What the proposer sends\<close>

text \<open>
  An honest proposer's blocks carry its name and at most the configured number of
  certificates, and the proposals around them pass the checks of the receivers.
\<close>

definition proposal_ok ::
  "('pk, 's) runtime \<Rightarrow> 'pk committee \<Rightarrow> public_key \<Rightarrow> usize \<Rightarrow> 's proposal_message \<Rightarrow> bool" where
  "proposal_ok E C name max_size p =
     (case p of
        PropN n \<Rightarrow> np_is_well_formed E C n = Ok () \<and> b_author (np_block n) = name \<and>
          length (b_payload (np_block n)) \<le> max_size
      | PropF f \<Rightarrow> fp_is_well_formed E C f = Ok () \<and> b_author (fp_block f) = name \<and>
          length (b_payload (fp_block f)) \<le> max_size)"

definition proposer_ok :: "('pk, 's) runtime \<Rightarrow> 'pk committee \<Rightarrow> public_key \<Rightarrow> usize \<Rightarrow> ('pk, 's) proposer \<Rightarrow> bool" where
  "proposer_ok E C name max_size p \<longleftrightarrow>
     pr_committee p = C \<and> pr_name p = name \<and> pr_max_block_size p = max_size \<and>
     (\<forall>e \<in> set (pr_trace p). case e of
        Loopback m \<Rightarrow> proposal_ok E C name max_size m
      | BroadcastProposal _ m \<Rightarrow> proposal_ok E C name max_size m
      | BroadcastAck _ \<Rightarrow> True) \<and>
     (\<forall>trigger. pr_proposal_request p = Some trigger \<longrightarrow>
        (case trigger of TriggerQC qc \<Rightarrow> qc_round qc < 2 ^ 64 | TriggerTC tc \<Rightarrow> tc_round tc < 2 ^ 64))"

text \<open>What signing must give: 64 bytes that verify under the node's key.\<close>

definition can_sign :: "('pk, 's) runtime \<Rightarrow> public_key \<Rightarrow> bool" where
  "can_sign E name \<longleftrightarrow> (\<forall>m. length (ed25519_sign E m) = 64 \<and> ed25519_verify E (ed25519_sign E m) m (key_bytes name))"

lemma block_new_well_formed:
  assumes "can_sign E name" "0 < stake_of C name"
  shows "block_is_well_formed E C (block_new E name parent payload r) = Ok ()"
proof -
  let ?b = "block_new E name parent payload r"
  have "b_signature ?b = signature_new E (block_digest E ?b)"
    by (simp add: block_new_def block_digest_def Let_def)
  then show ?thesis
    using assms by (simp add: block_is_well_formed_def signature_verify_def flatten_signature_new can_sign_def)
qed

lemma get_payload_size: "length (fst (get_payload E p)) \<le> pr_max_block_size p"
  by (simp add: get_payload_def)

lemma get_payload_frame:
  "pr_committee (snd (get_payload E p)) = pr_committee p" "pr_name (snd (get_payload E p)) = pr_name p"
  "pr_max_block_size (snd (get_payload E p)) = pr_max_block_size p" "pr_trace (snd (get_payload E p)) = pr_trace p"
  "pr_proposal_request (snd (get_payload E p)) = pr_proposal_request p"
  "pr_in_progress (snd (get_payload E p)) = pr_in_progress p"
  by (simp_all add: get_payload_def)

lemma normal_proposal_ok:
  assumes "can_sign E (pr_name p)" "0 < stake_of C (pr_name p)" "qc_round qc < 2 ^ 64"
  shows "proposal_ok E C (pr_name p) (pr_max_block_size p) (fst (make_normal_proposal E qc p))"
  using assms sub64_add64_1 [OF assms(3)] block_new_well_formed [OF assms(1,2)] get_payload_size [of E p]
  by (auto simp: proposal_ok_def make_normal_proposal_def np_is_well_formed_def Let_def split: prod.split)

lemma fallback_proposal_ok:
  assumes "can_sign E (pr_name p)" "0 < stake_of C (pr_name p)" "tc_round tc < 2 ^ 64"
  shows "proposal_ok E C (pr_name p) (pr_max_block_size p) (fst (make_fallback_proposal E tc p))"
  using assms sub64_add64_1 [OF assms(3)] block_new_well_formed [OF assms(1,2)] get_payload_size [of E p]
  by (auto simp: proposal_ok_def make_fallback_proposal_def fp_is_well_formed_def safe_blk_hash_def Let_def split: prod.split)

text \<open>A proposal leaves the rest of the proposer's state as it is.\<close>

lemma propose_eq:
  fixes E :: "('pk, 's) runtime"
  defines "made t p \<equiv> (case t of TriggerQC qc \<Rightarrow> make_normal_proposal E qc p | TriggerTC tc \<Rightarrow> make_fallback_proposal E tc p)"
  shows "\<exists>as. pr_trace (propose E t p) = pr_trace p @ [Loopback (fst (made t p)), BroadcastProposal as (fst (made t p))]"
    "pr_committee (propose E t p) = pr_committee p" "pr_name (propose E t p) = pr_name p"
    "pr_max_block_size (propose E t p) = pr_max_block_size p" "pr_proposal_request (propose E t p) = pr_proposal_request p"
    "pr_buffer (propose E t p) = pr_buffer (snd (get_payload E p))"
  using get_payload_frame [of E p]
  by (auto simp: made_def propose_def send_proposal_def make_normal_proposal_def make_fallback_proposal_def record_proposal_def
      Let_def split: proposal_trigger.split prod.split)

lemma propose_ok:
  assumes "proposer_ok E C name m p" "can_sign E name" "0 < stake_of C name"
    and "case t of TriggerQC qc \<Rightarrow> qc_round qc < 2 ^ 64 | TriggerTC tc \<Rightarrow> tc_round tc < 2 ^ 64"
  shows "proposer_ok E C name m (propose E t p)"
proof -
  have p: "pr_name p = name" "pr_max_block_size p = m" using assms(1) by (auto simp: proposer_ok_def)
  have "proposal_ok E C name m
      (fst (case t of TriggerQC qc \<Rightarrow> make_normal_proposal E qc p | TriggerTC tc \<Rightarrow> make_fallback_proposal E tc p))"
    using assms p normal_proposal_ok [of E p C] fallback_proposal_ok [of E p C] by (auto split: proposal_trigger.splits)
  with assms(1) propose_eq [of E t p] show ?thesis unfolding proposer_ok_def by auto
qed

text \<open>The rounds of the triggers the core sends are 64-bit values.\<close>

definition trigger_allowed :: "'s proposer_message \<Rightarrow> bool" where
  "trigger_allowed m = (case m of
      PropRequest (TriggerQC qc) \<Rightarrow> qc_round qc < 2 ^ 64
    | PropRequest (TriggerTC tc) \<Rightarrow> tc_round tc < 2 ^ 64
    | _ \<Rightarrow> True)"

definition proposer_allowed :: "bool \<times> 's proposer_event \<Rightarrow> bool" where
  "proposer_allowed ev = (case snd ev of FromCore m \<Rightarrow> trigger_allowed m | _ \<Rightarrow> True)"

lemma proposer_ok_frame:
  "proposer_ok E C name m p \<Longrightarrow> proposer_ok E C name m (p\<lparr>pr_buffer := b\<rparr>)"
  "proposer_ok E C name m p \<Longrightarrow> proposer_ok E C name m (p\<lparr>pr_in_progress := i\<rparr>)"
  "proposer_ok E C name m p \<Longrightarrow> proposer_ok E C name m (p\<lparr>pr_proposal_request := None\<rparr>)"
  "proposer_ok E C name m p \<Longrightarrow> trigger_allowed (PropRequest t) \<Longrightarrow> proposer_ok E C name m (p\<lparr>pr_proposal_request := Some t\<rparr>)"
  by (auto simp: proposer_ok_def trigger_allowed_def split: proposal_trigger.splits)

lemma try_propose_ok:
  assumes "proposer_ok E C name m p" "can_sign E name" "0 < stake_of C name"
  shows "proposer_ok E C name m (try_propose E timer_expired p)"
  using assms(1) propose_ok [OF proposer_ok_frame(3) [OF assms(1)] assms(2,3)]
  by (auto simp: try_propose_def proposer_ok_def split: option.split)

lemma proposer_turn_ok:
  assumes "proposer_allowed ev" "proposer_ok E C name m p" "can_sign E name" "0 < stake_of C name"
  shows "proposer_ok E C name m (proposer_turn E (fst ev) (snd ev) p)"
  using assms(1) try_propose_ok [OF assms(2-4), of "fst ev"]
  by (auto simp: proposer_turn_def proposer_select_def proposer_allowed_def proposer_cleanup_def observe_def
      split: proposer_event.splits proposer_message.splits intro: proposer_ok_frame)

lemma proposer_turn_consensus_only_ok:
  assumes "trigger_allowed msg" "proposer_ok E C name m p" "can_sign E name" "0 < stake_of C name"
  shows "proposer_ok E C name m (proposer_turn_consensus_only E msg p)"
proof (cases msg)
  case (PropRequest t)
  then have "case t of TriggerQC qc \<Rightarrow> qc_round qc < 2 ^ 64 | TriggerTC tc \<Rightarrow> tc_round tc < 2 ^ 64"
    using assms(1) by (simp add: trigger_allowed_def)
  from propose_ok [OF assms(2-4) this] PropRequest show ?thesis by (simp add: proposer_turn_consensus_only_def)
qed (use assms in \<open>simp_all add: proposer_turn_consensus_only_def proposer_cleanup_def proposer_ok_frame\<close>)

lemma proposer_ok_new: "proposer_ok E C name m (proposer_start (proposer_new name co C m))"
  by (simp add: proposer_ok_def proposer_start_def proposer_new_def)

section \<open>The payload\<close>

text \<open>
  Outside the consensus-only mode the payloads proposed so far, followed by the buffer, are
  what came from the mempool except for the certificates observed in other blocks.
\<close>

definition proposed_payload :: "('pk, 's) proposer \<Rightarrow> 's certificate list" where
  "proposed_payload p = concat (map (\<lambda>e. case e of
      Loopback (PropN n) \<Rightarrow> b_payload (np_block n)
    | Loopback (PropF f) \<Rightarrow> b_payload (fp_block f)
    | _ \<Rightarrow> []) (pr_trace p))"

lemma get_payload_split:
  "\<not> pr_consensus_only p \<Longrightarrow> fst (get_payload E p) @ pr_buffer (snd (get_payload E p)) = pr_buffer p"
  by (simp add: get_payload_def)

lemma propose_payload:
  assumes "\<not> pr_consensus_only p"
  shows "proposed_payload (propose E t p) @ pr_buffer (propose E t p) = proposed_payload p @ pr_buffer p"
  using get_payload_split [OF assms, of E] get_payload_frame [of E p]
  by (auto simp: proposed_payload_def propose_def send_proposal_def make_normal_proposal_def
      make_fallback_proposal_def record_proposal_def Let_def split: proposal_trigger.split prod.split)

lemma propose_consensus_only [simp]: "pr_consensus_only (propose E t p) = pr_consensus_only p"
  by (auto simp: propose_def send_proposal_def make_normal_proposal_def make_fallback_proposal_def record_proposal_def
      get_payload_def Let_def split: proposal_trigger.split prod.split)

lemma try_propose_payload:
  assumes "\<not> pr_consensus_only p"
  shows "proposed_payload (try_propose E timer_expired p) @ pr_buffer (try_propose E timer_expired p) =
    proposed_payload p @ pr_buffer p"
proof -
  have "\<not> pr_consensus_only (p\<lparr>pr_proposal_request := None\<rparr>)" using assms by simp
  from propose_payload [OF this, of E] show ?thesis
    by (auto simp: try_propose_def proposed_payload_def split: option.split)
qed

section \<open>Contracts\<close>

interpretation proposals: guarded_task "\<lambda>ev. proposer_turn E (fst ev) (snd ev)"
    "\<lambda>p. can_sign E name \<and> 0 < stake_of C name \<and> proposer_ok E C name m p" proposer_allowed
  for E :: "('pk, 's) runtime" and C name m
  by unfold_locales (auto intro: proposer_turn_ok)

interpretation repeated_proposals: guarded_task "proposer_turn_consensus_only E"
    "\<lambda>p. can_sign E name \<and> 0 < stake_of C name \<and> proposer_ok E C name m p" trigger_allowed
  for E :: "('pk, 's) runtime" and C name m
  by unfold_locales (auto intro: proposer_turn_consensus_only_ok)

end
