(* ===== verification/Store.thy ===== *)
theory Store
  imports Prelude
begin

text \<open>
  The store crate (src/store/src/lib.rs): one task that owns a RocksDB handle and serves
  \<^verbatim>\<open>Write\<close>, \<^verbatim>\<open>Read\<close> and \<^verbatim>\<open>NotifyRead\<close>
  commands in the order of its channel. RocksDB is the parameter \<open>rocksdb\<close>; a oneshot
  reply channel is a natural number, and the replies of a step are returned in the order
  they are sent.
\<close>

type_synonym key = "u8 list"
type_synonym val = "u8 list"

datatype store_error = RocksError

record 'db rocksdb =
  db_put :: "'db \<Rightarrow> key \<Rightarrow> val \<Rightarrow> 'db"
  db_get :: "'db \<Rightarrow> key \<Rightarrow> store_error + val option"

datatype store_command = Write key val | Read key nat | NotifyRead key nat

datatype store_reply =
  ReadReply "store_error + val option"
| NotifyReply "store_error + val"

record 'db store =
  st_db :: 'db
  st_obligations :: "key \<rightharpoonup> nat list"

definition store_new :: "'db \<Rightarrow> 'db store" where
  "store_new db = \<lparr>st_db = db, st_obligations = Map.empty\<rparr>"

text \<open>One turn of the task's loop.\<close>

fun store_step :: "'db rocksdb \<Rightarrow> store_command \<Rightarrow> 'db store \<Rightarrow> (nat \<times> store_reply) list \<times> 'db store" where
  "store_step D (Write key value) st =
     (let st' = st\<lparr>st_db := db_put D (st_db st) key value\<rparr> in
      case st_obligations st key of
        None \<Rightarrow> ([], st')
      | Some senders \<Rightarrow>
          (map (\<lambda>sender. (sender, NotifyReply (Inr value))) senders,
           st'\<lparr>st_obligations := (st_obligations st)(key := None)\<rparr>))"
| "store_step D (Read key sender) st = ([(sender, ReadReply (db_get D (st_db st) key))], st)"
| "store_step D (NotifyRead key sender) st =
     (case db_get D (st_db st) key of
        Inr None \<Rightarrow>
          ([], st\<lparr>st_obligations := (st_obligations st)
             (key \<mapsto> (case st_obligations st key of None \<Rightarrow> [] | Some q \<Rightarrow> q) @ [sender])\<rparr>)
      | Inr (Some value) \<Rightarrow> ([(sender, NotifyReply (Inr value))], st)
      | Inl e \<Rightarrow> ([(sender, NotifyReply (Inl e))], st))"

text \<open>
  The client side: \<^verbatim>\<open>write\<close> sends the command and does not wait for it;
  \<^verbatim>\<open>read\<close> waits for its reply. Since the channel is first in first out, a
  client sees its own writes.
\<close>

definition store_write :: "'db rocksdb \<Rightarrow> key \<Rightarrow> val \<Rightarrow> 'db store \<Rightarrow> (nat \<times> store_reply) list \<times> 'db store" where
  "store_write D key value st = store_step D (Write key value) st"

definition store_read :: "'db rocksdb \<Rightarrow> key \<Rightarrow> 'db store \<Rightarrow> store_error + val option" where
  "store_read D key st =
     (case fst (store_step D (Read key 0) st) of
        [(_, ReadReply r)] \<Rightarrow> r | _ \<Rightarrow> Inl RocksError)"

fun store_run :: "'db rocksdb \<Rightarrow> store_command list \<Rightarrow> 'db store \<Rightarrow> (nat \<times> store_reply) list \<times> 'db store" where
  "store_run D [] st = ([], st)"
| "store_run D (c # cs) st =
     (let (out, st') = store_step D c st; (outs, st'') = store_run D cs st' in (out @ outs, st''))"

section \<open>The interface of the database and what the store makes of it\<close>

text \<open>
  What the code relies on: a value that was put is read back, and a put does not touch
  other keys.
\<close>

definition kv_laws :: "'db rocksdb \<Rightarrow> bool" where
  "kv_laws D \<longleftrightarrow>
     (\<forall>db k v. db_get D (db_put D db k v) k = Inr (Some v)) \<and>
     (\<forall>db k v k'. k' \<noteq> k \<longrightarrow> db_get D (db_put D db k v) k' = db_get D db k')"

lemma store_read_get [simp]: "store_read D k st = db_get D (st_db st) k"
  by (simp add: store_read_def)

lemma st_db_write [simp]: "st_db (snd (store_write D k v st)) = db_put D (st_db st) k v"
  by (simp add: store_write_def Let_def split: option.split)

text \<open>
  Waiters: the senders of \<^verbatim>\<open>NotifyRead\<close> commands that have not been
  answered. A key has waiters only while it has no value.
\<close>

definition waiters :: "'db store \<Rightarrow> (key \<times> nat) set" where
  "waiters st = {(k, s). \<exists>q. st_obligations st k = Some q \<and> s \<in> set q}"

definition notify_senders :: "store_command list \<Rightarrow> nat list" where
  "notify_senders cs = concat (map (\<lambda>c. case c of NotifyRead k s \<Rightarrow> [s] | _ \<Rightarrow> []) cs)"

definition notified :: "(nat \<times> store_reply) list \<Rightarrow> nat list" where
  "notified out = concat (map (\<lambda>(s, r). case r of NotifyReply _ \<Rightarrow> [s] | _ \<Rightarrow> []) out)"

definition obligations_fresh :: "'db rocksdb \<Rightarrow> 'db store \<Rightarrow> bool" where
  "obligations_fresh D st \<longleftrightarrow> (\<forall>k q. st_obligations st k = Some q \<longrightarrow> db_get D (st_db st) k = Inr None)"

lemma notified_append [simp]: "notified (xs @ ys) = notified xs @ notified ys"
  by (simp add: notified_def)

lemma notify_senders_Cons:
  "notify_senders (c # cs) = (case c of NotifyRead k s \<Rightarrow> [s] | _ \<Rightarrow> []) @ notify_senders cs"
  by (simp add: notify_senders_def)

lemma notified_map [simp]: "notified (map (\<lambda>s. (s, NotifyReply r)) q) = q"
  by (induction q) (simp_all add: notified_def)

lemma notified_single [simp]:
  "notified [(s, NotifyReply r)] = [s]" "notified [(s, ReadReply r')] = []" "notified [] = []"
  by (simp_all add: notified_def)

lemma store_step_fresh:
  assumes "kv_laws D" "obligations_fresh D st"
  shows "obligations_fresh D (snd (store_step D c st))"
proof (cases c)
  case (Write k v)
  have other: "db_get D (db_put D (st_db st) k v) k' = db_get D (st_db st) k'" if "k' \<noteq> k" for k'
    using assms(1) that unfolding kv_laws_def by blast
  have old: "db_get D (st_db st) k' = Inr None" if "st_obligations st k' = Some q" for k' q
    using assms(2) that unfolding obligations_fresh_def by blast
  show ?thesis
  proof (cases "st_obligations st k")
    case None
    have "db_get D (db_put D (st_db st) k v) k' = Inr None" if "st_obligations st k' = Some q" for k' q
    proof -
      have "k' \<noteq> k" using that None by auto
      then show ?thesis using old [OF that] other by simp
    qed
    with Write None show ?thesis by (simp add: obligations_fresh_def Let_def)
  next
    case (Some q)
    with Write other old show ?thesis by (auto simp: obligations_fresh_def Let_def)
  qed
next
  case (Read k s)
  then show ?thesis using assms by simp
next
  case (NotifyRead k s)
  then show ?thesis using assms
    by (auto simp: obligations_fresh_def split: sum.splits option.splits)
qed

text \<open>Who waits after a step: those who waited before and were not answered, and the new waiter.\<close>

lemma store_step_waiters:
  "set (notified (fst (store_step D c st))) \<union> snd ` waiters (snd (store_step D c st)) =
   set (case c of NotifyRead k s \<Rightarrow> [s] | _ \<Rightarrow> []) \<union> snd ` waiters st"
proof (cases c)
  case (Write k v)
  show ?thesis
  proof (cases "st_obligations st k")
    case None
    with Write show ?thesis by (simp add: Let_def waiters_def)
  next
    case (Some q)
    have "waiters st = {(k, s) |s. s \<in> set q} \<union>
        waiters (st\<lparr>st_obligations := (st_obligations st)(k := None)\<rparr>)"
      using Some by (auto simp: waiters_def split: if_splits)
    with Write Some show ?thesis
      by (simp add: Let_def image_Un waiters_def) (force simp: image_def)
  qed
next
  case (Read k s)
  then show ?thesis by simp
next
  case (NotifyRead k s)
  show ?thesis
  proof (cases "db_get D (st_db st) k")
    case (Inl e)
    with NotifyRead show ?thesis by simp
  next
    case (Inr r)
    show ?thesis
    proof (cases r)
      case (Some v)
      with NotifyRead Inr show ?thesis by simp
    next
      case None
      have "waiters (st\<lparr>st_obligations := (st_obligations st)
             (k \<mapsto> (case st_obligations st k of None \<Rightarrow> [] | Some q \<Rightarrow> q) @ [s])\<rparr>) =
            insert (k, s) (waiters st)"
        by (auto simp: waiters_def split: if_splits option.splits)
      with NotifyRead Inr None show ?thesis by simp
    qed
  qed
qed

lemma store_run_waiters:
  "set (notified (fst (store_run D cs st))) \<union> snd ` waiters (snd (store_run D cs st)) =
   set (notify_senders cs) \<union> snd ` waiters st"
proof (induction cs arbitrary: st)
  case Nil
  then show ?case by (simp add: notify_senders_def)
next
  case (Cons c cs)
  obtain out st' where 1: "store_step D c st = (out, st')" by (cases "store_step D c st")
  obtain outs st'' where 2: "store_run D cs st' = (outs, st'')" by (cases "store_run D cs st'")
  have "set (notified outs) \<union> snd ` waiters st'' = set (notify_senders cs) \<union> snd ` waiters st'"
    using Cons.IH [of st'] 2 by simp
  moreover have "set (notified out) \<union> snd ` waiters st' =
      set (case c of NotifyRead k s \<Rightarrow> [s] | _ \<Rightarrow> []) \<union> snd ` waiters st"
    using store_step_waiters [of D c st] 1 by simp
  ultimately show ?case
    using 1 2 by (simp add: notify_senders_Cons) blast
qed

end
