(* ===== verification/Synchronizer.thy ===== *)
theory Synchronizer
  imports Messages Store Tasks
begin

text \<open>
  The block synchronizer of the consensus (src/hydrangea/src/synchronizer.rs):
  \<^verbatim>\<open>get_block\<close>, called by the core, and the task behind it, whose state is the
  three collections of its closure. A future of \<^verbatim>\<open>waiting\<close> is the digest it
  waits for; it completes when the store answers its \<^verbatim>\<open>notify_read\<close>.
\<close>

type_synonym 's sync_request = "digest \<times> public_key \<times> 's block option"

record 's synchronizer =
  sy_waiting :: "digest list"
  sy_requests :: "digest \<rightharpoonup> nat"
  sy_loopbacks :: "digest \<rightharpoonup> 's block"

datatype 's sync_effect =
  SyNotifyRead digest
| SySend socket_addr "'s consensus_message"
| SyBroadcast "socket_addr list" "'s consensus_message"
| SyLoopback "'s block"
| SyTimerReset

definition synchronizer_new :: "'s synchronizer" where
  "synchronizer_new = \<lparr>sy_waiting = [], sy_requests = Map.empty, sy_loopbacks = Map.empty\<rparr>"

text \<open>The branch for a request of the core; \<open>now\<close> is the system time in milliseconds.\<close>

definition sync_on_request ::
  "('pk, 's) runtime \<Rightarrow> public_key \<Rightarrow> 'pk committee \<Rightarrow> nat \<Rightarrow> 's sync_request \<Rightarrow>
   ('s synchronizer, config_error, 's sync_effect list) handler" where
  "sync_on_request E name C now = (\<lambda>(to_sync, server, resume_from) y.
     if sy_requests y to_sync \<noteq> None then
       (case resume_from of
          None \<Rightarrow> (Ok [], y)
        | Some to_yield_new \<Rightarrow>
            (case sy_loopbacks y to_sync of
               Some to_yield_old \<Rightarrow>
                 if b_round to_yield_new > b_round to_yield_old
                 then (Ok [], y\<lparr>sy_loopbacks := (sy_loopbacks y)(to_sync \<mapsto> to_yield_new)\<rparr>)
                 else (Ok [], y)
             | None \<Rightarrow> (Ok [], y\<lparr>sy_loopbacks := (sy_loopbacks y)(to_sync \<mapsto> to_yield_new)\<rparr>)))
     else
       let y1 = (case resume_from of
                   None \<Rightarrow> y
                 | Some to_yield \<Rightarrow>
                     y\<lparr>sy_requests := (sy_requests y)(block_digest E to_yield := None),
                       sy_loopbacks := (sy_loopbacks y)(to_sync \<mapsto> to_yield)\<rparr>);
           y2 = y1\<lparr>sy_waiting := sy_waiting y1 @ [to_sync],
                   sy_requests := (sy_requests y1)(to_sync \<mapsto> now)\<rparr>
       in case committee_consensus C server of
            Ok x \<Rightarrow> (Ok [SyNotifyRead to_sync, SySend (consensus_to_consensus x) (SyncRequest to_sync name)], y2)
          | _ \<Rightarrow> (Panic ''Peer specified as server is not in the committee'', y2))"

text \<open>The branch for a completed waiter: the block \<open>requested\<close> was written to the store.\<close>

definition sync_on_stored :: "digest \<Rightarrow> 's synchronizer \<Rightarrow> 's sync_effect list \<times> 's synchronizer" where
  "sync_on_stored requested y =
     (let y1 = y\<lparr>sy_waiting := remove1 requested (sy_waiting y),
                 sy_requests := (sy_requests y)(requested := None)\<rparr>
      in case sy_loopbacks y1 requested of
           None \<Rightarrow> ([], y1)
         | Some resume_from \<Rightarrow>
             ([SyLoopback resume_from], y1\<lparr>sy_loopbacks := (sy_loopbacks y1)(requested := None)\<rparr>))"

text \<open>A waiter whose \<^verbatim>\<open>notify_read\<close> failed: the error is logged.\<close>

definition sync_on_store_error :: "digest \<Rightarrow> 's synchronizer \<Rightarrow> 's synchronizer" where
  "sync_on_store_error requested y = y\<lparr>sy_waiting := remove1 requested (sy_waiting y)\<rparr>"

text \<open>
  The timer branch. \<open>order\<close> is the iteration order of the request map; every entry that
  is older than the retry delay is asked of all honest peers.
\<close>

definition sync_on_timer ::
  "public_key \<Rightarrow> 'pk committee \<Rightarrow> u64 \<Rightarrow> nat \<Rightarrow> digest list \<Rightarrow> 's synchronizer \<Rightarrow> 's sync_effect list" where
  "sync_on_timer name C sync_retry_delay now order y =
     concat (map (\<lambda>d. case sy_requests y d of
         None \<Rightarrow> []
       | Some timestamp \<Rightarrow>
           if timestamp + sync_retry_delay < now
           then [SyBroadcast (map (\<lambda>(_, x). consensus_to_consensus x) (others_consensus C name))
                   (SyncRequest d name)]
           else []) order) @ [SyTimerReset]"

text \<open>
  The client call. \<open>de\<close> is \<^verbatim>\<open>bincode::deserialize\<close> on blocks. The second
  component is the message put on the inner channel.
\<close>

definition sync_get_block ::
  "('pk, 's) runtime \<Rightarrow> 'db rocksdb \<Rightarrow> (val \<Rightarrow> 's block option) \<Rightarrow> 'db store \<Rightarrow>
   digest \<Rightarrow> public_key \<Rightarrow> 's block option \<Rightarrow>
   ('s consensus_error, 's block option) res \<times> 's sync_request list" where
  "sync_get_block E D de st d server resume_from =
     (if d = qc_blk_hash (qc_genesis E) then (Ok (Some block_genesis), [])
      else case store_read D (to_vec d) st of
             Inl _ \<Rightarrow> (Err StoreError, [])
           | Inr (Some bytes) \<Rightarrow>
               (case de bytes of
                  None \<Rightarrow> (Err SerializationError, [])
                | Some b \<Rightarrow> (Ok (Some b), []))
           | Inr None \<Rightarrow> (Ok None, [(d, server, resume_from)]))"

section \<open>Suspended blocks are resumed\<close>

text \<open>
  While the store answers, every request and every block to be resumed has a waiter. A waiter
  whose read fails is gone for good while its request stays.
\<close>

definition sync_ok :: "'s synchronizer \<Rightarrow> bool" where
  "sync_ok y \<longleftrightarrow> dom (sy_requests y) \<union> dom (sy_loopbacks y) \<subseteq> set (sy_waiting y)"

datatype 's sync_event = SyRequest nat "'s sync_request" | SyStored digest

definition sync_turn ::
  "('pk, 's) runtime \<Rightarrow> public_key \<Rightarrow> 'pk committee \<Rightarrow> 's sync_event \<Rightarrow> 's synchronizer \<Rightarrow> 's synchronizer" where
  "sync_turn E name C ev y =
     (case ev of
        SyRequest now r \<Rightarrow> snd (sync_on_request E name C now r y)
      | SyStored d \<Rightarrow> if d \<in> set (sy_waiting y) then snd (sync_on_stored d y) else y)"

lemma sync_on_request_state:
  "snd (sync_on_request E name C now (d, server, resume) y) =
     (if sy_requests y d \<noteq> None then
        (case resume of
           None \<Rightarrow> y
         | Some b \<Rightarrow> (case sy_loopbacks y d of
             Some b' \<Rightarrow> if b_round b > b_round b' then y\<lparr>sy_loopbacks := (sy_loopbacks y)(d \<mapsto> b)\<rparr> else y
           | None \<Rightarrow> y\<lparr>sy_loopbacks := (sy_loopbacks y)(d \<mapsto> b)\<rparr>))
      else y\<lparr>sy_waiting := sy_waiting y @ [d],
             sy_requests := (case resume of None \<Rightarrow> sy_requests y | Some b \<Rightarrow> (sy_requests y)(block_digest E b := None))(d \<mapsto> now),
             sy_loopbacks := (case resume of None \<Rightarrow> sy_loopbacks y | Some b \<Rightarrow> (sy_loopbacks y)(d \<mapsto> b))\<rparr>)"
  by (auto simp: sync_on_request_def Let_def split: option.split res.split)

lemma sync_request_ok: "sync_ok y \<Longrightarrow> sync_ok (snd (sync_on_request E name C now (d, server, resume) y))"
  unfolding sync_on_request_state sync_ok_def
  by (auto simp: dom_def subset_iff split: option.split if_splits)

lemma sync_stored_ok:
  assumes "sync_ok y"
  shows "sync_ok (snd (sync_on_stored d y))"
proof -
  have "x \<in> set (remove1 d (sy_waiting y))" if "x \<in> set (sy_waiting y)" "x \<noteq> d" for x
    using that by simp
  then show ?thesis using assms
    by (auto simp: sync_on_stored_def sync_ok_def Let_def dom_def subset_iff split: option.split)
qed

interpretation synchronizing: task "sync_turn E name C" sync_ok for E :: "('pk, 's) runtime" and name C
  by unfold_locales (auto simp: sync_turn_def sync_request_ok sync_stored_ok split: sync_event.split prod.split)

text \<open>Of the blocks suspended on one digest the one with the highest round is kept.\<close>

lemma sync_requests_highest:
  assumes "sy_requests y d \<noteq> None" "sy_loopbacks y d = Some b"
    and "y' = fold (\<lambda>(now, server, b). \<lambda>y. snd (sync_on_request E name C now (d, server, Some b) y)) reqs y"
  shows "sy_requests y' d \<noteq> None \<and> (\<exists>b'. sy_loopbacks y' d = Some b' \<and> b' \<in> insert b ((\<lambda>(_, _, b). b) ` set reqs) \<and>
    (\<forall>x \<in> insert b ((\<lambda>(_, _, b). b) ` set reqs). b_round x \<le> b_round b'))"
  using assms
proof (induction reqs arbitrary: y b)
  case Nil
  then show ?case by simp
next
  case (Cons r reqs)
  obtain now server b1 where r: "r = (now, server, b1)" by (cases r)
  let ?y = "snd (sync_on_request E name C now (d, server, Some b1) y)"
  let ?b = "if b_round b1 > b_round b then b1 else b"
  have y: "sy_requests ?y d \<noteq> None" "sy_loopbacks ?y d = Some ?b"
    using Cons.prems(1,2) by (auto simp: sync_on_request_state)
  have "y' = fold (\<lambda>(now, server, b). \<lambda>y. snd (sync_on_request E name C now (d, server, Some b) y)) reqs ?y"
    using Cons.prems(3) r by simp
  from Cons.IH [OF y this] obtain b' where b':
    "sy_requests y' d \<noteq> None" "sy_loopbacks y' d = Some b'" "b' \<in> insert ?b ((\<lambda>(_, _, b). b) ` set reqs)"
    "\<forall>x \<in> insert ?b ((\<lambda>(_, _, b). b) ` set reqs). b_round x \<le> b_round b'" by blast
  have "b_round b \<le> b_round ?b" "b_round b1 \<le> b_round ?b" by auto
  with b'(4) have "b_round b \<le> b_round b'" "b_round b1 \<le> b_round b'" by (meson insertI1 order_trans)+
  moreover have "b' \<in> insert b ((\<lambda>(_, _, b). b) ` set (r # reqs))" using b'(3) r by (auto split: if_splits)
  ultimately show ?case using b' r by auto
qed

end
