(* ===== verification/Core.thy ===== *)
theory Core
  imports Aggregator Leader Proposer Synchronizer
begin

text \<open>
  The consensus core (src/hydrangea/src/core.rs, mempool.rs, timer.rs): one task that owns
  the protocol state and handles one event at a time. Its methods on
  \<^verbatim>\<open>&mut self\<close> are handlers over the record \<open>core\<close>. What the task does
  to the outside, a message on a channel or on the network, a signature it requests, the
  benchmark log of a commit, is appended to \<open>c_trace\<close> in order.

  \<^verbatim>\<open>handle_vote\<close> and \<^verbatim>\<open>handle_timeout\<close> are recursive through
  most of the other methods. The methods between two such calls take the recursive call
  as their argument \<open>hv\<close> (\<open>ht\<close>); the knot is tied by recursion on a depth, and a
  call deeper than that, or a loop longer than \<open>ce_loop_fuel\<close>, is \<open>Diverge\<close>.
\<close>

section \<open>State\<close>

datatype 's core_effect =
  NetBroadcast "socket_addr list" "'s consensus_message"
| NetSend socket_addr "'s consensus_message"
| ToProposer "'s proposer_message"
| ToCommitter "'s certificate list"
| Output "'s block"
| ToMempool "'s certificate"
| ToSynchronizer "'s sync_request"
| StoreAnswer nat store_reply
| CommittedBlock "'s block"
| SignedVote "'s vote"
| SignedTimeout "'s timeout"

record ('pk, 's, 'db) core =
  c_aggregator :: "('pk, 's) aggregator"
  c_committee :: "'pk committee"
  committable_blocks :: "digest \<rightharpoonup> round"
  c_consensus_only :: bool
  last_commit :: "'s block"
  last_vote :: "'s vote"
  last_timeout :: round
  c_leader_elector :: leader_elector
  locked :: "'s qc"
  high_wqc :: "'s wqc"
  c_name :: public_key
  pending_proposals :: "round \<rightharpoonup> digest"
  qc_syncs :: "public_key \<rightharpoonup> nat"
  c_round :: round
  c_store :: "'db store"
  sync_requests :: "digest set"
  timeout_delay :: u64
  timeout_syncs :: "round set"
  timer_deadline :: nat
  uncommitted_blocks :: "digest \<rightharpoonup> 's block"
  uncommitted_qcs :: "round \<rightharpoonup> 's qc"
  c_now :: nat
  c_trace :: "'s core_effect list"

text \<open>
  The environment: the cryptography, the database, \<^verbatim>\<open>bincode\<close> on blocks, and the
  bounds on loops and recursion.
\<close>

record ('pk, 's, 'db) core_env =
  ce_runtime :: "('pk, 's) runtime"
  ce_rocksdb :: "'db rocksdb"
  ce_ser :: "'s block \<Rightarrow> val"
  ce_de :: "val \<Rightarrow> 's block option"
  ce_loop_fuel :: nat
  ce_depth :: nat

type_synonym ('pk, 's, 'db, 'a) core_handler = "(('pk, 's, 'db) core, 's consensus_error, 'a) handler"

definition core_init ::
  "('pk, 's, 'db) core_env \<Rightarrow> public_key \<Rightarrow> 'pk committee \<Rightarrow> bool \<Rightarrow> 'db store \<Rightarrow> leader_elector \<Rightarrow> u64 \<Rightarrow>
   ('pk, 's, 'db) core" where
  "core_init env name C consensus_only st elector delay =
     (let E = ce_runtime env; d = block_digest E block_genesis in
      \<lparr>c_aggregator = aggregator_new C, c_committee = C, committable_blocks = Map.empty,
       c_consensus_only = consensus_only, last_commit = block_genesis,
       last_vote = \<lparr>v_author = name, v_blk_hash = d, v_kind = Normal, v_round = 0,
                    v_signature = bls_default E\<rparr>,
       last_timeout = 0, c_leader_elector = elector, locked = qc_genesis E,
       high_wqc = wqc_genesis E, c_name = name, pending_proposals = [0 \<mapsto> d],
       qc_syncs = Map.empty, c_round = 1, c_store = st, sync_requests = {},
       timeout_delay = delay, timeout_syncs = {}, timer_deadline = delay,
       uncommitted_blocks = [d \<mapsto> block_genesis], uncommitted_qcs = [0 \<mapsto> qc_genesis E],
       c_now = 0, c_trace = []\<rparr>)"

definition emit :: "'s core_effect \<Rightarrow> ('pk, 's, 'db, unit) core_handler" where
  "emit e = modify_m (\<lambda>s. s\<lparr>c_trace := c_trace s @ [e]\<rparr>)"

definition timer_reset :: "('pk, 's, 'db, unit) core_handler" where
  "timer_reset = modify_m (\<lambda>s. s\<lparr>timer_deadline := c_now s + timeout_delay s\<rparr>)"

definition leader_of :: "round \<Rightarrow> ('pk, 's, 'db, public_key) core_handler" where
  "leader_of r = bind_m (gets_m c_leader_elector) (\<lambda>e. lift_m (get_leader e r))"

section \<open>Network\<close>

text \<open>Only these three kinds of message are put on the wire.\<close>

definition is_sendable :: "'s consensus_message \<Rightarrow> bool" where
  "is_sendable m = (case m of QCMsg _ \<Rightarrow> True | VoteMsg _ \<Rightarrow> True | TimeoutMsg _ \<Rightarrow> True | _ \<Rightarrow> False)"

definition broadcast :: "'s consensus_message \<Rightarrow> ('pk, 's, 'db, unit) core_handler" where
  "broadcast m =
     bind_m (gets_m (\<lambda>s. others_consensus_sockets (c_committee s) (c_name s))) (\<lambda>addresses.
       when_m (is_sendable m) (emit (NetBroadcast addresses m)))"

definition consensus_address :: "string \<Rightarrow> public_key \<Rightarrow> ('pk, 's, 'db, socket_addr) core_handler" where
  "consensus_address msg recipient =
     bind_m (gets_m (\<lambda>s. committee_consensus (c_committee s) recipient)) (\<lambda>r.
       case r of Ok x \<Rightarrow> ret (consensus_to_consensus x) | _ \<Rightarrow> panic msg)"

definition send_to :: "'s consensus_message \<Rightarrow> public_key \<Rightarrow> ('pk, 's, 'db, unit) core_handler" where
  "send_to m recipient =
     bind_m (gets_m c_name) (\<lambda>name.
       when_m (recipient \<noteq> name)
         (bind_m (consensus_address ''Target node is not in the committee'' recipient) (\<lambda>address.
            when_m (is_sendable m) (emit (NetSend address m)))))"

section \<open>Ancestors and commits\<close>

definition sync_call ::
  "('pk, 's, 'db) core_env \<Rightarrow> digest \<Rightarrow> public_key \<Rightarrow> 's block option \<Rightarrow>
   ('pk, 's, 'db, 's block option) core_handler" where
  "sync_call env d server resume_from =
     bind_m (gets_m (\<lambda>s. sync_get_block (ce_runtime env) (ce_rocksdb env) (ce_de env) (c_store s)
                           d server resume_from)) (\<lambda>(r, requests).
     then_m (modify_m (\<lambda>s. s\<lparr>c_trace := c_trace s @ map ToSynchronizer requests\<rparr>)) (lift_m r))"

definition get_block ::
  "('pk, 's, 'db) core_env \<Rightarrow> digest \<Rightarrow> round \<Rightarrow> ('pk, 's, 'db, 's block option) core_handler" where
  "get_block env d r =
     bind_m (gets_m id) (\<lambda>s.
     if r > b_round (last_commit s) then
       then_m (assert_m (uncommitted_qcs s r \<noteq> None)
           ''assertion failed: self.uncommitted_qcs.contains_key(&round)'') (
       bind_m (leader_of r) (\<lambda>proposer.
       case uncommitted_blocks s d of
         Some b \<Rightarrow> ret (Some b)
       | None \<Rightarrow>
           bind_m (sync_call env d proposer None) (\<lambda>maybe_b.
           then_m (assert_m (maybe_b = None) ''assertion failed: maybe_b.is_none()'') (
           then_m (modify_m (\<lambda>s. s\<lparr>sync_requests := insert d (sync_requests s)\<rparr>))
             (ret None)))))
     else ret None)"

primrec ancestors_loop ::
  "('pk, 's, 'db) core_env \<Rightarrow> 's block \<Rightarrow> nat \<Rightarrow> 's block \<Rightarrow> ('pk, 's, 'db, bool) core_handler" where
  "ancestors_loop env block 0 = (\<lambda>b. diverge)"
| "ancestors_loop env block (Suc fuel) = (\<lambda>b.
     bind_m (gets_m (\<lambda>s. uncommitted_blocks s (b_parent b))) (\<lambda>found.
     bind_m (case found of
               Some parent \<Rightarrow> ret (Some parent)
             | None \<Rightarrow> sync_call env (b_parent b) (b_author b) (Some block)) (\<lambda>maybe_parent.
     case maybe_parent of
       Some parent \<Rightarrow>
         bind_m (gets_m (\<lambda>s. b_round (last_commit s))) (\<lambda>committed.
         if b_round parent = committed then ret True
         else then_m (assert_m (b_round parent > committed)
                  ''assertion failed: parent.round > self.last_commit.round'')
                (ancestors_loop env block fuel parent))
     | None \<Rightarrow>
         then_m (modify_m (\<lambda>s. s\<lparr>sync_requests := insert (b_parent b) (sync_requests s)\<rparr>))
           (ret False))))"

definition have_all_ancestors ::
  "('pk, 's, 'db) core_env \<Rightarrow> 's block \<Rightarrow> ('pk, 's, 'db, bool) core_handler" where
  "have_all_ancestors env block =
     bind_m (gets_m id) (\<lambda>s.
     if b_round block = 0 \<or> b_parent block = block_digest (ce_runtime env) (last_commit s) then ret True
     else
       then_m (assert_m (b_round block > b_round (last_commit s))
           ''assertion failed: block.round > self.last_commit.round'') (
       then_m (assert_m (committable_blocks s (block_digest (ce_runtime env) block) \<noteq> None)
           ''assertion failed: self.committable_blocks.contains_key(&block.digest())'')
       (ancestors_loop env block (ce_loop_fuel env) block)))"

text \<open>\<^verbatim>\<open>to_commit\<close> is a stack; its top is the head of the list.\<close>

primrec commit_loop ::
  "('pk, 's, 'db) core_env \<Rightarrow> nat \<Rightarrow> 's block \<Rightarrow> 's block list \<Rightarrow> ('pk, 's, 'db, 's block list) core_handler" where
  "commit_loop env 0 = (\<lambda>ancestor to_commit. diverge)"
| "commit_loop env (Suc fuel) = (\<lambda>ancestor to_commit.
     bind_m (gets_m id) (\<lambda>s.
     if b_parent ancestor = block_digest (ce_runtime env) (last_commit s) then ret (ancestor # to_commit)
     else case uncommitted_blocks s (b_parent ancestor) of
       None \<Rightarrow> panic ''Missing ancestor detected during commit.''
     | Some parent \<Rightarrow>
         then_m (modify_m (\<lambda>s. s\<lparr>uncommitted_blocks := (uncommitted_blocks s)(b_parent ancestor := None)\<rparr>)) (
         then_m (assert_m (b_round parent > b_round (last_commit s))
             ''assertion failed: ancestor.round > self.last_commit.round'')
           (commit_loop env fuel parent (ancestor # to_commit)))))"

definition mempool_cleanup :: "'s certificate list \<Rightarrow> ('pk, 's, 'db, unit) core_handler" where
  "mempool_cleanup payload = modify_m (\<lambda>s. s\<lparr>c_trace := c_trace s @ map ToMempool payload\<rparr>)"

primrec deliver :: "'s block list \<Rightarrow> ('pk, 's, 'db, unit) core_handler" where
  "deliver [] = ret ()"
| "deliver (committing # to_commit) =
     then_m (emit (CommittedBlock committing)) (
     bind_m (gets_m c_consensus_only) (\<lambda>consensus_only.
     then_m (when_m (\<not> consensus_only)
         (then_m (emit (ToCommitter (b_payload committing))) (
          then_m (emit (Output committing))
            (mempool_cleanup (b_payload committing)))))
       (deliver to_commit)))"

definition record_commit :: "'s block \<Rightarrow> ('pk, 's, 'db) core \<Rightarrow> ('pk, 's, 'db) core" where
  "record_commit block s = s\<lparr>last_commit := block,
     committable_blocks := retain (\<lambda>_ r. r > b_round block) (committable_blocks s),
     pending_proposals := retain (\<lambda>r _. r > b_round block) (pending_proposals s),
     uncommitted_blocks := retain (\<lambda>_ b. b_round b > b_round block) (uncommitted_blocks s),
     uncommitted_qcs := retain (\<lambda>_ qc. qc_round qc > b_round block) (uncommitted_qcs s)\<rparr>"

definition commit :: "('pk, 's, 'db) core_env \<Rightarrow> 's block \<Rightarrow> ('pk, 's, 'db, unit) core_handler" where
  "commit env block =
     (if b_round block = 0 then ret ()
      else bind_m (gets_m (\<lambda>s. b_round (last_commit s))) (\<lambda>committed.
        then_m (assert_m (b_round block > committed)
            ''assertion failed: block.round > self.last_commit.round'') (
        bind_m (commit_loop env (ce_loop_fuel env) block []) (\<lambda>to_commit.
        then_m (deliver to_commit) (modify_m (record_commit block))))))"

definition try_commit_or_sync_ancestor ::
  "('pk, 's, 'db) core_env \<Rightarrow> 's block \<Rightarrow> ('pk, 's, 'db, unit) core_handler" where
  "try_commit_or_sync_ancestor env block =
     bind_m (gets_m id) (\<lambda>s.
     then_m (assert_m (b_round block > b_round (last_commit s))
         ''assertion failed: block.round > self.last_commit.round'')
     (if committable_blocks s (block_digest (ce_runtime env) block) \<noteq> None
      then bind_m (have_all_ancestors env block) (\<lambda>all. when_m all (commit env block))
      else ret ()))"

definition schedule_commit ::
  "('pk, 's, 'db) core_env \<Rightarrow> digest \<Rightarrow> round \<Rightarrow> ('pk, 's, 'db, unit) core_handler" where
  "schedule_commit env d r =
     then_m (modify_m (\<lambda>s. s\<lparr>committable_blocks := (committable_blocks s)(d \<mapsto> r)\<rparr>)) (
     bind_m (gets_m (\<lambda>s. uncommitted_blocks s d)) (\<lambda>found.
       case found of
         Some block \<Rightarrow> bind_m (have_all_ancestors env block) (\<lambda>all. when_m all (commit env block))
       | None \<Rightarrow> ret ()))"

section \<open>Storing blocks\<close>

definition sync_peer :: "public_key \<Rightarrow> ('pk, 's, 'db, unit) core_handler" where
  "sync_peer recipient =
     bind_m (gets_m id) (\<lambda>s.
     let rate_limited = (case qc_syncs s recipient of
           Some synced_at \<Rightarrow> c_now s - synced_at < timeout_delay s
         | None \<Rightarrow> False)
     in if rate_limited then ret ()
        else bind_m (consensus_address ''Recipient is not a member of the Validator Committee.'' recipient)
               (\<lambda>address.
             then_m (emit (NetSend address (QCMsg (locked s))))
               (modify_m (\<lambda>s. s\<lparr>qc_syncs := (qc_syncs s)(recipient \<mapsto> c_now s)\<rparr>))))"

definition update_pending_proposals ::
  "('pk, 's, 'db) core_env \<Rightarrow> 's block \<Rightarrow> ('pk, 's, 'db) core \<Rightarrow> ('pk, 's, 'db) core" where
  "update_pending_proposals env block s =
     (if pending_proposals s (b_round block) \<noteq> None then s
      else s\<lparr>pending_proposals := (pending_proposals s)
               (b_round block \<mapsto> block_digest (ce_runtime env) block)\<rparr>)"

definition observe_payload :: "'s block \<Rightarrow> ('pk, 's, 'db, unit) core_handler" where
  "observe_payload block = emit (ToProposer (Observed (b_payload block)))"

definition write_block :: "('pk, 's, 'db) core_env \<Rightarrow> 's block \<Rightarrow> ('pk, 's, 'db) core \<Rightarrow> ('pk, 's, 'db) core" where
  "write_block env block s =
     (let (replies, st) = store_write (ce_rocksdb env)
            (to_vec (block_digest (ce_runtime env) block)) (ce_ser env block) (c_store s)
      in s\<lparr>c_store := st, c_trace := c_trace s @ map (\<lambda>(ch, r). StoreAnswer ch r) replies\<rparr>)"

definition store_block :: "('pk, 's, 'db) core_env \<Rightarrow> 's block \<Rightarrow> ('pk, 's, 'db, unit) core_handler" where
  "store_block env block =
     bind_m (gets_m (\<lambda>s. b_round (last_commit s))) (\<lambda>committed.
     then_m (assert_m (b_round block > committed)
         ''assertion failed: block.round > self.last_commit.round'') (
     then_m (modify_m (update_pending_proposals env block)) (
     then_m (modify_m (\<lambda>s. s\<lparr>uncommitted_blocks := (uncommitted_blocks s)
                               (block_digest (ce_runtime env) block \<mapsto> block)\<rparr>)) (
     then_m (ignore_m (observe_payload block))
       (modify_m (write_block env block))))))"

section \<open>Messages to the proposer\<close>

definition propose_if_leader :: "round \<Rightarrow> 's proposal_trigger \<Rightarrow> ('pk, 's, 'db, unit) core_handler" where
  "propose_if_leader r trigger =
     bind_m (gets_m c_name) (\<lambda>name.
     bind_m (leader_of r) (\<lambda>leader.
       when_m (name = leader) (emit (ToProposer (PropRequest trigger)))))"

definition cleanup_proposals :: "round \<Rightarrow> ('pk, 's, 'db, unit) core_handler" where
  "cleanup_proposals r = emit (ToProposer (Cleanup r))"

definition propose_fallback :: "'s tc \<Rightarrow> ('pk, 's, 'db, unit) core_handler" where
  "propose_fallback tc = propose_if_leader (add64 (tc_round tc) 1) (TriggerTC tc)"

definition propose_normal :: "'s qc \<Rightarrow> ('pk, 's, 'db, unit) core_handler" where
  "propose_normal parent_qc = propose_if_leader (add64 (qc_round parent_qc) 1) (TriggerQC parent_qc)"

section \<open>Voting and quorum certificates\<close>

type_synonym ('pk, 's, 'db) vote_handler = "'s vote \<Rightarrow> ('pk, 's, 'db, unit) core_handler"

definition can_vote :: "('pk, 's, 'db) core \<Rightarrow> 's block \<Rightarrow> bool" where
  "can_vote s b \<longleftrightarrow> last_timeout s < b_round b"

definition send_vote ::
  "('pk, 's, 'db) core_env \<Rightarrow> ('pk, 's, 'db) vote_handler \<Rightarrow> digest \<Rightarrow> round \<Rightarrow> vote_type \<Rightarrow>
   ('pk, 's, 'db, unit) core_handler" where
  "send_vote env hv b r t =
     bind_m (gets_m (\<lambda>s. vote_new (ce_runtime env) (c_name s) b t r)) (\<lambda>vote.
     then_m (emit (SignedVote vote)) (
     then_m (when_m (v_kind vote = Normal) (modify_m (\<lambda>s. s\<lparr>last_vote := vote\<rparr>))) (
     then_m (ignore_m (hv vote))
       (broadcast (VoteMsg vote)))))"

definition send_prepare_vote ::
  "('pk, 's, 'db) core_env \<Rightarrow> ('pk, 's, 'db) vote_handler \<Rightarrow> 's block \<Rightarrow> ('pk, 's, 'db, unit) core_handler" where
  "send_prepare_vote env hv block =
     send_vote env hv (block_digest (ce_runtime env) block) (b_round block) Normal"

definition try_vote ::
  "('pk, 's, 'db) core_env \<Rightarrow> ('pk, 's, 'db) vote_handler \<Rightarrow> ('pk, 's, 'db, unit) core_handler" where
  "try_vote env hv =
     bind_m (gets_m id) (\<lambda>s.
     case pending_proposals s (c_round s) of
       None \<Rightarrow> ret ()
     | Some accepted \<Rightarrow>
         bind_m (lift_m (expect ''Fatal: Block in pending_proposals not in uncommitted_blocks.''
             (uncommitted_blocks s accepted))) (\<lambda>b.
         when_m (c_round s = b_round b \<and> can_vote s b) (send_prepare_vote env hv b)))"

definition advance_to_round ::
  "('pk, 's, 'db) core_env \<Rightarrow> ('pk, 's, 'db) vote_handler \<Rightarrow> round \<Rightarrow> ('pk, 's, 'db, unit) core_handler" where
  "advance_to_round env hv r =
     bind_m (gets_m c_round) (\<lambda>current.
     when_m (r > current) (
       then_m (cleanup_proposals (sub64 r 1)) (
       then_m (modify_m (\<lambda>s. s\<lparr>c_round := r\<rparr>)) (
       then_m timer_reset
         (try_vote env hv)))))"

definition handle_prepare_qc ::
  "('pk, 's, 'db) core_env \<Rightarrow> ('pk, 's, 'db) vote_handler \<Rightarrow> 's qc \<Rightarrow> ('pk, 's, 'db, unit) core_handler" where
  "handle_prepare_qc env hv qc =
     bind_m (gets_m (\<lambda>s. uncommitted_qcs s (qc_round qc) = None)) (\<lambda>is_new.
     when_m is_new (
       then_m (modify_m (\<lambda>s. s\<lparr>uncommitted_qcs := (uncommitted_qcs s)(qc_round qc \<mapsto> qc)\<rparr>)) (
       bind_m (gets_m (\<lambda>s. c_round s < add64 (qc_round qc) 1)) (\<lambda>behind.
       then_m (when_m behind (propose_normal qc)) (
       bind_m (gets_m (\<lambda>s. qc_round (locked s) < qc_round qc)) (\<lambda>higher.
       then_m (when_m higher (
         then_m (modify_m (\<lambda>s. s\<lparr>locked := qc\<rparr>)) (
         then_m (modify_m (\<lambda>s. s\<lparr>c_aggregator := cleanup_timeouts (qc_round (locked s)) (c_aggregator s)\<rparr>)) (
         bind_m (gets_m (\<lambda>s. last_timeout s < qc_round qc)) (\<lambda>may_vote.
           when_m may_vote (send_vote env hv (qc_blk_hash qc) (qc_round qc) Commit)))))) (
       bind_m (get_block env (qc_blk_hash qc) (qc_round qc)) (\<lambda>_.
       then_m (broadcast (QCMsg qc))
         (advance_to_round env hv (add64 (qc_round qc) 1)))))))))) "

definition handle_commit_qc ::
  "('pk, 's, 'db) core_env \<Rightarrow> 's qc \<Rightarrow> ('pk, 's, 'db, unit) core_handler" where
  "handle_commit_qc env qc =
     bind_m (gets_m (\<lambda>s. committable_blocks s (qc_blk_hash qc) = None)) (\<lambda>is_new.
     when_m is_new (
       then_m (schedule_commit env (qc_blk_hash qc) (qc_round qc))
         (modify_m (\<lambda>s. s\<lparr>c_aggregator := cleanup_prepares (qc_round qc) (c_aggregator s)\<rparr>))))"

definition handle_qc ::
  "('pk, 's, 'db) core_env \<Rightarrow> ('pk, 's, 'db) vote_handler \<Rightarrow> 's qc \<Rightarrow> ('pk, 's, 'db, unit) core_handler" where
  "handle_qc env hv qc =
     bind_m (gets_m (\<lambda>s. b_round (last_commit s))) (\<lambda>committed.
     if qc_round qc > committed then
       if qc_kind qc = Commit \<or> qc_fast_quorum qc then handle_commit_qc env qc
       else handle_prepare_qc env hv qc
     else ret ())"

definition on_aggregator ::
  "(('pk, 's) aggregator, 's consensus_error, 'a) handler \<Rightarrow> ('pk, 's, 'db, 'a) core_handler" where
  "on_aggregator m = (\<lambda>s. case m (c_aggregator s) of (r, a) \<Rightarrow> (r, s\<lparr>c_aggregator := a\<rparr>))"

definition handle_vote_step ::
  "('pk::{linorder, ab_group_add}, 's::ab_group_add, 'db) core_env \<Rightarrow> ('pk, 's, 'db) vote_handler \<Rightarrow>
   's vote \<Rightarrow> ('pk, 's, 'db, unit) core_handler" where
  "handle_vote_step env hv vote =
     bind_m (gets_m (\<lambda>s. b_round (last_commit s))) (\<lambda>committed.
     when_m (v_round vote > committed) (
       bind_m (case v_kind vote of
                 Commit \<Rightarrow> on_aggregator (add_commit_vote (ce_runtime env) vote)
               | Normal \<Rightarrow> on_aggregator (add_normal_vote (ce_runtime env) vote)) (\<lambda>maybe_qc.
       case maybe_qc of
         Some qc \<Rightarrow> handle_qc env hv qc
       | None \<Rightarrow> ret ())))"

primrec handle_vote_at ::
  "('pk::{linorder, ab_group_add}, 's::ab_group_add, 'db) core_env \<Rightarrow> nat \<Rightarrow>
   's vote \<Rightarrow> ('pk, 's, 'db, unit) core_handler" where
  "handle_vote_at env 0 = (\<lambda>vote. diverge)"
| "handle_vote_at env (Suc depth) = handle_vote_step env (handle_vote_at env depth)"

definition handle_vote ::
  "('pk::{linorder, ab_group_add}, 's::ab_group_add, 'db) core_env \<Rightarrow>
   's vote \<Rightarrow> ('pk, 's, 'db, unit) core_handler" where
  "handle_vote env = handle_vote_at env (ce_depth env)"

definition handle_wqc :: "'s wqc \<Rightarrow> ('pk, 's, 'db, unit) core_handler" where
  "handle_wqc wqc =
     modify_m (\<lambda>s. if wqc_round (high_wqc s) < wqc_round wqc then s\<lparr>high_wqc := wqc\<rparr> else s)"

section \<open>Timeouts and timeout certificates\<close>

type_synonym ('pk, 's, 'db) timeout_handler = "'s timeout \<Rightarrow> ('pk, 's, 'db, unit) core_handler"

definition send_timeout ::
  "('pk, 's, 'db) core_env \<Rightarrow> ('pk, 's, 'db) timeout_handler \<Rightarrow> round \<Rightarrow> ('pk, 's, 'db, unit) core_handler" where
  "send_timeout env ht r =
     bind_m (gets_m (\<lambda>s. r \<in> timeout_syncs s)) (\<lambda>sent.
     when_m (\<not> sent) (
       bind_m (gets_m (\<lambda>s. timeout_new (ce_runtime env) (last_vote s) (locked s) (high_wqc s) r (c_name s)))
         (\<lambda>timeout.
       then_m (emit (SignedTimeout timeout)) (
       then_m (modify_m (\<lambda>s. s\<lparr>last_timeout := max r (last_timeout s)\<rparr>)) (
       then_m (modify_m (\<lambda>s. s\<lparr>timeout_syncs := insert r (timeout_syncs s)\<rparr>)) (
       then_m timer_reset (
       then_m (ht timeout)
         (broadcast (TimeoutMsg timeout)))))))))"

definition handle_tc ::
  "('pk::{linorder, ab_group_add}, 's::ab_group_add, 'db) core_env \<Rightarrow> ('pk, 's, 'db) timeout_handler \<Rightarrow> 's tc \<Rightarrow>
   ('pk, 's, 'db, unit) core_handler" where
  "handle_tc env ht tc =
     bind_m (gets_m c_round) (\<lambda>current.
     when_m (current < add64 (tc_round tc) 1) (
       then_m (handle_qc env (handle_vote env) (tc_high_qc tc)) (
       then_m (handle_wqc (tc_high_wqc tc)) (
       bind_m (gets_m c_committee) (\<lambda>C.
       then_m (lift_m (tc_is_well_formed (ce_runtime env) C tc)) (
       then_m (propose_fallback tc) (
       bind_m (leader_of (add64 (tc_round tc) 1)) (\<lambda>next_leader.
       then_m (send_to (TCMsg tc) next_leader) (
       then_m (send_timeout env ht (tc_round tc))
         (advance_to_round env (handle_vote env) (add64 (tc_round tc) 1))))))))))) "

definition handle_timeout_step ::
  "('pk::{linorder, ab_group_add}, 's::ab_group_add, 'db) core_env \<Rightarrow> ('pk, 's, 'db) timeout_handler \<Rightarrow>
   's timeout \<Rightarrow> ('pk, 's, 'db, unit) core_handler" where
  "handle_timeout_step env ht timeout =
     (let r = t_round timeout in
      bind_m (gets_m id) (\<lambda>s.
      if r \<le> qc_round (locked s) then
        bind_m (lift_m (author_is_authorised (c_committee s) timeout)) (\<lambda>authorised.
          when_m authorised (sync_peer (t_author timeout)))
      else if r \<ge> c_round s then
        then_m (handle_qc env (handle_vote env) (t_high_qc timeout)) (
        bind_m (on_aggregator (add_timeout (ce_runtime env) timeout)) (\<lambda>(votes, maybe_tc).
        when_m (votes \<ge> validity_threshold (c_committee s)) (
          then_m (send_timeout env ht r)
            (case maybe_tc of
               Some tc \<Rightarrow> handle_tc env ht tc
             | None \<Rightarrow> ret ()))))
      else send_timeout env ht (sub64 (c_round s) 1)))"

primrec handle_timeout_at ::
  "('pk::{linorder, ab_group_add}, 's::ab_group_add, 'db) core_env \<Rightarrow> nat \<Rightarrow>
   's timeout \<Rightarrow> ('pk, 's, 'db, unit) core_handler" where
  "handle_timeout_at env 0 = (\<lambda>timeout. diverge)"
| "handle_timeout_at env (Suc depth) = handle_timeout_step env (handle_timeout_at env depth)"

definition handle_timeout ::
  "('pk::{linorder, ab_group_add}, 's::ab_group_add, 'db) core_env \<Rightarrow>
   's timeout \<Rightarrow> ('pk, 's, 'db, unit) core_handler" where
  "handle_timeout env = handle_timeout_at env (ce_depth env)"

definition local_timeout_round ::
  "('pk::{linorder, ab_group_add}, 's::ab_group_add, 'db) core_env \<Rightarrow> ('pk, 's, 'db, unit) core_handler" where
  "local_timeout_round env =
     then_m (modify_m (\<lambda>s. s\<lparr>timeout_syncs := {}\<rparr>)) (
     bind_m (gets_m c_round) (\<lambda>r. send_timeout env (handle_timeout env) r))"

section \<open>Blocks and proposals\<close>

fun mempool_verify ::
  "('pk::ab_group_add, 's) runtime \<Rightarrow> 'pk committee \<Rightarrow> 's certificate list \<Rightarrow> ('s consensus_error, unit) res" where
  "mempool_verify E C [] = Ok ()"
| "mempool_verify E C (certificate # payload) =
     bind_r (map_err DagErr (certificate_verify E C certificate)) (\<lambda>_. mempool_verify E C payload)"

definition is_non_equivocal_and_certifiable :: "('pk, 's, 'db) core \<Rightarrow> 's block \<Rightarrow> bool" where
  "is_non_equivocal_and_certifiable s block \<longleftrightarrow> pending_proposals s (b_round block) = None"

definition can_accept_block ::
  "('pk::ab_group_add, 's, 'db) core_env \<Rightarrow> 's block \<Rightarrow> ('pk, 's, 'db, bool) core_handler" where
  "can_accept_block env block =
     (let E = ce_runtime env; d = block_digest E block in
      bind_m (gets_m id) (\<lambda>s.
      if b_round block \<le> b_round (last_commit s) then ret False
      else if d \<in> sync_requests s then
        then_m (modify_m (\<lambda>s. s\<lparr>sync_requests := sync_requests s - {d}\<rparr>)) (ret True)
      else case uncommitted_qcs s (b_round block) of
        Some qc \<Rightarrow>
          then_m (assert_m (qc_blk_hash qc \<noteq> d \<or> uncommitted_blocks s d \<noteq> None)
              ''assertion failed: qc.blk_hash != block.digest() || self.uncommitted_blocks.contains_key(&block.digest())'')
            (ret False)
      | None \<Rightarrow>
          bind_m (leader_of (b_round block)) (\<lambda>leader.
          then_m (lift_m (ensure (b_author block = leader) (WrongLeader d (b_author block) (b_round block)))) (
          then_m (if \<not> c_consensus_only s then lift_m (mempool_verify E (c_committee s) (b_payload block))
                  else ret ())
            (ret (is_non_equivocal_and_certifiable s block))))))"

definition process_block ::
  "('pk::{linorder, ab_group_add}, 's::ab_group_add, 'db) core_env \<Rightarrow> 's block \<Rightarrow> ('pk, 's, 'db, unit) core_handler" where
  "process_block env block =
     bind_m (can_accept_block env block) (\<lambda>accepted.
     when_m accepted (
       then_m (store_block env block) (
       then_m (try_commit_or_sync_ancestor env block)
         (try_vote env (handle_vote env)))))"

definition process_normal_proposal ::
  "('pk::{linorder, ab_group_add}, 's::ab_group_add, 'db) core_env \<Rightarrow> 's normal_proposal \<Rightarrow> ('pk, 's, 'db, unit) core_handler" where
  "process_normal_proposal env p =
     then_m (handle_qc env (handle_vote env) (np_qc p)) (
     bind_m (gets_m c_committee) (\<lambda>C.
     then_m (lift_m (np_is_well_formed (ce_runtime env) C p))
       (process_block env (np_block p))))"

definition process_fallback_recovery_proposal ::
  "('pk::{linorder, ab_group_add}, 's::ab_group_add, 'db) core_env \<Rightarrow> 's fallback_recovery_proposal \<Rightarrow>
   ('pk, 's, 'db, unit) core_handler" where
  "process_fallback_recovery_proposal env p =
     then_m (handle_tc env (handle_timeout env) (fp_tc p)) (
     bind_m (gets_m c_committee) (\<lambda>C.
     then_m (lift_m (fp_is_well_formed (ce_runtime env) C p))
       (process_block env (fp_block p))))"

definition handle_proposal ::
  "('pk::{linorder, ab_group_add}, 's::ab_group_add, 'db) core_env \<Rightarrow> 's proposal_message \<Rightarrow> ('pk, 's, 'db, unit) core_handler" where
  "handle_proposal env proposal =
     (case proposal of
        PropF f \<Rightarrow> process_fallback_recovery_proposal env f
      | PropN n \<Rightarrow> process_normal_proposal env n)"

definition handle_sync_response ::
  "('pk, 's, 'db) core_env \<Rightarrow> 's block \<Rightarrow> ('pk, 's, 'db, unit) core_handler" where
  "handle_sync_response env block =
     (let d = block_digest (ce_runtime env) block in
      bind_m (gets_m (\<lambda>s. d \<in> sync_requests s)) (\<lambda>requested.
      then_m (modify_m (\<lambda>s. s\<lparr>sync_requests := sync_requests s - {d}\<rparr>)) (
      bind_m (gets_m (\<lambda>s. b_round (last_commit s))) (\<lambda>committed.
      when_m (requested \<and> b_round block > committed) (
        then_m (store_block env block)
          (try_commit_or_sync_ancestor env block))))))"

definition handle_synchronizer_loopback ::
  "('pk, 's, 'db) core_env \<Rightarrow> 's block \<Rightarrow> ('pk, 's, 'db, unit) core_handler" where
  "handle_synchronizer_loopback env block =
     bind_m (gets_m (\<lambda>s. b_round (last_commit s))) (\<lambda>committed.
       when_m (b_round block > committed) (try_commit_or_sync_ancestor env block))"

definition sanitize_certificate ::
  "('pk::ab_group_add, 's, 'db) core_env \<Rightarrow> 's qc \<Rightarrow> ('pk, 's, 'db, unit) core_handler" where
  "sanitize_certificate env qc =
     bind_m (gets_m id) (\<lambda>s.
     if qc_round qc > b_round (last_commit s) then
       (case qc_kind qc of
          Commit \<Rightarrow>
            if committable_blocks s (qc_blk_hash qc) = None
            then lift_m (qc_is_well_formed (ce_runtime env) (c_committee s) qc) else ret ()
        | Normal \<Rightarrow>
            if uncommitted_qcs s (qc_round qc) = None
            then lift_m (qc_is_well_formed (ce_runtime env) (c_committee s) qc) else ret ())
     else ret ())"

section \<open>The event loop\<close>

text \<open>
  The branches of \<^verbatim>\<open>select!\<close>, plus \<open>StoreTraffic\<close>: a command that another
  task puts on the shared store's channel between two turns of this one.
\<close>

datatype 's core_event =
  RxMessage "'s consensus_message"
| RxProposer "'s proposal_message"
| RxSynchronizer "'s block"
| TimerExpired
| StoreTraffic store_command

definition dispatch_message ::
  "('pk::{linorder, ab_group_add}, 's::ab_group_add, 'db) core_env \<Rightarrow> 's consensus_message \<Rightarrow>
   ('pk, 's, 'db, unit) core_handler" where
  "dispatch_message env m =
     (case m of
        Propose proposal \<Rightarrow> handle_proposal env proposal
      | QCMsg qc \<Rightarrow> then_m (sanitize_certificate env qc) (handle_qc env (handle_vote env) qc)
      | SyncResponse block \<Rightarrow> handle_sync_response env block
      | TCMsg tc \<Rightarrow> handle_tc env (handle_timeout env) tc
      | TimeoutMsg timeout \<Rightarrow> handle_timeout env timeout
      | VoteMsg vote \<Rightarrow> handle_vote env vote
      | _ \<Rightarrow> panic ''Unexpected protocol message'')"

definition other_task :: "('pk, 's, 'db) core_env \<Rightarrow> store_command \<Rightarrow> ('pk, 's, 'db) core \<Rightarrow> ('pk, 's, 'db) core" where
  "other_task env cmd s =
     (let (replies, st) = store_step (ce_rocksdb env) cmd (c_store s)
      in s\<lparr>c_store := st, c_trace := c_trace s @ map (\<lambda>(ch, r). StoreAnswer ch r) replies\<rparr>)"

definition core_select ::
  "('pk::{linorder, ab_group_add}, 's::ab_group_add, 'db) core_env \<Rightarrow> 's core_event \<Rightarrow> ('pk, 's, 'db, unit) core_handler" where
  "core_select env ev =
     (case ev of
        RxMessage m \<Rightarrow> dispatch_message env m
      | RxProposer proposal \<Rightarrow> handle_proposal env proposal
      | RxSynchronizer block \<Rightarrow> handle_synchronizer_loopback env block
      | TimerExpired \<Rightarrow>
          bind_m (gets_m (\<lambda>s. timer_deadline s \<le> c_now s)) (\<lambda>elapsed.
            when_m elapsed (local_timeout_round env))
      | StoreTraffic cmd \<Rightarrow> modify_m (other_task env cmd))"

definition core_start ::
  "('pk, 's, 'db) core_env \<Rightarrow> ('pk, 's, 'db, unit) core_handler" where
  "core_start env = then_m timer_reset (propose_normal (qc_genesis (ce_runtime env)))"

text \<open>
  One turn at time \<open>now\<close>; the clock does not advance within a turn. An error is logged
  and the loop goes on; after a panic (or a call that does not return) the task handles
  nothing any more.
\<close>

definition core_turn ::
  "('pk::{linorder, ab_group_add}, 's::ab_group_add, 'db) core_env \<Rightarrow> nat \<times> 's core_event \<Rightarrow>
   ('pk, 's, 'db, unit) core_handler" where
  "core_turn env = (\<lambda>(now, ev). then_m (modify_m (\<lambda>s. s\<lparr>c_now := max now (c_now s)\<rparr>)) (core_select env ev))"

fun core_run ::
  "('pk::{linorder, ab_group_add}, 's::ab_group_add, 'db) core_env \<Rightarrow> (nat \<times> 's core_event) list \<Rightarrow>
   ('pk, 's, 'db) core \<Rightarrow> ('pk, 's, 'db) core" where
  "core_run env [] s = s"
| "core_run env (ev # evs) s =
     (case core_turn env ev s of
        (Ok _, s') \<Rightarrow> core_run env evs s'
      | (Err _, s') \<Rightarrow> core_run env evs s'
      | (Panic _, s') \<Rightarrow> s'
      | (Diverge, s') \<Rightarrow> s')"

definition core_main ::
  "('pk::{linorder, ab_group_add}, 's::ab_group_add, 'db) core_env \<Rightarrow> (nat \<times> 's core_event) list \<Rightarrow>
   ('pk, 's, 'db) core \<Rightarrow> ('pk, 's, 'db) core" where
  "core_main env evs s =
     (case core_start env s of
        (Ok _, s') \<Rightarrow> core_run env evs s'
      | (_, s') \<Rightarrow> s')"

end
