(* ===== verification/Core_Steps.thy ===== *)
theory Core_Steps
  imports Core
begin

text \<open>
  The atomic transitions of the core. The locale \<open>core_steps\<close> lists, with their guards,
  the updates of the protocol state that the handlers of the core are made of; its lemmas
  show that a relation closed under those updates holds between the states before and
  after every handler, whatever its outcome. An invariant of the core is then proved by
  checking the list once.
\<close>

section \<open>The transitions\<close>

definition neutral_effect :: "'s core_effect \<Rightarrow> bool" where
  "neutral_effect e =
     (case e of CommittedBlock _ \<Rightarrow> False | SignedVote _ \<Rightarrow> False | SignedTimeout _ \<Rightarrow> False
      | ToCommitter _ \<Rightarrow> False | Output _ \<Rightarrow> False | ToMempool _ \<Rightarrow> False | _ \<Rightarrow> True)"

lemma neutral_effect_simps [simp]:
  "neutral_effect (NetBroadcast a m)" "neutral_effect (NetSend x m)" "neutral_effect (ToProposer pm)"
  "\<not> neutral_effect (ToCommitter cs)" "\<not> neutral_effect (Output b)" "\<not> neutral_effect (ToMempool c)"
  "neutral_effect (ToSynchronizer r)" "neutral_effect (StoreAnswer n rep)"
  "\<not> neutral_effect (CommittedBlock b)" "\<not> neutral_effect (SignedVote v)" "\<not> neutral_effect (SignedTimeout t)"
  by (simp_all add: neutral_effect_def)

text \<open>Nothing of the protocol state changes and nothing is signed or committed.\<close>

definition neutral :: "('pk, 's, 'db) core \<Rightarrow> ('pk, 's, 'db) core \<Rightarrow> bool" where
  "neutral s s' \<longleftrightarrow>
     (\<exists>es. list_all neutral_effect es \<and> c_trace s' = c_trace s @ es) \<and>
     c_aggregator s' = c_aggregator s \<and> c_committee s' = c_committee s \<and>
     c_consensus_only s' = c_consensus_only s \<and> last_commit s' = last_commit s \<and>
     last_vote s' = last_vote s \<and> last_timeout s' = last_timeout s \<and>
     c_leader_elector s' = c_leader_elector s \<and> locked s' = locked s \<and> high_wqc s' = high_wqc s \<and>
     c_name s' = c_name s \<and> pending_proposals s' = pending_proposals s \<and> c_round s' = c_round s \<and>
     c_store s' = c_store s \<and> timeout_syncs s' = timeout_syncs s \<and> uncommitted_blocks s' = uncommitted_blocks s \<and>
     uncommitted_qcs s' = uncommitted_qcs s"

lemma neutral_emit: "neutral_effect e \<Longrightarrow> neutral s (s\<lparr>c_trace := c_trace s @ [e]\<rparr>)"
  by (auto simp: neutral_def)

lemma neutral_emits: "list_all neutral_effect es \<Longrightarrow> neutral s (s\<lparr>c_trace := c_trace s @ es\<rparr>)"
  by (auto simp: neutral_def)

definition agg_step ::
  "('pk::{linorder, ab_group_add}, 's::ab_group_add) runtime \<Rightarrow> ('pk, 's) aggregator \<Rightarrow> ('pk, 's) aggregator \<Rightarrow> bool" where
  "agg_step E a a' \<longleftrightarrow>
     (\<exists>v. v_kind v = Commit \<and> a' = snd (add_commit_vote E v a)) \<or>
     (\<exists>v. v_kind v = Normal \<and> a' = snd (add_normal_vote E v a)) \<or>
     (\<exists>t. a' = snd (add_timeout E t a)) \<or>
     (\<exists>r. a' = cleanup_prepares r a) \<or> (\<exists>r. a' = cleanup_timeouts r a)"

text \<open>Each block of the list is the one stored under its successor's parent digest.\<close>

fun drawn :: "(digest \<rightharpoonup> 's block) \<Rightarrow> 's block list \<Rightarrow> bool" where
  "drawn m (a # b # bs) \<longleftrightarrow> m (b_parent b) = Some a \<and> drawn m (b # bs)"
| "drawn m _ \<longleftrightarrow> True"

definition commit_ready ::
  "('pk, 's, 'db) core_env \<Rightarrow> ('pk, 's, 'db) core \<Rightarrow> 's block list \<Rightarrow> 's block \<Rightarrow> (digest \<rightharpoonup> 's block) \<Rightarrow> bool" where
  "commit_ready env s stack block m \<longleftrightarrow>
     stack \<noteq> [] \<and> last stack = block \<and>
     b_parent (hd stack) = block_digest (ce_runtime env) (last_commit s) \<and>
     drawn (uncommitted_blocks s) stack \<and>
     (\<forall>b \<in> set stack. b_round (last_commit s) < b_round b) \<and>
     m \<subseteq>\<^sub>m uncommitted_blocks s"

definition deliver_effects :: "bool \<Rightarrow> 's block list \<Rightarrow> 's core_effect list" where
  "deliver_effects consensus_only stack =
     concat (map (\<lambda>b. CommittedBlock b #
       (if consensus_only then []
        else ToCommitter (b_payload b) # Output b # map ToMempool (b_payload b))) stack)"

section \<open>The commit, as one transition\<close>

lemma drawn_Cons: "drawn m (a # bs) \<longleftrightarrow> (bs = [] \<or> m (b_parent (hd bs)) = Some a \<and> drawn m bs)"
  by (cases bs) auto

lemma map_le_Some: "m \<subseteq>\<^sub>m m' \<Longrightarrow> m k = Some v \<Longrightarrow> m' k = Some v"
  by (metis domI map_le_def)

lemma map_le_remove: "m \<subseteq>\<^sub>m m'(k := None) \<Longrightarrow> m \<subseteq>\<^sub>m m'"
  unfolding map_le_def by (metis domIff fun_upd_apply)

text \<open>
  The loop starts with \<open>ancestor\<close> on a stack that already holds its descendants. It only
  removes blocks from the index, and if it ends normally the stack is a chain down to a
  child of the last committed block.
\<close>

lemma commit_loop_spec:
  fixes s :: "('pk, 's, 'db) core"
  assumes "drawn M (ancestor # to_commit)" "uncommitted_blocks s \<subseteq>\<^sub>m M"
    and "\<forall>b \<in> set (ancestor # to_commit). b_round (last_commit s) < b_round b"
  shows "\<exists>m. m \<subseteq>\<^sub>m uncommitted_blocks s \<and>
      snd (commit_loop env fuel ancestor to_commit s) = s\<lparr>uncommitted_blocks := m\<rparr> \<and>
      (\<forall>stack. fst (commit_loop env fuel ancestor to_commit s) = Ok stack \<longrightarrow>
         commit_ready env (s\<lparr>uncommitted_blocks := M\<rparr>) stack (last (ancestor # to_commit)) m)"
  using assms
proof (induction fuel arbitrary: ancestor to_commit s)
  case 0
  then show ?case
    by (intro exI [of _ "uncommitted_blocks s"]) (simp add: diverge_def)
next
  case (Suc fuel)
  let ?done = "b_parent ancestor = block_digest (ce_runtime env) (last_commit s)"
  show ?case
  proof (cases "?done \<or> uncommitted_blocks s (b_parent ancestor) = None")
    case True
    then show ?thesis using Suc.prems
      by (intro exI [of _ "uncommitted_blocks s"])
        (auto simp: bind_m_def gets_m_def ret_def panic_def commit_ready_def)
  next
    case False
    then obtain parent where nd: "\<not> ?done" and p: "uncommitted_blocks s (b_parent ancestor) = Some parent" by blast
    define s1 where "s1 = s\<lparr>uncommitted_blocks := (uncommitted_blocks s)(b_parent ancestor := None)\<rparr>"
    have le: "uncommitted_blocks s1 \<subseteq>\<^sub>m uncommitted_blocks s" by (simp add: s1_def map_le_def)
    have step: "commit_loop env (Suc fuel) ancestor to_commit s =
        then_m (assert_m (b_round parent > b_round (last_commit s))
          ''assertion failed: ancestor.round > self.last_commit.round'')
          (commit_loop env fuel parent (ancestor # to_commit)) s1"
      using nd p by (simp add: bind_m_def gets_m_def then_m_def modify_m_def s1_def)
    show ?thesis
    proof (cases "b_round parent > b_round (last_commit s)")
      case True
      have "drawn M (parent # ancestor # to_commit)"
        using Suc.prems(1) map_le_Some [OF Suc.prems(2) p] by simp
      moreover have "uncommitted_blocks s1 \<subseteq>\<^sub>m M" using le Suc.prems(2) by (rule map_le_trans)
      moreover have "\<forall>b \<in> set (parent # ancestor # to_commit). b_round (last_commit s1) < b_round b"
        using Suc.prems(3) True by (simp add: s1_def)
      ultimately obtain m where m: "m \<subseteq>\<^sub>m uncommitted_blocks s1"
        "snd (commit_loop env fuel parent (ancestor # to_commit) s1) = s1\<lparr>uncommitted_blocks := m\<rparr>"
        "\<forall>stack. fst (commit_loop env fuel parent (ancestor # to_commit) s1) = Ok stack \<longrightarrow>
           commit_ready env (s1\<lparr>uncommitted_blocks := M\<rparr>) stack (last (parent # ancestor # to_commit)) m"
        using Suc.IH by blast
      have run: "commit_loop env (Suc fuel) ancestor to_commit s =
          commit_loop env fuel parent (ancestor # to_commit) s1"
        using step True by (simp add: then_m_def assert_m_def)
      have upd: "s1\<lparr>uncommitted_blocks := x\<rparr> = s\<lparr>uncommitted_blocks := x\<rparr>" for x
        by (simp add: s1_def)
      have last: "last (parent # ancestor # to_commit) = last (ancestor # to_commit)" by simp
      show ?thesis unfolding run
        by (intro exI [of _ m] conjI map_le_trans [OF m(1) le] m(2) [unfolded upd]
            m(3) [unfolded upd last])
    next
      case False
      then have run: "commit_loop env (Suc fuel) ancestor to_commit s =
          (Panic ''assertion failed: ancestor.round > self.last_commit.round'', s1)"
        unfolding step by (simp only: then_m_def assert_m_def panic_def bind_m_def if_False) simp
      have "s1 = s\<lparr>uncommitted_blocks := uncommitted_blocks s1\<rparr>" by (simp add: s1_def)
      with le show ?thesis unfolding run
        by (intro exI [of _ "uncommitted_blocks s1"]) simp
    qed
  qed
qed

lemma deliver_eq:
  "deliver stack s = (Ok (), s\<lparr>c_trace := c_trace s @ deliver_effects (c_consensus_only s) stack\<rparr>)"
proof (induction stack arbitrary: s)
  case Nil
  then show ?case by (simp add: ret_def deliver_effects_def)
next
  case (Cons b stack)
  then show ?case
    by (simp add: emit_def mempool_cleanup_def then_m_def bind_m_def gets_m_def modify_m_def
        when_m_def ret_def deliver_effects_def)
qed

lemma commit_cases:
  fixes s :: "('pk, 's, 'db) core"
  obtains (unchanged) "snd (commit env block s) = s"
  | (aborted) m where "m \<subseteq>\<^sub>m uncommitted_blocks s" "\<forall>u. fst (commit env block s) \<noteq> Ok u"
      "snd (commit env block s) = s\<lparr>uncommitted_blocks := m\<rparr>"
  | (committed) stack m where "commit_ready env s stack block m"
      "commit env block s = (Ok (), record_commit block
         (s\<lparr>uncommitted_blocks := m,
            c_trace := c_trace s @ deliver_effects (c_consensus_only s) stack\<rparr>))"
proof (cases "b_round block = 0 \<or> \<not> b_round block > b_round (last_commit s)")
  case True
  then have "snd (commit env block s) = s"
    by (auto simp: commit_def ret_def bind_m_def gets_m_def then_m_def assert_m_def panic_def)
  then show ?thesis by (rule unchanged)
next
  case False
  let ?loop = "commit_loop env (ce_loop_fuel env) block [] s"
  have run: "commit env block s =
      bind_m (commit_loop env (ce_loop_fuel env) block [])
        (\<lambda>to_commit. then_m (deliver to_commit) (modify_m (record_commit block))) s"
    using False by (simp add: commit_def bind_m_def gets_m_def then_m_def assert_m_def ret_def)
  obtain m where m: "m \<subseteq>\<^sub>m uncommitted_blocks s" "snd ?loop = s\<lparr>uncommitted_blocks := m\<rparr>"
    "\<forall>stack. fst ?loop = Ok stack \<longrightarrow> commit_ready env s stack block m"
    using commit_loop_spec [of "uncommitted_blocks s" block "[]" s env "ce_loop_fuel env"] False by auto
  show ?thesis
  proof (cases "fst ?loop")
    case (Ok stack)
    with m have loop: "?loop = (Ok stack, s\<lparr>uncommitted_blocks := m\<rparr>)" by (simp add: prod_eq_iff)
    show ?thesis
    proof (rule committed [of stack m])
      show "commit_ready env s stack block m" using m(3) Ok by blast
      show "commit env block s = (Ok (), record_commit block
         (s\<lparr>uncommitted_blocks := m, c_trace := c_trace s @ deliver_effects (c_consensus_only s) stack\<rparr>))"
        unfolding run using loop by (simp add: deliver_eq then_m_def bind_m_def modify_m_def)
    qed
  next
    case (Err e)
    with m have "?loop = (Err e, s\<lparr>uncommitted_blocks := m\<rparr>)" by (simp add: prod_eq_iff)
    then have "commit env block s = (Err e, s\<lparr>uncommitted_blocks := m\<rparr>)"
      unfolding run by (rule bind_m_fail)
    then show ?thesis by (intro aborted [OF m(1)]) simp_all
  next
    case (Panic msg)
    with m have "?loop = (Panic msg, s\<lparr>uncommitted_blocks := m\<rparr>)" by (simp add: prod_eq_iff)
    then have "commit env block s = (Panic msg, s\<lparr>uncommitted_blocks := m\<rparr>)"
      unfolding run by (rule bind_m_fail)
    then show ?thesis by (intro aborted [OF m(1)]) simp_all
  next
    case Diverge
    with m have "?loop = (Diverge, s\<lparr>uncommitted_blocks := m\<rparr>)" by (simp add: prod_eq_iff)
    then have "commit env block s = (Diverge, s\<lparr>uncommitted_blocks := m\<rparr>)"
      unfolding run by (rule bind_m_fail)
    then show ?thesis by (intro aborted [OF m(1)]) simp_all
  qed
qed

section \<open>The locale of atomic transitions\<close>

locale core_vote_steps = evolution R
  for R :: "('pk::{linorder, ab_group_add}, 's::ab_group_add, 'db) core \<Rightarrow> ('pk, 's, 'db) core \<Rightarrow> bool" +
  fixes env :: "('pk, 's, 'db) core_env"
  assumes neutral_step: "neutral s s' \<Longrightarrow> R s s'"
    and aggregator_step: "agg_step (ce_runtime env) (c_aggregator s) a \<Longrightarrow> R s (s\<lparr>c_aggregator := a\<rparr>)"
    and wqc_step: "wqc_round (high_wqc s) < wqc_round w \<Longrightarrow> R s (s\<lparr>high_wqc := w\<rparr>)"
    and enter_step: "c_round s < r \<Longrightarrow> R s (s\<lparr>c_round := r\<rparr>)"
    and qc_step: "uncommitted_qcs s (qc_round q) = None \<Longrightarrow> b_round (last_commit s) < qc_round q \<Longrightarrow>
      R s (s\<lparr>uncommitted_qcs := (uncommitted_qcs s)(qc_round q \<mapsto> q)\<rparr>)"
    and lock_step: "qc_round (locked s) < qc_round q \<Longrightarrow>
      R s (s\<lparr>locked := q, c_aggregator := cleanup_timeouts (qc_round q) (c_aggregator s)\<rparr>)"
    and commit_vote_step: "qc_round (locked s) < qc_round q \<Longrightarrow> last_timeout s < qc_round q \<Longrightarrow>
      R s (s\<lparr>locked := q, c_aggregator := cleanup_timeouts (qc_round q) (c_aggregator s),
             c_trace := c_trace s @ [SignedVote (vote_new (ce_runtime env) (c_name s) (qc_blk_hash q) Commit (qc_round q))]\<rparr>)"
    and normal_vote_step: "pending_proposals s (b_round b) = Some d \<Longrightarrow> uncommitted_blocks s d = Some b \<Longrightarrow>
      c_round s = b_round b \<Longrightarrow> last_timeout s < b_round b \<Longrightarrow>
      v = vote_new (ce_runtime env) (c_name s) (block_digest (ce_runtime env) b) Normal (b_round b) \<Longrightarrow>
      R s (s\<lparr>c_trace := c_trace s @ [SignedVote v], last_vote := v\<rparr>)"
    and timeout_step: "r \<notin> timeout_syncs s \<Longrightarrow>
      R s (s\<lparr>c_trace := c_trace s @ [SignedTimeout
               (timeout_new (ce_runtime env) (last_vote s) (locked s) (high_wqc s) r (c_name s))],
             last_timeout := max r (last_timeout s), timeout_syncs := insert r (timeout_syncs s)\<rparr>)"
    and shrink_step: "m \<subseteq>\<^sub>m uncommitted_blocks s \<Longrightarrow> R s (s\<lparr>uncommitted_blocks := m\<rparr>)"
    and commit_step: "commit_ready env s stack block m \<Longrightarrow>
      R s (record_commit block (s\<lparr>uncommitted_blocks := m,
             c_trace := c_trace s @ deliver_effects (c_consensus_only s) stack\<rparr>))"
begin

lemma steps_emit: "neutral_effect e \<Longrightarrow> steps R (emit e)"
  unfolding emit_def by (intro steps_modify neutral_step neutral_emit)

lemma steps_timer_reset: "steps R timer_reset"
  unfolding timer_reset_def by (intro steps_modify neutral_step) (auto simp: neutral_def)

lemma steps_leader_of: "steps R (leader_of r)"
  unfolding leader_of_def by (intro steps_intros)

lemma steps_broadcast: "steps R (broadcast m)"
  unfolding broadcast_def by (intro steps_intros steps_emit) simp

lemma steps_consensus_address: "steps R (consensus_address msg recipient)"
  unfolding consensus_address_def by (intro steps_intros) (simp split: res.split add: steps_intros)

lemma steps_send_to: "steps R (send_to m recipient)"
  unfolding send_to_def by (intro steps_intros steps_emit steps_consensus_address) simp

lemma steps_sync_call: "steps R (sync_call env d server resume_from)"
proof -
  have "steps R (modify_m (\<lambda>s. s\<lparr>c_trace := c_trace s @ map ToSynchronizer requests\<rparr>))" for requests
    by (intro steps_modify neutral_step neutral_emits) (simp add: list_all_iff)
  then show ?thesis
    unfolding sync_call_def by (intro steps_bind steps_gets) (auto intro: steps_intros)
qed

lemma steps_sync_request: "steps R (modify_m (\<lambda>s. s\<lparr>sync_requests := f (sync_requests s)\<rparr>))"
  by (intro steps_modify neutral_step) (simp add: neutral_def)

lemma steps_get_block: "steps R (get_block env d r)"
  unfolding get_block_def by (intro steps_intros steps_leader_of steps_sync_call steps_sync_request)

lemma steps_ancestors_loop: "steps R (ancestors_loop env block fuel b)"
  by (induction fuel arbitrary: b)
    (simp_all, (intro steps_intros steps_sync_call steps_sync_request | assumption)+)

lemma steps_have_all_ancestors: "steps R (have_all_ancestors env block)"
  unfolding have_all_ancestors_def by (intro steps_intros steps_ancestors_loop)

lemma steps_commit: "steps R (commit env block)"
proof (rule stepsI)
  fix s
  show "R s (snd (commit env block s))"
    by (cases rule: commit_cases [of env block s])
      (auto simp: evo_refl intro: shrink_step commit_step)
qed

lemma steps_try_commit: "steps R (try_commit_or_sync_ancestor env block)"
  unfolding try_commit_or_sync_ancestor_def
  by (intro steps_intros steps_have_all_ancestors steps_commit)

lemma steps_schedule_commit: "steps R (schedule_commit env d r)"
proof -
  have "steps R (modify_m (\<lambda>s. s\<lparr>committable_blocks := (committable_blocks s)(d \<mapsto> r)\<rparr>))"
    by (intro steps_modify neutral_step) (simp add: neutral_def)
  then show ?thesis unfolding schedule_commit_def
    by (intro steps_intros steps_have_all_ancestors steps_commit)
qed

lemma steps_sync_peer: "steps R (sync_peer recipient)"
proof -
  have "steps R (modify_m (\<lambda>s. s\<lparr>qc_syncs := (qc_syncs s)(recipient \<mapsto> c_now s)\<rparr>))"
    by (intro steps_modify neutral_step) (simp add: neutral_def)
  then show ?thesis unfolding sync_peer_def Let_def
    by (intro steps_intros steps_consensus_address steps_emit) simp_all
qed

lemma steps_propose_if_leader: "steps R (propose_if_leader r trigger)"
  unfolding propose_if_leader_def by (intro steps_intros steps_leader_of steps_emit) simp

lemma steps_propose_normal: "steps R (propose_normal q)"
  unfolding propose_normal_def by (rule steps_propose_if_leader)

lemma steps_propose_fallback: "steps R (propose_fallback tc)"
  unfolding propose_fallback_def by (rule steps_propose_if_leader)

lemma steps_cleanup_proposals: "steps R (cleanup_proposals r)"
  unfolding cleanup_proposals_def by (simp add: steps_emit)

lemma steps_on_aggregator:
  "(\<And>a. agg_step (ce_runtime env) a (snd (m a))) \<Longrightarrow> steps R (on_aggregator m)"
  by (rule stepsI) (simp add: on_aggregator_def aggregator_step split: prod.split, metis snd_conv aggregator_step)

lemma steps_cleanup_prepares:
  "steps R (modify_m (\<lambda>s. s\<lparr>c_aggregator := cleanup_prepares r (c_aggregator s)\<rparr>))"
  by (intro steps_modify aggregator_step) (auto simp: agg_step_def)

lemma steps_handle_commit_qc: "steps R (handle_commit_qc env qc)"
  unfolding handle_commit_qc_def by (intro steps_intros steps_schedule_commit steps_cleanup_prepares)

lemma steps_handle_wqc: "steps R (handle_wqc w)"
  unfolding handle_wqc_def by (intro steps_modify) (simp add: evo_refl wqc_step)


text \<open>The methods between two calls of \<^verbatim>\<open>handle_vote\<close>.\<close>

lemma at_send_vote:
  assumes "\<And>v. steps R (hv v)"
    and "v = vote_new (ce_runtime env) (c_name s) b t r"
    and "R s' (s\<lparr>c_trace := c_trace s @ [SignedVote v], last_vote := (if t = Normal then v else last_vote s)\<rparr>)"
    (is "R s' ?s1")
  shows "R s' (snd (send_vote env hv b r t s))"
proof -
  have "snd (send_vote env hv b r t s) = snd (then_m (ignore_m (hv v)) (broadcast (VoteMsg v)) ?s1)"
    unfolding send_vote_def using assms(2)
    by (simp add: then_m_def emit_def bind_m_def gets_m_def modify_m_def when_m_def ret_def)
  moreover have "steps R (then_m (ignore_m (hv v)) (broadcast (VoteMsg v)))"
    by (intro steps_intros steps_broadcast assms(1))
  ultimately show ?thesis using evo_trans [OF assms(3)] by (simp add: steps_def)
qed

lemma steps_try_vote:
  assumes hv: "\<And>v. steps R (hv v)"
  shows "steps R (try_vote env hv)"
proof (rule steps_of_at)
  fix s
  have "steps_at R (send_prepare_vote env hv b) s"
    if "pending_proposals s (c_round s) = Some d" "uncommitted_blocks s d = Some b"
      "c_round s = b_round b \<and> can_vote s b" for b d
    using that normal_vote_step [of s b d]
    by (auto simp: steps_at_def send_prepare_vote_def can_vote_def intro!: at_send_vote [OF hv refl])
  then show "steps_at R (try_vote env hv) s"
    unfolding try_vote_def by (intro at_intros at_ret) auto
qed

lemma steps_advance_to_round:
  assumes hv: "\<And>v. steps R (hv v)"
  shows "steps R (advance_to_round env hv r)"
proof (rule steps_of_at)
  fix s
  show "steps_at R (advance_to_round env hv r) s"
  proof -
    have "steps R (then_m timer_reset (try_vote env hv))"
      by (intro steps_intros steps_timer_reset steps_try_vote hv)
    moreover have "R (s\<lparr>c_trace := t\<rparr>) (s\<lparr>c_trace := t, c_round := r\<rparr>)" if "c_round s < r" for t
      using enter_step [of "s\<lparr>c_trace := t\<rparr>" r] that by simp
    ultimately show ?thesis
      unfolding advance_to_round_def cleanup_proposals_def emit_def
      by (intro at_intros at_modify_then at_steps) (auto intro!: neutral_step neutral_emit)
  qed
qed

lemma steps_lock_and_vote:
  assumes hv: "\<And>v. steps R (hv v)" and higher: "qc_round (locked s) < qc_round qc"
  shows "steps_at R (then_m (modify_m (\<lambda>s. s\<lparr>locked := qc\<rparr>)) (
         then_m (modify_m (\<lambda>s. s\<lparr>c_aggregator := cleanup_timeouts (qc_round (locked s)) (c_aggregator s)\<rparr>)) (
         bind_m (gets_m (\<lambda>s. last_timeout s < qc_round qc)) (\<lambda>may_vote.
           when_m may_vote (send_vote env hv (qc_blk_hash qc) (qc_round qc) Commit))))) s"
    (is "steps_at R ?m s")
proof -
  define s1 where "s1 = s\<lparr>locked := qc, c_aggregator := cleanup_timeouts (qc_round qc) (c_aggregator s)\<rparr>"
  have run: "?m s = (if last_timeout s < qc_round qc
      then send_vote env hv (qc_blk_hash qc) (qc_round qc) Commit s1 else (Ok (), s1))"
    by (simp add: then_m_def bind_m_def modify_m_def gets_m_def when_m_def ret_def s1_def)
  have "R s (snd (send_vote env hv (qc_blk_hash qc) (qc_round qc) Commit s1))" if "last_timeout s < qc_round qc"
    using commit_vote_step [OF higher that] by (intro at_send_vote [OF hv refl]) (simp add: s1_def)
  then show ?thesis unfolding steps_at_def run
    using lock_step [OF higher] by (simp add: s1_def)
qed

lemma at_handle_prepare_qc:
  assumes hv: "\<And>v. steps R (hv v)" and recent: "b_round (last_commit s) < qc_round qc"
  shows "steps_at R (handle_prepare_qc env hv qc) s"
proof -
  have lock: "steps R (bind_m (gets_m (\<lambda>s. qc_round (locked s) < qc_round qc)) (\<lambda>higher.
       then_m (when_m higher (
         then_m (modify_m (\<lambda>s. s\<lparr>locked := qc\<rparr>)) (
         then_m (modify_m (\<lambda>s. s\<lparr>c_aggregator := cleanup_timeouts (qc_round (locked s)) (c_aggregator s)\<rparr>)) (
         bind_m (gets_m (\<lambda>s. last_timeout s < qc_round qc)) (\<lambda>may_vote.
           when_m may_vote (send_vote env hv (qc_blk_hash qc) (qc_round qc) Commit)))))) (
       bind_m (get_block env (qc_blk_hash qc) (qc_round qc)) (\<lambda>_.
       then_m (broadcast (QCMsg qc))
         (advance_to_round env hv (add64 (qc_round qc) 1))))))"
    by (intro steps_of_at at_gets at_then at_when steps_lock_and_vote [OF hv] steps_bind steps_then
        steps_get_block steps_broadcast steps_advance_to_round [OF hv])
  show ?thesis
    unfolding handle_prepare_qc_def
    using qc_step [of s qc] recent
    by (intro at_intros at_modify_then at_steps steps_bind steps_gets steps_then steps_when
        steps_propose_normal lock) auto
qed

lemma steps_handle_qc:
  assumes hv: "\<And>v. steps R (hv v)"
  shows "steps R (handle_qc env hv qc)"
  unfolding handle_qc_def
  by (intro steps_of_at at_intros at_handle_prepare_qc [OF hv] at_steps [OF steps_handle_commit_qc] at_ret)

lemma steps_handle_vote_step:
  assumes hv: "\<And>v. steps R (hv v)"
  shows "steps R (handle_vote_step env hv vote)"
proof -
  have "steps R (case v_kind vote of
                 Commit \<Rightarrow> on_aggregator (add_commit_vote (ce_runtime env) vote)
               | Normal \<Rightarrow> on_aggregator (add_normal_vote (ce_runtime env) vote))"
    by (cases "v_kind vote") (auto intro!: steps_on_aggregator simp: agg_step_def)
  then show ?thesis unfolding handle_vote_step_def
    by (intro steps_intros steps_handle_qc hv)
qed

lemma steps_handle_vote_at: "steps R (handle_vote_at env depth vote)"
  by (induction depth arbitrary: vote) (simp_all add: steps_diverge steps_handle_vote_step)

lemma steps_handle_vote: "steps R (handle_vote env vote)"
  unfolding handle_vote_def by (rule steps_handle_vote_at)

text \<open>The methods between two calls of \<^verbatim>\<open>handle_timeout\<close>.\<close>

lemma steps_send_timeout:
  assumes ht: "\<And>t. steps R (ht t)"
  shows "steps R (send_timeout env ht r)"
proof (rule steps_of_at)
  fix s
  show "steps_at R (send_timeout env ht r) s"
    unfolding send_timeout_def emit_def modify_fuse
    by (intro at_intros at_modify_then at_steps steps_then steps_timer_reset ht steps_broadcast)
      (simp add: timeout_step)
qed

lemma steps_handle_tc:
  assumes ht: "\<And>t. steps R (ht t)"
  shows "steps R (handle_tc env ht tc)"
  unfolding handle_tc_def
  by (intro steps_intros steps_handle_qc steps_handle_vote steps_handle_wqc steps_propose_fallback
      steps_leader_of steps_send_to steps_send_timeout ht steps_advance_to_round)

lemma steps_handle_timeout_step:
  assumes ht: "\<And>t. steps R (ht t)"
  shows "steps R (handle_timeout_step env ht timeout)"
proof -
  have "steps R (on_aggregator (add_timeout (ce_runtime env) timeout))"
    by (rule steps_on_aggregator) (auto simp: agg_step_def)
  moreover have "steps R (when_m b (then_m (send_timeout env ht r)
      (case maybe_tc of Some tc \<Rightarrow> handle_tc env ht tc | None \<Rightarrow> ret ())))" for b r maybe_tc
    by (intro steps_intros steps_send_timeout ht steps_handle_tc)
  ultimately show ?thesis unfolding handle_timeout_step_def Let_def
    by (intro steps_bind steps_gets steps_if steps_lift steps_when steps_sync_peer steps_then
        steps_handle_qc steps_handle_vote steps_send_timeout ht)
      (auto split: prod.split)
qed

lemma steps_handle_timeout_at: "steps R (handle_timeout_at env depth timeout)"
  by (induction depth arbitrary: timeout) (simp_all add: steps_diverge steps_handle_timeout_step)

lemma steps_handle_timeout: "steps R (handle_timeout env timeout)"
  unfolding handle_timeout_def by (rule steps_handle_timeout_at)

text \<open>Checks that touch no protocol state, and the start of the task.\<close>

lemma steps_can_accept_block: "steps R (can_accept_block env block)"
  unfolding can_accept_block_def Let_def
  by (intro steps_intros steps_leader_of steps_sync_request)

lemma steps_core_start: "steps R (core_start env)"
  unfolding core_start_def by (intro steps_intros steps_timer_reset steps_propose_normal)

end

text \<open>Handlers that may also accept a block, and the other tasks that use the store.\<close>

locale core_steps = core_vote_steps +
  assumes accept_step: "b_round (last_commit s) < b_round b \<Longrightarrow>
      R s ((update_pending_proposals env b s)
             \<lparr>uncommitted_blocks := (uncommitted_blocks s)(block_digest (ce_runtime env) b \<mapsto> b)\<rparr>)"
    and store_traffic: "R s (s\<lparr>c_store := st, c_trace := c_trace s @ map (\<lambda>(ch, r). StoreAnswer ch r) replies\<rparr>)"
begin

lemma steps_write_block: "steps R (modify_m (write_block env block))"
proof (intro steps_modify)
  fix s
  show "R s (write_block env block s)"
    by (cases "store_write (ce_rocksdb env) (to_vec (block_digest (ce_runtime env) block)) (ce_ser env block) (c_store s)")
      (simp add: write_block_def store_traffic)
qed

lemma steps_store_block: "steps R (store_block env block)"
proof (rule steps_of_at)
  fix s
  have "steps R (then_m (ignore_m (observe_payload block)) (modify_m (write_block env block)))"
    unfolding observe_payload_def by (intro steps_intros steps_emit steps_write_block) simp
  then show "steps_at R (store_block env block) s"
    unfolding store_block_def modify_fuse
    by (intro at_intros at_modify_then at_steps)
      (auto dest!: accept_step [of s block] simp: update_pending_proposals_def)
qed

lemma steps_process_block: "steps R (process_block env block)"
  unfolding process_block_def
  by (intro steps_intros steps_can_accept_block steps_store_block steps_try_commit steps_try_vote
      steps_handle_vote)

lemma steps_handle_proposal: "steps R (handle_proposal env proposal)"
  unfolding handle_proposal_def process_normal_proposal_def process_fallback_recovery_proposal_def
  by (cases proposal)
    (simp_all, (intro steps_intros steps_handle_qc steps_handle_vote steps_handle_tc
      steps_handle_timeout steps_process_block)+)

lemma steps_handle_sync_response: "steps R (handle_sync_response env block)"
  unfolding handle_sync_response_def Let_def
  by (intro steps_intros steps_sync_request steps_store_block steps_try_commit)

lemma steps_handle_synchronizer_loopback: "steps R (handle_synchronizer_loopback env block)"
  unfolding handle_synchronizer_loopback_def by (intro steps_intros steps_try_commit)

lemma steps_sanitize_certificate: "steps R (sanitize_certificate env qc)"
  unfolding sanitize_certificate_def
  by (intro steps_intros) (simp split: vote_type.split add: steps_intros)

lemma steps_dispatch_message: "steps R (dispatch_message env m)"
  unfolding dispatch_message_def
  by (cases m) (simp_all add: steps_handle_proposal steps_then steps_sanitize_certificate
      steps_handle_qc steps_handle_vote steps_handle_sync_response steps_handle_tc
      steps_handle_timeout steps_panic)

lemma steps_other_task: "steps R (modify_m (other_task env cmd))"
proof (intro steps_modify)
  fix s
  show "R s (other_task env cmd s)"
    by (cases "store_step (ce_rocksdb env) cmd (c_store s)")
      (simp add: other_task_def store_traffic)
qed

end

text \<open>
  Only the expiry of the round timer empties \<^verbatim>\<open>timeout_syncs\<close>, so it is a
  transition of the event loop and not of the handlers below it.
\<close>

locale core_loop_steps = core_steps +
  assumes clear_step: "R s (s\<lparr>timeout_syncs := {}\<rparr>)"
begin

lemma steps_local_timeout_round: "steps R (local_timeout_round env)"
  unfolding local_timeout_round_def
  by (intro steps_intros steps_modify clear_step steps_send_timeout steps_handle_timeout)

lemma steps_core_turn: "steps R (core_turn env nev)"
proof -
  obtain now ev where nev: "nev = (now, ev)" by (cases nev)
  have "steps R (core_select env ev)"
    unfolding core_select_def
    by (cases ev) (simp_all add: steps_dispatch_message steps_handle_proposal
        steps_handle_synchronizer_loopback steps_other_task steps_bind steps_gets steps_when
        steps_local_timeout_round)
  then show ?thesis unfolding core_turn_def nev prod.case
    by (intro steps_then steps_modify neutral_step) (simp_all add: neutral_def)
qed

lemma run_evolves: "R s (core_run env evs s)"
proof (induction evs arbitrary: s)
  case Nil
  then show ?case by (simp add: evo_refl)
next
  case (Cons ev evs)
  have "R s (snd (core_turn env ev s))" by (rule stepsD [OF steps_core_turn])
  with Cons.IH show ?case
    by (auto split: prod.split res.split intro: evo_trans)
qed

lemma main_evolves: "R s (core_main env evs s)"
  using stepsD [OF steps_core_start, of s] run_evolves
  by (auto simp: core_main_def split: prod.split res.split intro: evo_trans)

end

end
