(* ===== verification/Core_Safety.thy ===== *)
theory Core_Safety
  imports Core_Steps
begin

text \<open>
  What one replica promises, whatever messages it receives and in whatever order: its
  state only moves forward, it never signs two conflicting votes, its timeouts report what
  it voted for before, and the blocks it commits form one chain from the genesis block.
  Each is an instance of the locales of atomic transitions.
\<close>

section \<open>Monotonicity\<close>

definition progress :: "('pk, 's, 'db) core \<Rightarrow> ('pk, 's, 'db) core \<Rightarrow> bool" where
  "progress s s' \<longleftrightarrow>
     c_name s' = c_name s \<and> c_committee s' = c_committee s \<and>
     c_consensus_only s' = c_consensus_only s \<and>
     b_round (last_commit s) \<le> b_round (last_commit s') \<and>
     qc_round (locked s) \<le> qc_round (locked s') \<and>
     wqc_round (high_wqc s) \<le> wqc_round (high_wqc s') \<and>
     last_timeout s \<le> last_timeout s' \<and> c_round s \<le> c_round s' \<and>
     (\<exists>es. c_trace s' = c_trace s @ es)"

lemma commit_ready_last: "commit_ready env s stack block m \<Longrightarrow> b_round (last_commit s) < b_round block"
  by (auto simp: commit_ready_def)

interpretation forward: core_loop_steps progress env for env
proof unfold_locales
  show "progress s s" for s :: "('pk, 's, 'db) core"
    by (simp add: progress_def)
  show "progress s t \<Longrightarrow> progress t u \<Longrightarrow> progress s u" for s t u :: "('pk, 's, 'db) core"
    by (auto simp: progress_def)
  show "commit_ready env s stack block m \<Longrightarrow>
      progress s (record_commit block (s\<lparr>uncommitted_blocks := m,
        c_trace := c_trace s @ deliver_effects (c_consensus_only s) stack\<rparr>))"
    for env and s :: "('pk, 's, 'db) core" and stack block m
    by (drule commit_ready_last) (simp add: progress_def record_commit_def)
qed (auto simp: progress_def neutral_def update_pending_proposals_def)

section \<open>Votes and timeouts\<close>

text \<open>
  \<open>may_precede e e'\<close>: the replica may sign \<open>e'\<close> after \<open>e\<close>. Two prepare votes of one
  round are for one block; commit votes have increasing rounds; nothing is voted for in a
  round that was timed out; a timeout reports a QC and a vote at least as recent as every
  commit vote and prepare vote before it.
\<close>

fun may_precede :: "'s core_effect \<Rightarrow> 's core_effect \<Rightarrow> bool" where
  "may_precede (SignedVote v) (SignedVote w) \<longleftrightarrow>
     (case (v_kind v, v_kind w) of
        (Commit, Commit) \<Rightarrow> v_round v < v_round w
      | (Normal, Normal) \<Rightarrow> v_round v \<le> v_round w \<and> (v_round v = v_round w \<longrightarrow> v = w)
      | _ \<Rightarrow> True)"
| "may_precede (SignedTimeout t) (SignedVote v) \<longleftrightarrow> t_round t < v_round v"
| "may_precede (SignedVote v) (SignedTimeout t) \<longleftrightarrow>
     (case v_kind v of
        Commit \<Rightarrow> v_round v \<le> qc_round (t_high_qc t)
      | Normal \<Rightarrow> v_round v \<le> v_round (t_high_vote t) \<and>
                  (v_round v = v_round (t_high_vote t) \<longrightarrow> v = t_high_vote t))"
| "may_precede (SignedTimeout t) (SignedTimeout t') \<longleftrightarrow> qc_round (t_high_qc t) \<le> qc_round (t_high_qc t')"
| "may_precede _ _ \<longleftrightarrow> True"

definition signed_by :: "('pk, 's) runtime \<Rightarrow> public_key \<Rightarrow> 's vote \<Rightarrow> bool" where
  "signed_by E name v \<longleftrightarrow> v = vote_new E name (v_blk_hash v) (v_kind v) (v_round v)"

lemma signed_by_new [simp]: "signed_by E name (vote_new E name d k r)"
  by (simp add: signed_by_def)

lemma signed_by_unique:
  "signed_by E name v \<Longrightarrow> signed_by E name w \<Longrightarrow> v_blk_hash v = v_blk_hash w \<Longrightarrow>
   v_kind v = v_kind w \<Longrightarrow> v_round v = v_round w \<Longrightarrow> v = w"
  by (metis signed_by_def)

text \<open>How a past signature is reflected in the current state.\<close>

fun reflected :: "('pk, 's) runtime \<Rightarrow> ('pk, 's, 'db) core \<Rightarrow> 's core_effect \<Rightarrow> bool" where
  "reflected E s (SignedVote v) \<longleftrightarrow>
     signed_by E (c_name s) v \<and>
     (case v_kind v of
        Commit \<Rightarrow> v_round v \<le> qc_round (locked s)
      | Normal \<Rightarrow> 0 < v_round v \<and> v_round v \<le> v_round (last_vote s) \<and>
                  (v_round v = v_round (last_vote s) \<longrightarrow> v = last_vote s) \<and>
                  (pending_proposals s (v_round v) = Some (v_blk_hash v) \<or> v_round v \<le> b_round (last_commit s)))"
| "reflected E s (SignedTimeout t) \<longleftrightarrow>
     t_author t = c_name s \<and> t_round t \<le> last_timeout s \<and> qc_round (t_high_qc t) \<le> qc_round (locked s)"
| "reflected E s _ \<longleftrightarrow> True"

definition vote_inv :: "('pk, 's) runtime \<Rightarrow> ('pk, 's, 'db) core \<Rightarrow> bool" where
  "vote_inv E s \<longleftrightarrow>
     sorted_wrt may_precede (c_trace s) \<and> (\<forall>e \<in> set (c_trace s). reflected E s e) \<and>
     0 < c_round s \<and> v_round (last_vote s) \<le> c_round s \<and>
     (\<forall>d b. uncommitted_blocks s d = Some b \<longrightarrow> block_digest E b = d) \<and>
     (\<forall>r d. pending_proposals s r = Some d \<longrightarrow> r = 0 \<or> b_round (last_commit s) < r)"

lemma neutral_may_precede [simp]: "neutral_effect e' \<Longrightarrow> may_precede e e'"
  by (cases e; cases e') simp_all

lemma neutral_reflected [simp]: "neutral_effect e \<Longrightarrow> reflected E s e"
  by (cases e) simp_all

lemma committed_may_precede [simp]:
  "may_precede e (CommittedBlock b)" "may_precede e (Output b)"
  "may_precede e (ToCommitter cs)" "may_precede e (ToMempool c)"
  by (cases e; simp)+

lemma deliver_precede:
  assumes "e' \<in> set (deliver_effects co stack)"
  shows "may_precede e e'" "reflected E s e'"
  using assms by (auto simp: deliver_effects_def split: if_splits)

lemma sorted_wrt_deliver: "sorted_wrt may_precede (deliver_effects co stack)"
  by (rule sorted_wrt_mono_rel [of _ "\<lambda>_ _. True"]) (auto dest: deliver_precede(1) simp: sorted_wrt_true)

lemma reflected_mono:
  assumes "reflected E s e" "c_name s' = c_name s" "last_vote s' = last_vote s"
    "qc_round (locked s) \<le> qc_round (locked s')" "last_timeout s \<le> last_timeout s'"
    "\<And>r d. r \<noteq> 0 \<Longrightarrow> pending_proposals s r = Some d \<Longrightarrow>
       pending_proposals s' r = Some d \<or> r \<le> b_round (last_commit s')"
    "b_round (last_commit s) \<le> b_round (last_commit s')"
  shows "reflected E s' e"
proof (cases e)
  case (SignedVote v)
  with assms show ?thesis
    by (cases "v_kind v") (auto dest: assms(6))
qed (use assms in auto)

lemma vote_inv_frame:
  assumes inv: "vote_inv E s"
    and same: "c_name s' = c_name s" "last_vote s' = last_vote s"
    and mono: "qc_round (locked s) \<le> qc_round (locked s')" "last_timeout s \<le> last_timeout s'"
      "b_round (last_commit s) \<le> b_round (last_commit s')" "c_round s \<le> c_round s'"
    and kept: "\<And>r d. r \<noteq> 0 \<Longrightarrow> pending_proposals s r = Some d \<Longrightarrow>
       pending_proposals s' r = Some d \<or> r \<le> b_round (last_commit s')"
    and recent: "\<And>r d. pending_proposals s' r = Some d \<Longrightarrow> r = 0 \<or> b_round (last_commit s') < r"
    and keyed: "\<And>d b. uncommitted_blocks s' d = Some b \<Longrightarrow> block_digest E b = d"
    and trace: "c_trace s' = c_trace s @ es" "sorted_wrt may_precede es"
      "\<And>e e'. e \<in> set (c_trace s) \<Longrightarrow> e' \<in> set es \<Longrightarrow> may_precede e e'"
      "\<And>e. e \<in> set es \<Longrightarrow> reflected E s' e"
  shows "vote_inv E s'"
proof -
  have "reflected E s' e" if "e \<in> set (c_trace s)" for e
    using reflected_mono [of E s e s', OF _ same mono(1,2) kept mono(3)] inv that
    by (auto simp: vote_inv_def)
  then have "\<forall>e \<in> set (c_trace s'). reflected E s' e" using trace by auto
  moreover have "sorted_wrt may_precede (c_trace s')"
    using inv trace by (simp add: sorted_wrt_append vote_inv_def)
  ultimately show ?thesis
    using inv mono(4) same(2) recent keyed by (auto simp: vote_inv_def)
qed

lemma vote_inv_irrelevant:
  "vote_inv E (s\<lparr>c_aggregator := a\<rparr>) = vote_inv E s"
  "vote_inv E (s\<lparr>high_wqc := w\<rparr>) = vote_inv E s"
  "vote_inv E (s\<lparr>uncommitted_qcs := qs\<rparr>) = vote_inv E s"
  "vote_inv E (s\<lparr>timeout_syncs := ts\<rparr>) = vote_inv E s"
proof -
  have "reflected E s' = reflected E s"
    if "c_name s' = c_name s" "locked s' = locked s" "last_vote s' = last_vote s"
      "pending_proposals s' = pending_proposals s" "last_commit s' = last_commit s"
      "last_timeout s' = last_timeout s" for s' s :: "('a, 'b, 'c) core" and E :: "('a, 'b) runtime"
  proof
    show "reflected E s' e = reflected E s e" for e
      using that by (cases e) (simp_all split: vote_type.split)
  qed
  from this [of "s\<lparr>c_aggregator := a\<rparr>" s] this [of "s\<lparr>high_wqc := w\<rparr>" s]
    this [of "s\<lparr>uncommitted_qcs := qs\<rparr>" s] this [of "s\<lparr>timeout_syncs := ts\<rparr>" s]
  show "vote_inv E (s\<lparr>c_aggregator := a\<rparr>) = vote_inv E s"
    "vote_inv E (s\<lparr>high_wqc := w\<rparr>) = vote_inv E s"
    "vote_inv E (s\<lparr>uncommitted_qcs := qs\<rparr>) = vote_inv E s"
    "vote_inv E (s\<lparr>timeout_syncs := ts\<rparr>) = vote_inv E s"
    by (simp_all add: vote_inv_def)
qed

lemma sorted_wrt_neutral: "list_all neutral_effect es \<Longrightarrow> sorted_wrt may_precede es"
  by (rule sorted_wrt_mono_rel [of _ "\<lambda>_ _. True"]) (auto simp: list_all_iff sorted_wrt_true)

lemma neutral_answers: "list_all neutral_effect (map (\<lambda>(ch, r). StoreAnswer ch r) replies)"
  by (auto simp: list_all_iff)

lemma vote_inv_quiet:
  assumes inv: "vote_inv E s" and es: "list_all neutral_effect es" "c_trace s' = c_trace s @ es"
    and same: "c_name s' = c_name s" "last_vote s' = last_vote s" "locked s' = locked s"
      "last_timeout s' = last_timeout s" "last_commit s' = last_commit s" "c_round s' = c_round s"
      "pending_proposals s' = pending_proposals s" "uncommitted_blocks s' = uncommitted_blocks s"
  shows "vote_inv E s'"
proof (rule vote_inv_frame [OF inv same(1,2) _ _ _ _ _ _ _ es(2) sorted_wrt_neutral [OF es(1)]])
  show "may_precede e e'" if "e' \<in> set es" for e e'
    using es(1) that by (simp add: list_all_iff)
  show "reflected E s' e" if "e \<in> set es" for e
    using es(1) that by (simp add: list_all_iff)
  show "r = 0 \<or> b_round (last_commit s') < r" if "pending_proposals s' r = Some d" for r d
    using inv that same by (simp add: vote_inv_def)
  show "block_digest E b = d" if "uncommitted_blocks s' d = Some b" for d b
    using inv that same by (simp add: vote_inv_def)
qed (simp_all add: same)

lemma vote_inv_store:
  assumes "vote_inv E s"
  shows "vote_inv E (s\<lparr>c_store := st, c_trace := c_trace s @ map (\<lambda>(ch, r). StoreAnswer ch r) replies\<rparr>)"
  by (rule vote_inv_quiet [OF assms neutral_answers [of replies]]) simp_all

lemma vote_inv_neutral:
  assumes "vote_inv E s" "neutral s s'"
  shows "vote_inv E s'"
proof -
  from assms(2) obtain es where "list_all neutral_effect es" "c_trace s' = c_trace s @ es"
    by (auto simp: neutral_def)
  then show ?thesis using assms(2)
    by (intro vote_inv_quiet [OF assms(1)]) (simp_all add: neutral_def)
qed

lemma vote_inv_commit_vote:
  fixes s :: "('pk, 's, 'db) core"
  assumes inv: "vote_inv E s" and g: "qc_round (locked s) < qc_round q" "last_timeout s < qc_round q"
  shows "vote_inv E (s\<lparr>locked := q, c_aggregator := a,
    c_trace := c_trace s @ [SignedVote (vote_new E (c_name s) (qc_blk_hash q) Commit (qc_round q))]\<rparr>)"
    (is "vote_inv E ?s'")
proof (rule vote_inv_frame [OF inv])
  fix e e' assume "e \<in> set (c_trace s)" and
    e': "e' \<in> set [SignedVote (vote_new E (c_name s) (qc_blk_hash q) Commit (qc_round q))]"
  then have "reflected E s e" using inv by (simp add: vote_inv_def)
  with e' g show "may_precede e e'" by (cases e) (auto split: vote_type.split)
qed (use inv g in \<open>auto simp: vote_inv_def\<close>)

lemma vote_inv_normal_vote:
  fixes s :: "('pk, 's, 'db) core"
  assumes inv: "vote_inv E s"
    and g: "pending_proposals s (b_round b) = Some d" "uncommitted_blocks s d = Some b"
      "c_round s = b_round b" "last_timeout s < b_round b"
    and v: "v = vote_new E (c_name s) (block_digest E b) Normal (b_round b)"
  shows "vote_inv E (s\<lparr>c_trace := c_trace s @ [SignedVote v], last_vote := v\<rparr>)"
proof -
  have d: "block_digest E b = d" using inv g by (simp add: vote_inv_def)
  have r: "0 < b_round b" "b_round (last_commit s) < b_round b"
    using inv g by (auto simp: vote_inv_def)
  have past: "reflected E (s\<lparr>c_trace := t, last_vote := v\<rparr>) e \<and> may_precede e (SignedVote v)"
    if "e \<in> set (c_trace s)" for e t
  proof -
    have refl: "reflected E s e" using inv that by (simp add: vote_inv_def)
    show ?thesis
    proof (cases e)
      case (SignedVote w)
      show ?thesis
      proof (cases "v_kind w")
        case Commit
        with refl SignedVote v show ?thesis by simp
      next
        case Normal
        have le: "v_round w \<le> b_round b"
          using refl SignedVote Normal inv g by (auto simp: vote_inv_def)
        have "w = v" if "v_round w = b_round b"
          using refl SignedVote Normal that g r d v
          by (intro signed_by_unique [of E "c_name s"]) auto
        with le refl SignedVote Normal v show ?thesis by auto
      qed
    qed (use refl g v in auto)
  qed
  have new: "reflected E (s\<lparr>c_trace := t, last_vote := v\<rparr>) (SignedVote v)" for t
    using v g d r by simp
  show ?thesis using inv g past new v
    by (auto simp: vote_inv_def sorted_wrt_append)
qed

lemma vote_inv_timeout:
  fixes s :: "('pk, 's, 'db) core"
  assumes inv: "vote_inv E s"
  shows "vote_inv E (s\<lparr>c_trace := c_trace s @ [SignedTimeout
           (timeout_new E (last_vote s) (locked s) (high_wqc s) r (c_name s))],
         last_timeout := max r (last_timeout s), timeout_syncs := insert r (timeout_syncs s)\<rparr>)"
proof (rule vote_inv_frame [OF inv])
  fix e e' assume "e \<in> set (c_trace s)" and
    e': "e' \<in> set [SignedTimeout (timeout_new E (last_vote s) (locked s) (high_wqc s) r (c_name s))]"
  then have "reflected E s e" using inv by (simp add: vote_inv_def)
  with e' show "may_precede e e'" by (cases e) (auto split: vote_type.split_asm vote_type.split)
qed (use inv in \<open>auto simp: vote_inv_def\<close>)

lemma vote_inv_accept:
  assumes inv: "vote_inv (ce_runtime env) s" and g: "b_round (last_commit s) < b_round b"
  shows "vote_inv (ce_runtime env) ((update_pending_proposals env b s)
     \<lparr>uncommitted_blocks := (uncommitted_blocks s)(block_digest (ce_runtime env) b \<mapsto> b)\<rparr>)"
  using inv g
  by (intro vote_inv_frame [OF inv, where es = "[]"])
    (auto simp: update_pending_proposals_def vote_inv_def split: if_splits)

lemma vote_inv_committed:
  assumes inv: "vote_inv (ce_runtime env) s" and ready: "commit_ready env s stack block m"
  shows "vote_inv (ce_runtime env) (record_commit block (s\<lparr>uncommitted_blocks := m,
      c_trace := c_trace s @ deliver_effects (c_consensus_only s) stack\<rparr>))"
proof (rule vote_inv_frame [OF inv, where es = "deliver_effects (c_consensus_only s) stack"])
  fix d b
  assume "uncommitted_blocks (record_commit block (s\<lparr>uncommitted_blocks := m,
      c_trace := c_trace s @ deliver_effects (c_consensus_only s) stack\<rparr>)) d = Some b"
  then have "m d = Some b" by (simp add: record_commit_def)
  with ready have "uncommitted_blocks s d = Some b"
    using map_le_Some [of m "uncommitted_blocks s"] by (simp add: commit_ready_def)
  with inv show "block_digest (ce_runtime env) b = d" by (simp add: vote_inv_def)
qed (use inv commit_ready_last [OF ready] in
    \<open>auto simp: record_commit_def vote_inv_def sorted_wrt_deliver deliver_precede dest: deliver_precede\<close>)

interpretation voting: core_loop_steps
  "\<lambda>s s'. vote_inv (ce_runtime env) s \<longrightarrow> vote_inv (ce_runtime env) s'" env for env
proof unfold_locales
  fix s :: "('pk::{linorder, ab_group_add}, 's::ab_group_add, 'db) core" and env :: "('pk, 's, 'db) core_env"
  let ?E = "ce_runtime env"
  show "neutral s s' \<Longrightarrow> vote_inv ?E s \<longrightarrow> vote_inv ?E s'" for s'
    using vote_inv_neutral by blast
  show "b_round (last_commit s) < b_round b \<Longrightarrow> vote_inv ?E s \<longrightarrow>
    vote_inv ?E ((update_pending_proposals env b s)\<lparr>uncommitted_blocks := (uncommitted_blocks s)(block_digest ?E b \<mapsto> b)\<rparr>)" for b
    using vote_inv_accept by blast
  show "commit_ready env s stack block m \<Longrightarrow> vote_inv ?E s \<longrightarrow> vote_inv ?E (record_commit block (s\<lparr>uncommitted_blocks := m,
      c_trace := c_trace s @ deliver_effects (c_consensus_only s) stack\<rparr>))" for stack block m
    using vote_inv_committed by blast
  show "m \<subseteq>\<^sub>m uncommitted_blocks s \<Longrightarrow> vote_inv ?E s \<longrightarrow> vote_inv ?E (s\<lparr>uncommitted_blocks := m\<rparr>)" for m
  proof
    assume m: "m \<subseteq>\<^sub>m uncommitted_blocks s" and inv: "vote_inv ?E s"
    show "vote_inv ?E (s\<lparr>uncommitted_blocks := m\<rparr>)"
      using inv map_le_Some [OF m]
      by (intro vote_inv_frame [OF inv, where es = "[]"]) (auto simp: vote_inv_def)
  qed
  show "qc_round (locked s) < qc_round q \<Longrightarrow> vote_inv ?E s \<longrightarrow>
      vote_inv ?E (s\<lparr>locked := q, c_aggregator := cleanup_timeouts (qc_round q) (c_aggregator s)\<rparr>)" for q
  proof
    assume g: "qc_round (locked s) < qc_round q" and inv: "vote_inv ?E s"
    then show "vote_inv ?E (s\<lparr>locked := q, c_aggregator := cleanup_timeouts (qc_round q) (c_aggregator s)\<rparr>)"
      by (intro vote_inv_frame [OF inv, where es = "[]"]) (auto simp: vote_inv_def)
  qed
  show "c_round s < r \<Longrightarrow> vote_inv ?E s \<longrightarrow> vote_inv ?E (s\<lparr>c_round := r\<rparr>)" for r
  proof
    assume g: "c_round s < r" and inv: "vote_inv ?E s"
    then show "vote_inv ?E (s\<lparr>c_round := r\<rparr>)"
      by (intro vote_inv_frame [OF inv, where es = "[]"]) (auto simp: vote_inv_def)
  qed
  show "qc_round (locked s) < qc_round q \<Longrightarrow> last_timeout s < qc_round q \<Longrightarrow> vote_inv ?E s \<longrightarrow>
      vote_inv ?E (s\<lparr>locked := q, c_aggregator := cleanup_timeouts (qc_round q) (c_aggregator s),
        c_trace := c_trace s @ [SignedVote (vote_new ?E (c_name s) (qc_blk_hash q) Commit (qc_round q))]\<rparr>)" for q
    using vote_inv_commit_vote by blast
  show "pending_proposals s (b_round b) = Some d \<Longrightarrow> uncommitted_blocks s d = Some b \<Longrightarrow>
      c_round s = b_round b \<Longrightarrow> last_timeout s < b_round b \<Longrightarrow>
      v = vote_new ?E (c_name s) (block_digest ?E b) Normal (b_round b) \<Longrightarrow>
      vote_inv ?E s \<longrightarrow> vote_inv ?E (s\<lparr>c_trace := c_trace s @ [SignedVote v], last_vote := v\<rparr>)" for b d v
    using vote_inv_normal_vote by blast
  show "r \<notin> timeout_syncs s \<Longrightarrow> vote_inv ?E s \<longrightarrow>
      vote_inv ?E (s\<lparr>c_trace := c_trace s @ [SignedTimeout
           (timeout_new ?E (last_vote s) (locked s) (high_wqc s) r (c_name s))],
         last_timeout := max r (last_timeout s), timeout_syncs := insert r (timeout_syncs s)\<rparr>)" for r
    using vote_inv_timeout by blast
qed (simp_all add: vote_inv_irrelevant vote_inv_store)

section \<open>The committed log\<close>

definition committed_log :: "'s core_effect list \<Rightarrow> 's block list" where
  "committed_log tr = concat (map (\<lambda>e. case e of CommittedBlock b \<Rightarrow> [b] | _ \<Rightarrow> []) tr)"

definition output_log :: "'s core_effect list \<Rightarrow> 's block list" where
  "output_log tr = concat (map (\<lambda>e. case e of Output b \<Rightarrow> [b] | _ \<Rightarrow> []) tr)"

definition payload_log :: "'s core_effect list \<Rightarrow> 's certificate list list" where
  "payload_log tr = concat (map (\<lambda>e. case e of ToCommitter cs \<Rightarrow> [cs] | _ \<Rightarrow> []) tr)"

fun hash_chain :: "('pk, 's) runtime \<Rightarrow> digest \<Rightarrow> 's block list \<Rightarrow> bool" where
  "hash_chain E d [] \<longleftrightarrow> True"
| "hash_chain E d (b # bs) \<longleftrightarrow> b_parent b = d \<and> hash_chain E (block_digest E b) bs"

lemma log_append [simp]:
  "committed_log (xs @ ys) = committed_log xs @ committed_log ys"
  "output_log (xs @ ys) = output_log xs @ output_log ys"
  "payload_log (xs @ ys) = payload_log xs @ payload_log ys"
  by (simp_all add: committed_log_def output_log_def payload_log_def)

lemma log_Nil [simp]: "committed_log [] = []" "output_log [] = []" "payload_log [] = []"
  by (simp_all add: committed_log_def output_log_def payload_log_def)

lemma log_Cons [simp]:
  "committed_log (e # xs) = (case e of CommittedBlock b \<Rightarrow> [b] | _ \<Rightarrow> []) @ committed_log xs"
  "output_log (e # xs) = (case e of Output b \<Rightarrow> [b] | _ \<Rightarrow> []) @ output_log xs"
  "payload_log (e # xs) = (case e of ToCommitter cs \<Rightarrow> [cs] | _ \<Rightarrow> []) @ payload_log xs"
  by (simp_all add: committed_log_def output_log_def payload_log_def)

lemma log_neutral:
  assumes "list_all neutral_effect es"
  shows "committed_log es = []" "output_log es = []" "payload_log es = []"
  using assms by (induction es) (auto split: core_effect.split)

lemma log_mempool [simp]:
  "committed_log (map ToMempool cs) = []" "output_log (map ToMempool cs) = []" "payload_log (map ToMempool cs) = []"
  by (induction cs) simp_all

lemma log_deliver:
  "committed_log (deliver_effects co stack) = stack"
  "output_log (deliver_effects co stack) = (if co then [] else stack)"
  "payload_log (deliver_effects co stack) = (if co then [] else map b_payload stack)"
  by (induction stack) (simp_all add: deliver_effects_def)

lemma hash_chain_append:
  "hash_chain E d (xs @ ys) \<longleftrightarrow>
   hash_chain E d xs \<and> hash_chain E (if xs = [] then d else block_digest E (last xs)) ys"
  by (induction xs arbitrary: d) auto

lemma drawn_hash_chain:
  assumes "\<And>d b. m d = Some b \<Longrightarrow> block_digest E b = d"
    and "drawn m stack" "stack \<noteq> [] \<Longrightarrow> b_parent (hd stack) = d"
  shows "hash_chain E d stack"
  using assms(2,3)
proof (induction stack arbitrary: d)
  case Nil
  then show ?case by simp
next
  case (Cons b stack)
  then show ?case using assms(1) by (cases stack) (auto simp: drawn_Cons)
qed

definition chain_inv :: "('pk, 's) runtime \<Rightarrow> ('pk, 's, 'db) core \<Rightarrow> bool" where
  "chain_inv E s \<longleftrightarrow>
     hash_chain E (block_digest E block_genesis) (committed_log (c_trace s)) \<and>
     last_commit s = last (block_genesis # committed_log (c_trace s)) \<and>
     (\<forall>d b. uncommitted_blocks s d = Some b \<longrightarrow> block_digest E b = d)"

lemma chain_inv_commit:
  assumes inv: "chain_inv (ce_runtime env) s" and ready: "commit_ready env s stack block m"
  shows "chain_inv (ce_runtime env) (record_commit block (s\<lparr>uncommitted_blocks := m,
      c_trace := c_trace s @ deliver_effects (c_consensus_only s) stack\<rparr>))"
proof -
  let ?E = "ce_runtime env" and ?log = "committed_log (c_trace s)"
  have "hash_chain ?E (block_digest ?E (last_commit s)) stack"
    using inv ready by (intro drawn_hash_chain [of "uncommitted_blocks s"]) (auto simp: chain_inv_def commit_ready_def)
  then have "hash_chain ?E (block_digest ?E block_genesis) (?log @ stack)"
    using inv by (auto simp: hash_chain_append chain_inv_def)
  moreover have "block = last (block_genesis # ?log @ stack)"
    using ready by (simp add: commit_ready_def)
  moreover have "block_digest ?E b = d" if "m d = Some b" for d b
    using ready inv that map_le_Some [of m "uncommitted_blocks s"] by (auto simp: commit_ready_def chain_inv_def)
  ultimately show ?thesis
    by (simp add: chain_inv_def record_commit_def log_deliver)
qed

lemma chain_inv_frame:
  assumes "chain_inv E s" "committed_log (c_trace s') = committed_log (c_trace s)"
    "last_commit s' = last_commit s"
    "\<And>d b. uncommitted_blocks s' d = Some b \<Longrightarrow> uncommitted_blocks s d = Some b \<or> block_digest E b = d"
  shows "chain_inv E s'"
  using assms by (auto simp: chain_inv_def)

interpretation chain: core_loop_steps
  "\<lambda>s s'. chain_inv (ce_runtime env) s \<longrightarrow> chain_inv (ce_runtime env) s'" env for env
proof unfold_locales
  show "m \<subseteq>\<^sub>m uncommitted_blocks s \<Longrightarrow>
      chain_inv (ce_runtime env) s \<longrightarrow> chain_inv (ce_runtime env) (s\<lparr>uncommitted_blocks := m\<rparr>)"
    for env and s :: "('pk, 's, 'db) core" and m
    by (auto dest: map_le_Some elim!: chain_inv_frame)
  show "commit_ready env s stack block m \<Longrightarrow> chain_inv (ce_runtime env) s \<longrightarrow>
      chain_inv (ce_runtime env) (record_commit block (s\<lparr>uncommitted_blocks := m,
        c_trace := c_trace s @ deliver_effects (c_consensus_only s) stack\<rparr>))"
    for env and s :: "('pk, 's, 'db) core" and stack block m
    using chain_inv_commit by blast
qed (auto elim!: chain_inv_frame simp: neutral_def log_neutral neutral_answers update_pending_proposals_def split: if_splits)

text \<open>Outside benchmark mode every committed block is handed over, in the same order.\<close>

definition handover :: "('pk, 's, 'db) core \<Rightarrow> bool" where
  "handover s \<longleftrightarrow>
     (if c_consensus_only s then output_log (c_trace s) = [] \<and> payload_log (c_trace s) = []
      else output_log (c_trace s) = committed_log (c_trace s) \<and>
           payload_log (c_trace s) = map b_payload (committed_log (c_trace s)))"

lemma handover_frame:
  assumes "handover s" "c_trace s' = c_trace s @ es" "c_consensus_only s' = c_consensus_only s"
    "output_log es = (if c_consensus_only s then [] else committed_log es)"
    "payload_log es = (if c_consensus_only s then [] else map b_payload (committed_log es))"
  shows "handover s'"
  using assms by (auto simp: handover_def)

interpretation delivery: core_loop_steps "\<lambda>s s'. handover s \<longrightarrow> handover s'" env for env
proof unfold_locales
  show "neutral s s' \<Longrightarrow> handover s \<longrightarrow> handover s'" for s s' :: "('pk, 's, 'db) core"
    by (auto simp: neutral_def log_neutral elim!: handover_frame)
qed (simp_all add: handover_def log_neutral neutral_answers record_commit_def update_pending_proposals_def log_deliver)

section \<open>What is kept in memory\<close>

text \<open>
  Everything indexed by round is newer than the last commit; before the first commit the
  entries of the genesis block are there too.
\<close>

definition memory_recent :: "('pk, 's, 'db) core \<Rightarrow> bool" where
  "memory_recent s \<longleftrightarrow>
     (\<forall>r d. pending_proposals s r = Some d \<longrightarrow> b_round (last_commit s) \<le> r \<and> (r = 0 \<or> b_round (last_commit s) < r)) \<and>
     (\<forall>d b. uncommitted_blocks s d = Some b \<longrightarrow>
        b_round (last_commit s) \<le> b_round b \<and> (b_round b = 0 \<or> b_round (last_commit s) < b_round b)) \<and>
     (\<forall>r q. uncommitted_qcs s r = Some q \<longrightarrow>
        qc_round q = r \<and> b_round (last_commit s) \<le> r \<and> (r = 0 \<or> b_round (last_commit s) < r))"

lemma memory_recent_frame:
  assumes "memory_recent s" "last_commit s' = last_commit s" "pending_proposals s' = pending_proposals s"
    "uncommitted_blocks s' = uncommitted_blocks s" "uncommitted_qcs s' = uncommitted_qcs s"
  shows "memory_recent s'"
  using assms by (simp add: memory_recent_def)

lemma memory_recent_qc:
  assumes "memory_recent s" "b_round (last_commit s) < qc_round q"
  shows "memory_recent (s\<lparr>uncommitted_qcs := (uncommitted_qcs s)(qc_round q \<mapsto> q)\<rparr>)"
  using assms by (simp add: memory_recent_def)

lemma memory_recent_accept:
  assumes "memory_recent s" "b_round (last_commit s) < b_round b"
  shows "memory_recent ((update_pending_proposals env b s)
     \<lparr>uncommitted_blocks := (uncommitted_blocks s)(block_digest (ce_runtime env) b \<mapsto> b)\<rparr>)"
  using assms by (cases "pending_proposals s (b_round b)") (simp_all add: memory_recent_def update_pending_proposals_def)

lemma memory_recent_commit:
  assumes "commit_ready env s stack block m" "memory_recent s"
  shows "memory_recent (record_commit block (s\<lparr>uncommitted_blocks := m,
      c_trace := c_trace s @ deliver_effects (c_consensus_only s) stack\<rparr>))"
  using assms(2) by (auto simp: memory_recent_def record_commit_def)

interpretation memory: core_loop_steps "\<lambda>s s'. memory_recent s \<longrightarrow> memory_recent s'" env for env
proof unfold_locales
  show "m \<subseteq>\<^sub>m uncommitted_blocks s \<Longrightarrow> memory_recent s \<longrightarrow> memory_recent (s\<lparr>uncommitted_blocks := m\<rparr>)"
    for s :: "('pk, 's, 'db) core" and m
    by (fastforce simp: memory_recent_def dest: map_le_Some)
  show "commit_ready env s stack block m \<Longrightarrow> memory_recent s \<longrightarrow> memory_recent (record_commit block
      (s\<lparr>uncommitted_blocks := m, c_trace := c_trace s @ deliver_effects (c_consensus_only s) stack\<rparr>))"
    for env and s :: "('pk, 's, 'db) core" and stack block m
    using memory_recent_commit by blast
  show "neutral s s' \<Longrightarrow> memory_recent s \<longrightarrow> memory_recent s'" for s s' :: "('pk, 's, 'db) core"
    by (simp add: memory_recent_def neutral_def)
qed (use memory_recent_qc memory_recent_accept in \<open>auto elim: memory_recent_frame\<close>)

section \<open>Reachable states\<close>

lemma vote_inv_init: "vote_inv (ce_runtime env) (core_init env name C co st el delay)"
  by (simp add: vote_inv_def core_init_def Let_def)

lemma chain_inv_init: "chain_inv (ce_runtime env) (core_init env name C co st el delay)"
  by (simp add: chain_inv_def core_init_def Let_def)

lemma handover_init: "handover (core_init env name C co st el delay)"
  by (simp add: handover_def core_init_def Let_def)

lemma memory_recent_init: "memory_recent (core_init env name C co st el delay)"
  by (simp add: memory_recent_def core_init_def Let_def)

lemma reachable_votes: "vote_inv (ce_runtime env) (core_main env evs (core_init env name C co st el delay))"
  using voting.main_evolves vote_inv_init by blast

lemma reachable_chain: "chain_inv (ce_runtime env) (core_main env evs (core_init env name C co st el delay))"
  using chain.main_evolves chain_inv_init by blast

lemma reachable_handover: "handover (core_main env evs (core_init env name C co st el delay))"
  using delivery.main_evolves handover_init by blast

lemma reachable_memory: "memory_recent (core_main env evs (core_init env name C co st el delay))"
  using memory.main_evolves memory_recent_init by blast

lemma reachable_progress:
  "progress (core_init env name C co st el delay) (core_main env evs (core_init env name C co st el delay))"
  by (rule forward.main_evolves)

lemma reachable_constants:
  "c_name (core_main env evs (core_init env name C co st el delay)) = name"
  "c_committee (core_main env evs (core_init env name C co st el delay)) = C"
  "c_consensus_only (core_main env evs (core_init env name C co st el delay)) = co"
  using reachable_progress [of env name C co st el delay evs]
  by (simp_all add: progress_def core_init_def Let_def)

end
