(* ===== verification/Signers.thy ===== *)
theory Signers
  imports Primary_Messages
begin

text \<open>
  The correspondence between the members of a committee and the positions of their BLS keys
  in the sorted key vector, on which the bit vectors of both kinds of certificate rest.
\<close>

lemma bit_single: "bit (push_bit k (1 :: u128)) n \<longleftrightarrow> n = k \<and> n < 128"
  by (auto simp: bit_simps)

text \<open>The position of a member's BLS key among the sorted keys.\<close>

definition signer_id :: "'pk::linorder committee \<Rightarrow> public_key \<Rightarrow> nat" where
  "signer_id C a =
     (case authority_of C a of
        None \<Rightarrow> committee_size C
      | Some x \<Rightarrow> (case binary_search (sorted_keys C) (bls_pubkey_g2 x) of
                     None \<Rightarrow> committee_size C | Some i \<Rightarrow> i))"

lemma wf_sorted_keys:
  assumes "committee_wf C"
  shows "sorted (sorted_keys C)" "length (sorted_keys C) = committee_size C"
    "set (sorted_keys C) = set (get_bls_g2_public_keys C)" "distinct (sorted_keys C)"
  using assms
  by (simp_all add: committee_wf_def committee_size_def get_bls_g2_public_keys_def)

lemma signer_id_key:
  assumes "committee_wf C" "authority_of C a = Some x"
  shows "binary_search (sorted_keys C) (bls_pubkey_g2 x) = Some (signer_id C a)"
    "signer_id C a < committee_size C" "sorted_keys C ! signer_id C a = bls_pubkey_g2 x"
proof -
  have "bls_pubkey_g2 x \<in> set (get_bls_g2_public_keys C)"
    using assms(2) by (force simp: get_bls_g2_public_keys_def authority_of_def dest: map_of_SomeD)
  then obtain i where i: "binary_search (sorted_keys C) (bls_pubkey_g2 x) = Some i"
      "i < length (sorted_keys C)" "sorted_keys C ! i = bls_pubkey_g2 x"
    using wf_sorted_keys(1,3) [OF assms(1)] binary_search_in [of "sorted_keys C" "bls_pubkey_g2 x"]
    by blast
  moreover have "signer_id C a = i" using assms(2) i(1) by (simp add: signer_id_def)
  ultimately show "binary_search (sorted_keys C) (bls_pubkey_g2 x) = Some (signer_id C a)"
    "signer_id C a < committee_size C" "sorted_keys C ! signer_id C a = bls_pubkey_g2 x"
    using wf_sorted_keys(2) [OF assms(1)] by simp_all
qed

lemma signer_id_inj:
  assumes wf: "committee_wf C"
  shows "inj_on (signer_id C) (members C)"
proof (rule inj_onI)
  fix a b assume a: "a \<in> members C" and b: "b \<in> members C" and eq: "signer_id C a = signer_id C b"
  from member_authority_of [OF a] obtain x where x: "authority_of C a = Some x" ..
  from member_authority_of [OF b] obtain y where y: "authority_of C b = Some y" ..
  have "bls_pubkey_g2 x = bls_pubkey_g2 y"
    using signer_id_key(3) [OF wf x] signer_id_key(3) [OF wf y] eq by simp
  moreover have "(a, x) \<in> set (authorities C)" "(b, y) \<in> set (authorities C)"
    using x y by (auto simp: authority_of_def dest: map_of_SomeD)
  moreover have inj: "inj_on (\<lambda>(_, z). bls_pubkey_g2 z) (set (authorities C))"
    using wf by (simp add: committee_wf_def distinct_map)
  ultimately have "(a, x) = (b, y)" using inj_onD [OF inj, of "(a, x)" "(b, y)"] by simp
  then show "a = b" by simp
qed

lemma wf_total_stake:
  assumes "committee_wf C" "A \<subseteq> members C"
  shows "sum (stake_of C) A < 2 ^ 32"
proof -
  have "sum (stake_of C) A \<le> sum (stake_of C) (members C)"
    using assms(2) by (intro sum_mono2) auto
  also have "\<dots> < 2 ^ 32"
    using assms(1) sum_stake_members [of C] by (simp add: committee_wf_def)
  finally show ?thesis .
qed

end
