(* ===== verification/Aggregator_Proofs.thy ===== *)
theory Aggregator_Proofs
  imports Aggregator Signers
begin

text \<open>
  Correctness of vote aggregation: the invariant that ties a \<^verbatim>\<open>QCMaker\<close>'s
  weight, bit vector and aggregate signature to the set of authors it has counted, its
  preservation by \<^verbatim>\<open>append\<close>, and what follows for the certificates it returns.
\<close>

section \<open>Bits and signers\<close>

definition bit_at :: "u128 list \<Rightarrow> nat \<Rightarrow> bool" where
  "bit_at bits i = bit (bits ! (i div 128)) (i mod 128)"

definition cleared :: "u128 list \<Rightarrow> nat \<Rightarrow> u128 list" where
  "cleared bits i = bits[i div 128 := (bits ! (i div 128)) AND NOT (push_bit (i mod 128) 1)]"

lemma clear_bit_at_eq: "i div 128 < length bits \<Longrightarrow> clear_bit_at bits i = Ok (cleared bits i)"
  by (simp add: clear_bit_at_def cleared_def nth_opt_def)

lemma length_cleared [simp]: "length (cleared bits i) = length bits"
  by (simp add: cleared_def)

lemma bit_at_cleared:
  assumes j: "j div 128 < length bits"
  shows "bit_at (cleared bits i) j \<longleftrightarrow> bit_at bits j \<and> j \<noteq> i"
proof (cases "j div 128 = i div 128")
  case True
  then have "j \<noteq> i \<longleftrightarrow> j mod 128 \<noteq> i mod 128"
    by (metis div_mult_mod_eq)
  with True j show ?thesis
    by (auto simp: bit_at_def cleared_def bit_and_iff bit_not_iff bit_single simp del: push_bit_of_1)
next
  case False
  with j show ?thesis by (auto simp: bit_at_def cleared_def)
qed

section \<open>The invariant of a QCMaker\<close>

definition qcm_inv :: "'pk::linorder committee \<Rightarrow> ('pk, 's::ab_group_add) qc_maker \<Rightarrow> bool" where
  "qcm_inv C m \<longleftrightarrow>
     qm_used m \<subseteq> {a \<in> members C. 0 < stake_of C a} \<and>
     length (qm_votes m) = card (qm_used m) \<and>
     length (qm_pk_bit_vec m) = (cm_n C + 127) div 128 \<and>
     (\<not> qm_is_qc_formed m \<longrightarrow>
        qm_weight m = sum (stake_of C) (qm_used m) \<and>
        (\<forall>i < committee_size C. bit_at (qm_pk_bit_vec m) i \<longleftrightarrow> i \<notin> signer_id C ` qm_used m) \<and>
        (qm_votes m \<noteq> [] \<longrightarrow> qm_agg_sign m = (\<Sum>v\<leftarrow>qm_votes m. snd v)))"

lemma qcm_inv_new: "committee_wf C \<Longrightarrow> qcm_inv C (qc_maker_new E (cm_n C))"
  by (auto simp: qcm_inv_def qc_maker_new_def bit_at_def committee_wf_def committee_size_def)

lemma wf_chunks: "committee_wf C \<Longrightarrow> i < committee_size C \<Longrightarrow> i div 128 < (cm_n C + 127) div 128"
  by (simp add: committee_wf_def committee_size_def)

lemma qcm_seal_eq:
  "qcm_seal E C vote fast m =
     (bind_r (missing_ids C (qm_pk_bit_vec m)) (\<lambda>ids.
      bind_r (remove_pubkeys (combined_pubkey C) ids (sorted_keys C)) (\<lambda>agg_pk.
      bind_r (map_err (\<lambda>_. InvalidBlsSign)
        (verify_batch E (digest_bytes (vote_digest E vote)) agg_pk (qm_agg_sign m))) (\<lambda>_.
        Ok (Some \<lparr>qc_blk_hash = v_blk_hash vote, qc_kind = v_kind vote, qc_round = v_round vote,
                  qc_votes = (qm_pk_bit_vec m, qm_agg_sign m), qc_fast_quorum = fast\<rparr>)))), m)"
  by (simp add: qcm_seal_def monad_defs verify_batch_def split: res.split)

text \<open>The state after counting one more vote, before any threshold is looked at.\<close>

definition counted :: "'pk committee \<Rightarrow> 's::ab_group_add vote \<Rightarrow> u128 list \<Rightarrow> ('pk, 's) qc_maker \<Rightarrow> ('pk, 's) qc_maker" where
  "counted C vote bits' m = m\<lparr>qm_pk_bit_vec := bits',
     qm_agg_sign := (if length (qm_votes m) = 1 then v_signature vote
                     else if 2 \<le> length (qm_votes m) then qm_agg_sign m + v_signature vote
                     else qm_agg_sign m),
     qm_weight := add32 (qm_weight m) (stake_of C (v_author vote))\<rparr>"

lemma counted_simps [simp]:
  "qm_used (counted C v b m) = qm_used m" "qm_votes (counted C v b m) = qm_votes m"
  "qm_pk_bit_vec (counted C v b m) = b" "qm_is_qc_formed (counted C v b m) = qm_is_qc_formed m"
  "qm_weight (counted C v b m) = add32 (qm_weight m) (stake_of C (v_author v))"
  by (simp_all add: counted_def)

lemma qcm_count_eq:
  assumes "binary_search (sorted_keys C) key = Some i" "i div 128 < length (qm_pk_bit_vec m)"
  shows "qcm_count E C vote key chk m =
    (let m' = counted C vote (cleared (qm_pk_bit_vec m) i) m in
     if v_kind vote = Normal \<and> qm_weight m' = quorum_threshold C \<or>
        v_kind vote = Commit \<and> qm_weight m' = slow_commit_threshold C
     then qcm_seal E C vote False (if chk then m' else m'\<lparr>qm_is_qc_formed := True\<rparr>)
     else if v_kind vote = Normal \<and> qm_weight m' = fast_commit_quorum_threshold C
     then qcm_seal E C vote True (m'\<lparr>qm_weight := 0, qm_is_qc_formed := True\<rparr>)
     else (Ok None, m'))"
  unfolding qcm_count_def monad_defs counted_def aggregate_sign_def Let_def sorted_key_id_def
  by (simp add: assms clear_bit_at_eq)

text \<open>
  What \<^verbatim>\<open>append\<close> does to a member's first vote: the author is recorded,
  and unless the maker is done the vote is counted.
\<close>

definition recorded :: "'s vote \<Rightarrow> 'pk \<Rightarrow> ('pk, 's) qc_maker \<Rightarrow> ('pk, 's) qc_maker" where
  "recorded vote key m = m\<lparr>qm_used := insert (v_author vote) (qm_used m),
     qm_votes := qm_votes m @ [(key, v_signature vote)]\<rparr>"

lemma recorded_simps [simp]:
  "qm_used (recorded v k m) = insert (v_author v) (qm_used m)"
  "qm_votes (recorded v k m) = qm_votes m @ [(k, v_signature v)]"
  "qm_pk_bit_vec (recorded v k m) = qm_pk_bit_vec m"
  "qm_is_qc_formed (recorded v k m) = qm_is_qc_formed m"
  "qm_weight (recorded v k m) = qm_weight m" "qm_agg_sign (recorded v k m) = qm_agg_sign m"
  by (simp_all add: recorded_def)

lemma qcm_append_eq:
  assumes "authority_of C (v_author vote) = Some x"
  shows "qcm_append E C vote chk m =
    (if v_author vote \<in> qm_used m then (Ok None, m)
     else if stake_of C (v_author vote) = 0 then (Err (UnknownAuthority (v_author vote)), m)
     else if qm_is_qc_formed m then (Ok None, recorded vote (bls_pubkey_g2 x) m)
     else qcm_count E C vote (bls_pubkey_g2 x) chk (recorded vote (bls_pubkey_g2 x) m))"
  unfolding qcm_append_def monad_defs vote_is_well_formed_def qcm_is_valid_def get_bls_public_g2_def
  by (simp add: recorded_def assms)

lemma qcm_append_outside:
  assumes "v_author vote \<notin> members C"
  shows "qcm_append E C vote chk m = (Panic ''called Option::unwrap() on a None value'', m)"
  by (simp add: qcm_append_def monad_defs get_bls_public_g2_outside [OF assms])

section \<open>Preservation, and the certificates that come out\<close>

lemma qcm_inv_counted:
  assumes wf: "committee_wf C" and inv: "qcm_inv C m" and a: "authority_of C (v_author vote) = Some x"
    and new: "v_author vote \<notin> qm_used m" and st: "0 < stake_of C (v_author vote)"
    and open_: "\<not> qm_is_qc_formed m"
  defines "m' \<equiv> counted C vote (cleared (qm_pk_bit_vec m) (signer_id C (v_author vote)))
                  (recorded vote (bls_pubkey_g2 x) m)"
  shows "qcm_inv C m'" "qm_weight m' = sum (stake_of C) (insert (v_author vote) (qm_used m))"
proof -
  let ?a = "v_author vote"
  have mem: "?a \<in> members C" using a by (rule authority_of_member)
  have used: "qm_used m \<subseteq> members C" and fin: "finite (qm_used m)"
    using inv by (auto simp: qcm_inv_def intro: finite_subset [of _ "members C"])
  have card: "length (qm_votes m) = card (qm_used m)" using inv by (simp add: qcm_inv_def)
  have w: "qm_weight m = sum (stake_of C) (qm_used m)"
    and bits: "\<forall>i < committee_size C. bit_at (qm_pk_bit_vec m) i \<longleftrightarrow> i \<notin> signer_id C ` qm_used m"
    and agg: "qm_votes m \<noteq> [] \<Longrightarrow> qm_agg_sign m = (\<Sum>v\<leftarrow>qm_votes m. snd v)"
    using inv open_ by (auto simp: qcm_inv_def)
  have "sum (stake_of C) (insert ?a (qm_used m)) < 2 ^ 32"
    using mem used by (intro wf_total_stake [OF wf]) auto
  then show weight: "qm_weight m' = sum (stake_of C) (insert ?a (qm_used m))"
    using new fin w by (simp add: m'_def add.commute)
  have len: "length (qm_pk_bit_vec m) = (cm_n C + 127) div 128" using inv by (simp add: qcm_inv_def)
  have bits': "bit_at (qm_pk_bit_vec m') i \<longleftrightarrow> i \<notin> signer_id C ` insert ?a (qm_used m)"
    if "i < committee_size C" for i
    using bits that wf_chunks [OF wf that] len by (auto simp: m'_def bit_at_cleared)
  have agg': "qm_agg_sign m' = (\<Sum>v\<leftarrow>qm_votes m'. snd v)"
  proof (cases "qm_votes m = []")
    case True
    then show ?thesis by (simp add: m'_def counted_def)
  next
    case False
    then have "2 \<le> length (qm_votes m @ [(bls_pubkey_g2 x, v_signature vote)])"
      by (cases "qm_votes m") auto
    then show ?thesis using agg [OF False] False by (simp add: m'_def counted_def)
  qed
  show "qcm_inv C m'"
    unfolding qcm_inv_def
  proof (intro conjI impI allI)
    show "qm_used m' \<subseteq> {a \<in> members C. 0 < stake_of C a}"
      using inv mem st by (auto simp: m'_def qcm_inv_def)
    show "length (qm_votes m') = card (qm_used m')"
      using card new fin by (simp add: m'_def)
    show "length (qm_pk_bit_vec m') = (cm_n C + 127) div 128"
      using len by (simp add: m'_def)
    show "qm_weight m' = sum (stake_of C) (qm_used m')"
      using weight by (simp add: m'_def)
    show "bit_at (qm_pk_bit_vec m') i = (i \<notin> signer_id C ` qm_used m')"
      if "i < committee_size C" for i
      using bits' [OF that] by (simp add: m'_def)
    show "qm_agg_sign m' = (\<Sum>v\<leftarrow>qm_votes m'. snd v)" by (rule agg')
  qed
qed

lemma qcm_inv_formed: "qcm_inv C m \<Longrightarrow> qcm_inv C (m\<lparr>qm_weight := w, qm_is_qc_formed := True\<rparr>)"
  "qcm_inv C m \<Longrightarrow> qcm_inv C (m\<lparr>qm_is_qc_formed := True\<rparr>)"
  by (simp_all add: qcm_inv_def)

lemma qcm_inv_recorded:
  assumes "qcm_inv C m" "authority_of C (v_author vote) = Some x" "v_author vote \<notin> qm_used m"
    "0 < stake_of C (v_author vote)" "qm_is_qc_formed m"
  shows "qcm_inv C (recorded vote key m)"
proof -
  have "finite (qm_used m)"
    using assms(1) by (auto simp: qcm_inv_def intro: finite_subset [of _ "members C"])
  with assms authority_of_member [OF assms(2)] show ?thesis by (auto simp: qcm_inv_def)
qed

text \<open>One unfolding of \<^verbatim>\<open>append\<close> for a fresh vote on an open maker.\<close>

lemma qcm_append_count:
  assumes wf: "committee_wf C" and inv: "qcm_inv C m" and a: "authority_of C (v_author vote) = Some x"
    and new: "v_author vote \<notin> qm_used m" and st: "0 < stake_of C (v_author vote)"
    and open_: "\<not> qm_is_qc_formed m"
  shows "qcm_append E C vote chk m =
    (let m' = counted C vote (cleared (qm_pk_bit_vec m) (signer_id C (v_author vote)))
                (recorded vote (bls_pubkey_g2 x) m) in
     if v_kind vote = Normal \<and> qm_weight m' = quorum_threshold C \<or>
        v_kind vote = Commit \<and> qm_weight m' = slow_commit_threshold C
     then qcm_seal E C vote False (if chk then m' else m'\<lparr>qm_is_qc_formed := True\<rparr>)
     else if v_kind vote = Normal \<and> qm_weight m' = fast_commit_quorum_threshold C
     then qcm_seal E C vote True (m'\<lparr>qm_weight := 0, qm_is_qc_formed := True\<rparr>)
     else (Ok None, m'))"
proof -
  have "signer_id C (v_author vote) div 128 < length (qm_pk_bit_vec m)"
    using inv wf_chunks [OF wf signer_id_key(2) [OF wf a]] by (simp add: qcm_inv_def)
  then show ?thesis
    using new st open_
    by (simp add: qcm_append_eq [OF a] qcm_count_eq [OF signer_id_key(1) [OF wf a]] Let_def)
qed

lemma qcm_append_inv:
  assumes wf: "committee_wf C" and inv: "qcm_inv C m"
  shows "qcm_inv C (snd (qcm_append E C vote chk m))"
proof (cases "authority_of C (v_author vote)")
  case None
  then have "v_author vote \<notin> members C" using member_authority_of by fastforce
  then show ?thesis using inv by (simp add: qcm_append_outside)
next
  case (Some x)
  show ?thesis
  proof (cases "v_author vote \<in> qm_used m \<or> stake_of C (v_author vote) = 0 \<or> qm_is_qc_formed m")
    case True
    then show ?thesis
      using inv Some by (auto simp: qcm_append_eq intro!: qcm_inv_recorded)
  next
    case False
    with qcm_inv_counted(1) [OF wf inv Some] show ?thesis
      by (simp add: qcm_append_count [OF wf inv Some] Let_def qcm_seal_eq qcm_inv_formed)
  qed
qed

lemma bind_r_cases:
  "bind_r r f = Ok b \<Longrightarrow> (\<And>a. r = Ok a \<Longrightarrow> f a = Ok b \<Longrightarrow> P) \<Longrightarrow> P"
  by (cases r) auto

lemma qcm_seal_Some:
  fixes E :: "('pk::ab_group_add, 's) runtime"
  assumes "fst (qcm_seal E C vote fast m) = Ok (Some q)"
  shows "q = \<lparr>qc_blk_hash = v_blk_hash vote, qc_kind = v_kind vote, qc_round = v_round vote,
              qc_votes = (qm_pk_bit_vec m, qm_agg_sign m), qc_fast_quorum = fast\<rparr>"
    "qc_is_well_formed E C q = Ok ()"
proof -
  obtain ids agg_pk where
    ids: "missing_ids C (qm_pk_bit_vec m) = (Ok ids :: ('s consensus_error, nat list) res)" and
    agg: "remove_pubkeys (combined_pubkey C) ids (sorted_keys C) = (Ok agg_pk :: ('s consensus_error, 'pk) res)" and
    ok: "bls_verify_batch E (digest_bytes (vote_digest E vote)) agg_pk (qm_agg_sign m)" and
    q: "q = \<lparr>qc_blk_hash = v_blk_hash vote, qc_kind = v_kind vote, qc_round = v_round vote,
              qc_votes = (qm_pk_bit_vec m, qm_agg_sign m), qc_fast_quorum = fast\<rparr>"
    using assms by (auto simp: qcm_seal_eq bind_r_Ok_iff)
  show "q = \<lparr>qc_blk_hash = v_blk_hash vote, qc_kind = v_kind vote, qc_round = v_round vote,
              qc_votes = (qm_pk_bit_vec m, qm_agg_sign m), qc_fast_quorum = fast\<rparr>" by (rule q)
  have "vote_digest E vote = qc_digest E q" by (simp add: q vote_qc_digest)
  with ok have "verify_batch E (digest_bytes (qc_digest E q)) agg_pk (snd (qc_votes q)) = Ok ()"
    by (simp add: q)
  with ids agg show "qc_is_well_formed E C q = Ok ()"
    by (simp add: qc_is_well_formed_def q)
qed

text \<open>The threshold a certificate of each kind stands for.\<close>

definition certified_stake :: "'pk committee \<Rightarrow> 's qc \<Rightarrow> stake" where
  "certified_stake C q =
     (if qc_kind q = Commit then slow_commit_threshold C
      else if qc_fast_quorum q then fast_commit_quorum_threshold C
      else quorum_threshold C)"

definition signers :: "'pk::linorder committee \<Rightarrow> 's qc \<Rightarrow> public_key set" where
  "signers C q = {a \<in> members C. \<not> bit_at (fst (qc_votes q)) (signer_id C a)}"

lemma qcm_append_certificate:
  assumes wf: "committee_wf C" and inv: "qcm_inv C m"
    and out: "fst (qcm_append E C vote chk m) = Ok (Some q)"
  shows "qc_blk_hash q = v_blk_hash vote" "qc_kind q = v_kind vote" "qc_round q = v_round vote"
    "qc_is_well_formed E C q = Ok ()"
    "signers C q = insert (v_author vote) (qm_used m)"
    "sum (stake_of C) (signers C q) = certified_stake C q"
    "v_author vote \<notin> qm_used m"
proof -
  obtain x where a: "authority_of C (v_author vote) = Some x"
    using out member_authority_of qcm_append_outside by (metis fst_conv res.distinct(3))
  have new: "v_author vote \<notin> qm_used m" and st: "0 < stake_of C (v_author vote)"
    and open_: "\<not> qm_is_qc_formed m"
    using out by (auto simp: qcm_append_eq [OF a] split: if_splits)
  define m' where "m' = counted C vote (cleared (qm_pk_bit_vec m) (signer_id C (v_author vote)))
                (recorded vote (bls_pubkey_g2 x) m)"
  note inv' = qcm_inv_counted [OF wf inv a new st open_, folded m'_def]
  have used': "qm_used m' = insert (v_author vote) (qm_used m)" by (simp add: m'_def)
  obtain m'' fast where seal: "fst (qcm_seal E C vote fast m'') = Ok (Some q)"
    and m'': "qm_pk_bit_vec m'' = qm_pk_bit_vec m'"
    and w: "v_kind vote = Commit \<and> \<not> fast \<and> qm_weight m' = slow_commit_threshold C \<or>
        v_kind vote = Normal \<and> \<not> fast \<and> qm_weight m' = quorum_threshold C \<or>
        v_kind vote = Normal \<and> fast \<and> qm_weight m' = fast_commit_quorum_threshold C"
  proof -
    have "fst (if v_kind vote = Normal \<and> qm_weight m' = quorum_threshold C \<or>
        v_kind vote = Commit \<and> qm_weight m' = slow_commit_threshold C
     then qcm_seal E C vote False (if chk then m' else m'\<lparr>qm_is_qc_formed := True\<rparr>)
     else if v_kind vote = Normal \<and> qm_weight m' = fast_commit_quorum_threshold C
     then qcm_seal E C vote True (m'\<lparr>qm_weight := 0, qm_is_qc_formed := True\<rparr>)
     else (Ok None, m')) = Ok (Some q)"
      using out unfolding qcm_append_count [OF wf inv a new st open_] Let_def m'_def by simp
    then show ?thesis
      by (auto split: if_splits intro!: that)
  qed
  note q = qcm_seal_Some [OF seal]
  show "qc_blk_hash q = v_blk_hash vote" "qc_kind q = v_kind vote" "qc_round q = v_round vote"
    by (simp_all add: q(1))
  show "qc_is_well_formed E C q = Ok ()" by (rule q(2))
  have "qm_used m' \<subseteq> members C" using inv'(1) by (auto simp: qcm_inv_def)
  moreover have "bit_at (qm_pk_bit_vec m') i \<longleftrightarrow> i \<notin> signer_id C ` qm_used m'"
    if "i < committee_size C" for i
    using inv'(1) that open_ by (simp add: qcm_inv_def m'_def)
  moreover have "signer_id C b < committee_size C" if "b \<in> members C" for b
    using member_authority_of [OF that] signer_id_key(2) [OF wf] by blast
  ultimately have sg: "signers C q = qm_used m'"
    using inj_on_image_mem_iff [OF signer_id_inj [OF wf]] m''
    by (auto simp: signers_def q(1))
  then show "signers C q = insert (v_author vote) (qm_used m)" by (simp add: used')
  have "sum (stake_of C) (signers C q) = qm_weight m'" using sg inv'(2) used' by simp
  with w show "sum (stake_of C) (signers C q) = certified_stake C q"
    by (auto simp: certified_stake_def q(1))
  show "v_author vote \<notin> qm_used m" by (rule new)
qed

section \<open>The invariant of a TCMaker\<close>

definition tm_recorded :: "'pk committee \<Rightarrow> 's timeout \<Rightarrow> 's tc_maker \<Rightarrow> 's tc_maker" where
  "tm_recorded C t m =
     (let m1 = m\<lparr>tm_used := insert (t_author t) (tm_used m),
           tm_votes := tm_votes m @ [(t_author t, t_signature t, qc_round (t_high_qc t))],
           tm_high_votes := tm_high_votes m @ [t_high_vote t],
           tm_weight := add32 (tm_weight m) (stake_of C (t_author t))\<rparr>;
          m2 = (if qc_round (t_high_qc t) > qc_round (tm_high_qc m1) then m1\<lparr>tm_high_qc := t_high_qc t\<rparr> else m1)
      in if wqc_round (t_high_wqc t) > wqc_round (tm_high_wqc m2) then m2\<lparr>tm_high_wqc := t_high_wqc t\<rparr> else m2)"

lemma tm_recorded_simps [simp]:
  "tm_used (tm_recorded C t m) = insert (t_author t) (tm_used m)"
  "tm_votes (tm_recorded C t m) = tm_votes m @ [(t_author t, t_signature t, qc_round (t_high_qc t))]"
  "tm_high_votes (tm_recorded C t m) = tm_high_votes m @ [t_high_vote t]"
  "tm_weight (tm_recorded C t m) = add32 (tm_weight m) (stake_of C (t_author t))"
  "tm_high_qc (tm_recorded C t m) =
     (if qc_round (t_high_qc t) > qc_round (tm_high_qc m) then t_high_qc t else tm_high_qc m)"
  "tm_high_wqc (tm_recorded C t m) =
     (if wqc_round (t_high_wqc t) > wqc_round (tm_high_wqc m) then t_high_wqc t else tm_high_wqc m)"
  by (simp_all add: tm_recorded_def Let_def)

lemma tcm_append_eq:
  "tcm_append E C t m =
    (if t_author t \<in> tm_used m then (Ok (tm_weight m, None), m)
     else case timeout_is_well_formed E C t of
       Ok _ \<Rightarrow>
         (let m' = tm_recorded C t m in
          if view_change_threshold C \<le> tm_weight m' then
            (case check_wqc E C m' of
               Ok maybe_wqc \<Rightarrow>
                 (let m'' = (case maybe_wqc of None \<Rightarrow> m'
                             | Some w \<Rightarrow> if wqc_round w > wqc_round (tm_high_wqc m')
                                          then m'\<lparr>tm_high_wqc := w\<rparr> else m')
                  in (Ok (tm_weight m'', Some \<lparr>tc_high_qc = tm_high_qc m'', tc_high_wqc = tm_high_wqc m'',
                        tc_round = t_round t, tc_votes = tm_votes m''\<rparr>), m''))
             | Err e \<Rightarrow> (Err e, m') | Panic msg \<Rightarrow> (Panic msg, m') | Diverge \<Rightarrow> (Diverge, m'))
          else (Ok (tm_weight m', None), m'))
     | Err e \<Rightarrow> (Err e, m) | Panic msg \<Rightarrow> (Panic msg, m) | Diverge \<Rightarrow> (Diverge, m))"
proof (cases "t_author t \<in> tm_used m")
  case True
  then show ?thesis by (simp add: tcm_append_def monad_defs)
next
  case fresh: False
  show ?thesis
  proof (cases "timeout_is_well_formed E C t")
    case (Ok u)
    let ?m = "tm_recorded C t m"
    have rec: "tcm_append E C t m =
        bind_m (gets_m tm_weight) (\<lambda>weight.
          if view_change_threshold C \<le> weight then
            bind_m (gets_m id) (\<lambda>m.
            bind_m (lift_m (check_wqc E C m)) (\<lambda>maybe_wqc.
            then_m (case maybe_wqc of
                   None \<Rightarrow> ret ()
                 | Some w \<Rightarrow> modify_m (\<lambda>m. if wqc_round w > wqc_round (tm_high_wqc m)
                                            then m\<lparr>tm_high_wqc := w\<rparr> else m))
             (gets_m (\<lambda>m. (tm_weight m,
              Some \<lparr>tc_high_qc = tm_high_qc m, tc_high_wqc = tm_high_wqc m,
                    tc_round = t_round t, tc_votes = tm_votes m\<rparr>)))))
          else ret (weight, None)) ?m"
      using fresh Ok
      by (simp add: tcm_append_def bind_m_def then_m_def lift_m_def gets_m_def modify_m_def
          tm_recorded_def Let_def)
    show ?thesis
    proof (cases "view_change_threshold C \<le> tm_weight ?m")
      case True
      with fresh Ok show ?thesis
        unfolding rec
        by (cases "check_wqc E C ?m")
          (simp_all add: bind_m_def then_m_def lift_m_def gets_m_def modify_m_def ret_def Let_def
            split: option.split)
    next
      case False
      with fresh Ok show ?thesis
        unfolding rec by (simp add: bind_m_def gets_m_def ret_def Let_def)
    qed
  qed (use fresh in \<open>simp_all add: tcm_append_def bind_m_def then_m_def lift_m_def gets_m_def\<close>)
qed

text \<open>
  For the maker of round \<open>r\<close>: its entries are the signed timeouts of distinct members,
  its weight is their stake, and its QC is at least as recent as any they report.
\<close>

definition tcm_inv :: "('pk, 's) runtime \<Rightarrow> 'pk committee \<Rightarrow> round \<Rightarrow> 's tc_maker \<Rightarrow> bool" where
  "tcm_inv E C r m \<longleftrightarrow>
     distinct (map fst (tm_votes m)) \<and> set (map fst (tm_votes m)) = tm_used m \<and>
     tm_used m \<subseteq> members C \<and>
     (\<forall>v \<in> set (tm_votes m). 0 < stake_of C (fst v) \<and> snd (snd v) \<le> qc_round (tm_high_qc m) \<and>
        ed25519_verify E (flatten (fst (snd v)))
          (digest_bytes (timeout_bytes_digest E (snd (snd v)) r)) (key_bytes (fst v))) \<and>
     tm_weight m = (\<Sum>v\<leftarrow>tm_votes m. stake_of C (fst v))"

lemma tcm_inv_new: "tcm_inv E C r (tc_maker_new E)"
  by (simp add: tcm_inv_def tc_maker_new_def)

lemma timeout_wf_D:
  assumes "timeout_is_well_formed E C t = Ok u"
  shows "0 < stake_of C (t_author t)"
    "ed25519_verify E (flatten (t_signature t)) (digest_bytes (timeout_digest E t)) (key_bytes (t_author t))"
  using assms by (auto simp: timeout_is_well_formed_def author_is_authorised_def bind_r_Ok_iff)

lemma distinct_votes_weight:
  assumes wf: "committee_wf C" and "distinct (map fst votes)" "set (map fst votes) \<subseteq> members C"
  shows "(\<Sum>v\<leftarrow>votes. stake_of C (fst v)) < 2 ^ 32"
proof -
  have "(\<Sum>v\<leftarrow>votes. stake_of C (fst v)) = sum (stake_of C) (set (map fst votes))"
    using sum_list_distinct_conv_sum_set [OF assms(2), of "stake_of C"] by (simp add: comp_def)
  also have "\<dots> < 2 ^ 32" by (rule wf_total_stake [OF wf assms(3)])
  finally show ?thesis .
qed

lemma tcm_inv_recorded:
  assumes wf: "committee_wf C" and inv: "tcm_inv E C (t_round t) m" and new: "t_author t \<notin> tm_used m"
    and ok: "timeout_is_well_formed E C t = Ok u"
  shows "tcm_inv E C (t_round t) (tm_recorded C t m)"
proof -
  note t = timeout_wf_D [OF ok]
  have mem: "t_author t \<in> members C" using t(1) by (rule stake_pos_member)
  let ?vs = "tm_votes m @ [(t_author t, t_signature t, qc_round (t_high_qc t))]"
  have d: "distinct (map fst ?vs)" and s: "set (map fst ?vs) \<subseteq> members C"
    using inv new mem by (auto simp: tcm_inv_def)
  have "(\<Sum>v\<leftarrow>?vs. stake_of C (fst v)) < 2 ^ 32" by (rule distinct_votes_weight [OF wf d s])
  with inv have "add32 (tm_weight m) (stake_of C (t_author t)) = (\<Sum>v\<leftarrow>?vs. stake_of C (fst v))"
    by (simp add: tcm_inv_def)
  with inv d s t mem show ?thesis
    by (auto simp: tcm_inv_def timeout_digest_def)
qed

lemma tcm_append_inv:
  assumes wf: "committee_wf C" and inv: "tcm_inv E C (t_round t) m"
  shows "tcm_inv E C (t_round t) (snd (tcm_append E C t m))"
proof -
  have upd: "tcm_inv E C r (m\<lparr>tm_high_wqc := w\<rparr>) = tcm_inv E C r m" for m w r
    by (simp add: tcm_inv_def)
  show ?thesis
    using inv tcm_inv_recorded [OF wf inv]
    by (simp add: tcm_append_eq Let_def upd split: res.split option.split)
qed

lemma tc_signatures_ok:
  assumes "\<forall>v \<in> set votes. ed25519_verify E (flatten (fst (snd v)))
      (digest_bytes (timeout_bytes_digest E (snd (snd v)) r)) (key_bytes (fst v))"
  shows "tc_check_signatures E r votes = Ok ()"
  using assms
proof (induction votes)
  case Nil
  then show ?case by simp
next
  case (Cons v votes)
  obtain a sg q where v: "v = (a, sg, q)" by (cases v)
  with Cons show ?case by (simp add: signature_verify_def)
qed

lemma tcm_append_certificate:
  assumes wf: "committee_wf C" and inv: "tcm_inv E C (t_round t) m"
    and enough: "quorum_threshold C \<le> view_change_threshold C"
    and out: "fst (tcm_append E C t m) = Ok (w, Some tc)"
  shows "tc_is_well_formed E C tc = Ok ()" "tc_round tc = t_round t"
    "view_change_threshold C \<le> (\<Sum>v\<leftarrow>tc_votes tc. stake_of C (fst v))"
proof -
  let ?m = "snd (tcm_append E C t m)"
  have tc: "tc_high_qc tc = tm_high_qc ?m" "tc_votes tc = tm_votes ?m" "tc_round tc = t_round t"
    and vc: "view_change_threshold C \<le> tm_weight ?m"
    using out by (auto simp: tcm_append_eq Let_def split: if_splits res.splits option.splits)
  have inv': "tcm_inv E C (t_round t) ?m" by (rule tcm_append_inv [OF wf inv])
  show "tc_round tc = t_round t" by (rule tc(3))
  show total: "view_change_threshold C \<le> (\<Sum>v\<leftarrow>tc_votes tc. stake_of C (fst v))"
    using inv' vc tc by (simp add: tcm_inv_def)
  have "tc_scan C (tc_high_qc tc) (tc_votes tc) 0 {} = Ok (0 + (\<Sum>v\<leftarrow>tc_votes tc. stake_of C (fst v)))"
    using inv' tc distinct_votes_weight [OF wf, of "tc_votes tc"]
    by (intro tc_scan_complete) (auto simp: tcm_inv_def)
  moreover have "tc_check_signatures E (tc_round tc) (tc_votes tc) = Ok ()"
    using inv' tc by (intro tc_signatures_ok) (auto simp: tcm_inv_def)
  ultimately show "tc_is_well_formed E C tc = Ok ()"
    using enough total by (simp add: tc_is_well_formed_def)
qed

end
