(* ===== verification/Core_Termination.thy ===== *)
theory Core_Termination
  imports Core_Steps Aggregator_Proofs
begin

text \<open>
  Every event is handled to its end. The recursion through \<^verbatim>\<open>handle_vote\<close>
  stops because each nested prepare vote is for a higher round, the one through
  \<^verbatim>\<open>handle_timeout\<close> because a timeout is sent once per round between two expiries of
  the timer, the commit loop because it consumes the index of blocks, and the search for
  missing ancestors because parent links do not run in a circle.
\<close>

section \<open>The checks always return\<close>

lemma returns_scan_bits: "returns (scan_bits votes is)"
  by (induction "is") (auto intro!: returns_intros split: option.split)

lemma returns_missing_ids: "returns (missing_ids C votes)"
  by (simp add: missing_ids_def returns_scan_bits)

lemma returns_remove_pubkeys: "returns (remove_pubkeys agg ids keys)"
  by (induction agg ids keys rule: remove_pubkeys.induct) (auto split: option.split)

lemma returns_combine_rest: "returns (combine_rest agg ids keys)"
  by (induction agg ids keys rule: combine_rest.induct) (auto split: option.split)

lemma returns_combine_key_from_ids: "returns (combine_key_from_ids ids keys)"
  by (auto simp: combine_key_from_ids_def returns_combine_rest split: list.split option.split)

lemma returns_verify: "returns (verify_batch E msg pk sg)" "returns (signature_verify E s d key)"
  by (simp_all add: verify_batch_def signature_verify_def)

lemma returns_qc_is_well_formed: "returns (qc_is_well_formed E C q)"
  unfolding qc_is_well_formed_def
  by (intro returns_intros returns_missing_ids returns_remove_pubkeys returns_verify)

lemma returns_timeout_is_well_formed: "returns (timeout_is_well_formed E C t)"
  unfolding timeout_is_well_formed_def author_is_authorised_def
  by (intro returns_intros returns_verify returns_qc_is_well_formed)

lemma returns_tc_scan: "returns (tc_scan C hq votes w used)"
  by (induction C hq votes w used rule: tc_scan.induct) (auto intro!: returns_intros)

lemma returns_tc_check_signatures: "returns (tc_check_signatures E r votes)"
  by (induction E r votes rule: tc_check_signatures.induct) (auto intro!: returns_intros returns_verify)

lemma returns_tc_is_well_formed: "returns (tc_is_well_formed E C tc)"
  unfolding tc_is_well_formed_def
  by (intro returns_intros returns_tc_scan returns_tc_check_signatures)

lemma returns_proposals: "returns (np_is_well_formed E C p)" "returns (fp_is_well_formed E C p')"
  unfolding np_is_well_formed_def fp_is_well_formed_def block_is_well_formed_def
  by (intro returns_intros returns_verify)+

lemma returns_mempool_verify: "returns (mempool_verify E C payload)"
  by (induction E C payload rule: mempool_verify.induct)
    (auto intro!: returns_intros returns_verify returns_combine_key_from_ids
      simp: certificate_verify_def Let_def)

lemma returns_get_leader: "returns (get_leader e r)"
  unfolding get_leader_def simple_get_leader_def fair_get_leader_def failure_get_leader_def
    rem_usize_def index_vec_def
  by (cases e) (auto intro!: returns_intros)

lemma returns_clear_bit_at: "returns (clear_bit_at bits i)"
  by (auto simp: clear_bit_at_def split: option.split)

lemma halts_qcm_append: "halts_at (qcm_append E C vote fast) m"
  unfolding qcm_append_def qcm_count_def qcm_seal_def get_bls_public_g2_def sorted_key_id_def
    vote_is_well_formed_def
  by (intro halts_intros returns_intros returns_clear_bit_at returns_missing_ids
      returns_remove_pubkeys returns_verify halts_then)

lemma returns_key_lookup: "returns (get_bls_public_g2 C name)" "returns (sorted_key_id C key)"
  by (simp_all add: get_bls_public_g2_def sorted_key_id_def returns_expect)

lemma returns_wqc_fold: "returns (wqc_fold C votes first agg bits ids)"
  by (induction C votes first agg bits ids rule: wqc_fold.induct)
    (auto intro!: returns_intros returns_clear_bit_at returns_key_lookup)

lemma returns_check_wqc: "returns (check_wqc E C m)"
  by (auto simp: check_wqc_def returns_combine_key_from_ids returns_wqc_fold verify_batch_def
      intro!: returns_intros returns_clear_bit_at returns_key_lookup split: option.split list.split)

lemma halts_tcm_append: "halts_at (tcm_append E C t) m"
  using returns_check_wqc [of E C] returns_timeout_is_well_formed [of E C t]
  by (auto simp: halts_at_def tcm_append_eq Let_def returns_def split: res.split)

lemma fst_case: "fst (case x of (r, m) \<Rightarrow> (r, f m)) = fst x"
  by (cases x) simp

lemma halts_on_aggregator:
  "(\<And>a. halts_at m a) \<Longrightarrow> halts_at (on_aggregator m) s"
  by (auto simp: halts_at_def on_aggregator_def split: prod.split) (metis fst_conv)

lemma halts_aggregator_calls:
  "halts_at (on_aggregator (add_commit_vote E v)) s" "halts_at (on_aggregator (add_normal_vote E v)) s"
  "halts_at (on_aggregator (add_timeout E t)) s"
proof -
  have "halts_at (add_commit_vote E v) a" for a
    using halts_qcm_append [of E "ag_committee a" v] by (simp only: halts_at_def add_commit_vote_def Let_def fst_case)
  moreover have "halts_at (add_normal_vote E v) a" for a
    using halts_qcm_append [of E "ag_committee a" v] by (simp only: halts_at_def add_normal_vote_def Let_def fst_case)
  moreover have "halts_at (add_timeout E t) a" for a
    using halts_tcm_append [of E "ag_committee a" t] by (simp only: halts_at_def add_timeout_def Let_def fst_case)
  ultimately show "halts_at (on_aggregator (add_commit_vote E v)) s"
    "halts_at (on_aggregator (add_normal_vote E v)) s" "halts_at (on_aggregator (add_timeout E t)) s"
    by (blast intro: halts_on_aggregator)+
qed

section \<open>Loops\<close>

text \<open>
  \<open>rk\<close> ranks digests so that the parent of every block in memory or on disk ranks below
  the block: the parent links have no circle. Such a rank exists unless a block's digest
  depends on itself, and then \<open>ce_loop_fuel\<close> can be any number above all ranks and above
  the number of blocks in memory.
\<close>

definition loops_bounded :: "('pk, 's, 'db) core_env \<Rightarrow> (digest \<Rightarrow> nat) \<Rightarrow> ('pk, 's, 'db) core \<Rightarrow> bool" where
  "loops_bounded env rk s \<longleftrightarrow>
     finite (dom (uncommitted_blocks s)) \<and> card (dom (uncommitted_blocks s)) < ce_loop_fuel env \<and>
     (\<forall>d. rk d < ce_loop_fuel env) \<and>
     (\<forall>d b. uncommitted_blocks s d = Some b \<longrightarrow> rk (b_parent b) < rk d) \<and>
     (\<forall>d server x b. fst (sync_get_block (ce_runtime env) (ce_rocksdb env) (ce_de env) (c_store s) d server x)
        = Ok (Some b) \<longrightarrow> rk (b_parent b) < rk d)"

definition calm :: "('pk, 's, 'db) core_env \<Rightarrow> (digest \<Rightarrow> nat) \<Rightarrow> ('pk, 's, 'db) core \<Rightarrow> ('pk, 's, 'db) core \<Rightarrow> bool" where
  "calm env rk s s' \<longleftrightarrow>
     (loops_bounded env rk s \<longrightarrow> loops_bounded env rk s' \<and>
        card (dom (uncommitted_blocks s')) \<le> card (dom (uncommitted_blocks s))) \<and>
     c_round s \<le> c_round s' \<and> timeout_syncs s \<subseteq> timeout_syncs s'"

lemma loops_bounded_shrink:
  assumes "loops_bounded env rk s" "m \<subseteq>\<^sub>m uncommitted_blocks s" "uncommitted_blocks s' \<subseteq>\<^sub>m m" "c_store s' = c_store s"
  shows "loops_bounded env rk s' \<and> card (dom (uncommitted_blocks s')) \<le> card (dom (uncommitted_blocks s))"
proof -
  have le: "uncommitted_blocks s' \<subseteq>\<^sub>m uncommitted_blocks s" using assms(2,3) by (blast intro: map_le_trans)
  then have sub: "dom (uncommitted_blocks s') \<subseteq> dom (uncommitted_blocks s)" by (rule map_le_implies_dom_le)
  then have card: "card (dom (uncommitted_blocks s')) \<le> card (dom (uncommitted_blocks s))"
    using assms(1) by (intro card_mono) (auto simp: loops_bounded_def)
  with assms(1,4) sub have "loops_bounded env rk s'"
    using map_le_Some [OF le] by (auto simp: loops_bounded_def intro: finite_subset)
  with card show ?thesis by blast
qed

lemma retain_le: "retain P m \<subseteq>\<^sub>m m"
  unfolding map_le_def by (metis domD retain_eq_Some)

lemma loops_bounded_cong:
  "uncommitted_blocks s' = uncommitted_blocks s \<Longrightarrow> c_store s' = c_store s \<Longrightarrow>
   loops_bounded env rk s' = loops_bounded env rk s"
  by (simp add: loops_bounded_def)

lemma loops_bounded_simps [simp]:
  "loops_bounded env rk (s\<lparr>committable_blocks := x1\<rparr>) = loops_bounded env rk s"
  "loops_bounded env rk (s\<lparr>c_trace := x2\<rparr>) = loops_bounded env rk s"
  "loops_bounded env rk (s\<lparr>c_round := x3\<rparr>) = loops_bounded env rk s"
  "loops_bounded env rk (s\<lparr>uncommitted_qcs := x4\<rparr>) = loops_bounded env rk s"
  "loops_bounded env rk (s\<lparr>timeout_syncs := x5\<rparr>) = loops_bounded env rk s"
  "loops_bounded env rk (s\<lparr>sync_requests := x6\<rparr>) = loops_bounded env rk s"
  "loops_bounded env rk (s\<lparr>last_vote := x7\<rparr>) = loops_bounded env rk s"
  "loops_bounded env rk (s\<lparr>locked := x8\<rparr>) = loops_bounded env rk s"
  "loops_bounded env rk (s\<lparr>c_aggregator := x9\<rparr>) = loops_bounded env rk s"
  "loops_bounded env rk (s\<lparr>last_timeout := x10\<rparr>) = loops_bounded env rk s"
  "loops_bounded env rk (s\<lparr>timer_deadline := x11\<rparr>) = loops_bounded env rk s"
  "loops_bounded env rk (s\<lparr>c_now := x12\<rparr>) = loops_bounded env rk s"
  by (simp_all add: loops_bounded_def)

lemma calm_frame:
  "uncommitted_blocks s' = uncommitted_blocks s \<Longrightarrow> c_store s' = c_store s \<Longrightarrow>
   c_round s \<le> c_round s' \<Longrightarrow> timeout_syncs s \<subseteq> timeout_syncs s' \<Longrightarrow> calm env rk s s'"
  by (simp add: calm_def loops_bounded_cong [of s' s])

interpretation calm: core_vote_steps "calm env rk" env for env rk
proof unfold_locales
  fix env :: "('pk::{linorder, ab_group_add}, 's::ab_group_add, 'db) core_env" and rk and s :: "('pk, 's, 'db) core"
  show "m \<subseteq>\<^sub>m uncommitted_blocks s \<Longrightarrow> calm env rk s (s\<lparr>uncommitted_blocks := m\<rparr>)" for m
    using loops_bounded_shrink [of env rk s m "s\<lparr>uncommitted_blocks := m\<rparr>"] by (simp add: calm_def)
  show "commit_ready env s stack block m \<Longrightarrow> calm env rk s (record_commit block (s\<lparr>uncommitted_blocks := m,
      c_trace := c_trace s @ deliver_effects (c_consensus_only s) stack\<rparr>))" for stack block m
    using loops_bounded_shrink [of env rk s m "record_commit block (s\<lparr>uncommitted_blocks := m,
      c_trace := c_trace s @ deliver_effects (c_consensus_only s) stack\<rparr>)"]
    by (simp add: calm_def commit_ready_def record_commit_def retain_le)
  show "calm env rk s t \<Longrightarrow> calm env rk t u \<Longrightarrow> calm env rk s u" for t u
    by (auto simp: calm_def intro: le_trans)
qed (auto intro: calm_frame simp: neutral_def)

lemma commit_loop_halts:
  "finite (dom (uncommitted_blocks s)) \<Longrightarrow> card (dom (uncommitted_blocks s)) < fuel \<Longrightarrow>
   halts_at (commit_loop env fuel ancestor to_commit) s"
proof (induction fuel arbitrary: ancestor to_commit s)
  case 0
  then show ?case by simp
next
  case (Suc fuel)
  have "halts_at (commit_loop env fuel parent st) (s\<lparr>uncommitted_blocks := (uncommitted_blocks s)(k := None)\<rparr>)"
    if "uncommitted_blocks s k = Some parent" for k parent st
  proof (rule Suc.IH)
    have "card (dom (uncommitted_blocks s)) > 0"
      using Suc.prems(1) that by (auto simp: card_gt_0_iff)
    then show "card (dom (uncommitted_blocks (s\<lparr>uncommitted_blocks := (uncommitted_blocks s)(k := None)\<rparr>))) < fuel"
      using Suc.prems that by (simp add: card_Diff_singleton_if domI)
    show "finite (dom (uncommitted_blocks (s\<lparr>uncommitted_blocks := (uncommitted_blocks s)(k := None)\<rparr>)))"
      by (rule finite_subset [OF _ Suc.prems(1)]) (auto split: if_splits)
  qed
  then show ?case
    by (simp only: commit_loop.simps) (intro halts_intros; simp)
qed

lemma commit_halts: "loops_bounded env rk s \<Longrightarrow> halts_at (commit env block) s"
  unfolding commit_def
  by (intro halts_intros halts_bind commit_loop_halts)
    (auto simp: loops_bounded_def halts_at_def deliver_eq then_m_def bind_m_def modify_m_def)

lemma sync_call_eq:
  "fst (sync_call env d server x s) =
   fst (sync_get_block (ce_runtime env) (ce_rocksdb env) (ce_de env) (c_store s) d server x)"
  by (simp add: sync_call_def bind_m_def gets_m_def then_m_def modify_m_def lift_m_def split: prod.split)

lemma sync_call_halts: "halts_at (sync_call env d server x) s"
  by (simp add: halts_at_def sync_call_eq sync_get_block_def split: sum.split option.split)

lemma ancestors_loop_halts:
  fixes env :: "('pk::{linorder, ab_group_add}, 's::ab_group_add, 'db) core_env"
  shows "loops_bounded env rk s \<Longrightarrow> rk (b_parent b) < fuel \<Longrightarrow> halts_at (ancestors_loop env block fuel b) s"
proof (induction fuel arbitrary: b s)
  case 0
  then show ?case by simp
next
  case (Suc fuel)
  let ?found = "uncommitted_blocks s (b_parent b)"
  let ?get = "case ?found of Some parent \<Rightarrow> ret (Some parent)
             | None \<Rightarrow> sync_call env (b_parent b) (b_author b) (Some block)"
  have get: "halts_at ?get s" by (auto simp: halts_simple sync_call_halts split: option.split)
  have "steps (calm env rk) ?get"
    by (intro calm.steps_intros calm.steps_sync_call)
  then have bnd: "loops_bounded env rk (snd (?get s))"
    using Suc.prems(1) by (auto simp: calm_def dest: stepsD)
  have rank: "rk (b_parent p) < fuel" if "fst (?get s) = Ok (Some p)" for p
  proof -
    have "rk (b_parent p) < rk (b_parent b)"
      using that Suc.prems(1)
      by (auto simp: loops_bounded_def ret_def sync_call_eq split: option.splits)
    with Suc.prems(2) show ?thesis by simp
  qed
  show ?case
    by (simp only: ancestors_loop.simps)
      (intro halts_gets halts_bind get halts_case_option halts_modify_then halts_simple halts_if
        halts_assert_then Suc.IH bnd rank; simp)
qed

lemma have_all_ancestors_halts:
  fixes env :: "('pk::{linorder, ab_group_add}, 's::ab_group_add, 'db) core_env"
  shows "loops_bounded env rk s \<Longrightarrow> halts_at (have_all_ancestors env block) s"
  unfolding have_all_ancestors_def
  by (intro halts_intros ancestors_loop_halts [of env rk]) (simp_all add: loops_bounded_def)

lemma calm_bounded:
  "steps (calm env rk) m \<Longrightarrow> loops_bounded env rk s \<Longrightarrow> loops_bounded env rk (snd (m s))"
  by (auto simp: calm_def dest: stepsD)

lemma commit_if_complete_halts:
  fixes env :: "('pk::{linorder, ab_group_add}, 's::ab_group_add, 'db) core_env"
  assumes "loops_bounded env rk s"
  shows "halts_at (bind_m (have_all_ancestors env block) (\<lambda>all. when_m all (commit env block))) s"
  using assms calm_bounded [OF calm.steps_have_all_ancestors assms]
  by (intro halts_bind halts_when have_all_ancestors_halts commit_halts)

lemma try_commit_halts:
  fixes env :: "('pk::{linorder, ab_group_add}, 's::ab_group_add, 'db) core_env"
  shows "loops_bounded env rk s \<Longrightarrow> halts_at (try_commit_or_sync_ancestor env block) s"
  unfolding try_commit_or_sync_ancestor_def
  by (intro halts_gets halts_assert_then halts_if halts_simple commit_if_complete_halts)

lemma schedule_commit_halts:
  fixes env :: "('pk::{linorder, ab_group_add}, 's::ab_group_add, 'db) core_env"
  shows "loops_bounded env rk s \<Longrightarrow> halts_at (schedule_commit env d r) s"
  unfolding schedule_commit_def
  by (intro halts_modify_then halts_gets halts_case_option halts_simple commit_if_complete_halts [of env rk])
    simp

section \<open>Votes\<close>

lemma qcm_append_kind:
  "results (\<lambda>x. \<forall>q. x = Some q \<longrightarrow> qc_kind q = v_kind v) (qcm_append E C v fast)"
  unfolding qcm_append_def qcm_count_def qcm_seal_def by (intro results_intros) simp_all

lemma add_vote_kind:
  "fst (on_aggregator (add_commit_vote E v) s) = Ok (Some q) \<Longrightarrow> qc_kind q = v_kind v"
  "fst (on_aggregator (add_normal_vote E v) s) = Ok (Some q) \<Longrightarrow> qc_kind q = v_kind v"
  using results_D [OF qcm_append_kind [of v E "ag_committee (c_aggregator s)" False]]
    results_D [OF qcm_append_kind [of v E "ag_committee (c_aggregator s)" True]]
  by (simp_all only: on_aggregator_def add_commit_vote_def add_normal_vote_def fst_case Let_def simp_thms)

lemma halts_emit: "halts_at (emit e) s"
  by (simp add: emit_def halts_simple)

lemma halts_timer_reset: "halts_at timer_reset s"
  by (simp add: timer_reset_def halts_simple)

lemma halts_leader_of: "halts_at (leader_of r) s"
  unfolding leader_of_def by (intro halts_intros returns_get_leader)

lemma halts_broadcast: "halts_at (broadcast m) s"
  unfolding broadcast_def by (intro halts_intros halts_emit)

lemma halts_consensus_address: "halts_at (consensus_address msg x) s"
  unfolding consensus_address_def committee_consensus_def
  by (intro halts_intros) (simp add: halts_simple split: option.split)

lemma halts_send_to: "halts_at (send_to m x) s"
  unfolding send_to_def by (intro halts_intros halts_bind halts_consensus_address halts_emit)

lemma halts_propose: "halts_at (propose_normal q) s" "halts_at (propose_fallback tc) s"
  unfolding propose_normal_def propose_fallback_def propose_if_leader_def
  by (intro halts_intros halts_bind halts_leader_of halts_emit)+

lemma halts_get_block: "halts_at (get_block env d r) s"
  unfolding get_block_def by (intro halts_intros halts_bind halts_leader_of sync_call_halts)

lemma halts_sync_peer: "halts_at (sync_peer x) s"
  unfolding sync_peer_def Let_def
  by (intro halts_intros halts_bind halts_consensus_address halts_then halts_emit)

lemma handle_commit_qc_halts:
  fixes env :: "('pk::{linorder, ab_group_add}, 's::ab_group_add, 'db) core_env"
  shows "loops_bounded env rk s \<Longrightarrow> halts_at (handle_commit_qc env qc) s"
  unfolding handle_commit_qc_def
  by (intro halts_gets halts_when halts_then schedule_commit_halts halts_simple)

text \<open>
  What is asked of the recursive call: it does not disturb the bounds, it returns on
  commit votes, and on prepare votes once the round has passed \<open>r\<close>.
\<close>

definition vote_call_ok ::
  "('pk, 's, 'db) core_env \<Rightarrow> (digest \<Rightarrow> nat) \<Rightarrow> round \<Rightarrow> ('pk, 's, 'db) vote_handler \<Rightarrow> bool" where
  "vote_call_ok env rk r hv \<longleftrightarrow>
     (\<forall>v. steps (calm env rk) (hv v)) \<and>
     (\<forall>v s. loops_bounded env rk s \<longrightarrow> v_kind v = Commit \<or> r < c_round s \<and> c_round s < 2 ^ 64 \<longrightarrow>
        halts_at (hv v) s)"

lemma send_vote_halts:
  assumes "vote_call_ok env rk r0 hv" "loops_bounded env rk s"
    "t = Commit \<or> r0 < c_round s \<and> c_round s < 2 ^ 64"
  shows "halts_at (send_vote env hv b r t) s"
  unfolding send_vote_def emit_def
  using assms
  by (intro halts_gets halts_modify_then halts_then halts_when halts_simple halts_ignore halts_broadcast)
    (auto simp: vote_call_ok_def when_m_def modify_m_def ret_def)

lemma try_vote_halts:
  assumes "vote_call_ok env rk r0 hv" "loops_bounded env rk s" "r0 < c_round s \<and> c_round s < 2 ^ 64"
  shows "halts_at (try_vote env hv) s"
  unfolding try_vote_def send_prepare_vote_def
  using assms by (intro halts_intros returns_expect send_vote_halts) auto

lemma advance_halts:
  assumes "vote_call_ok env rk r0 hv" "loops_bounded env rk s" "r0 \<le> c_round s" "r < 2 ^ 64"
  shows "halts_at (advance_to_round env hv r) s"
  unfolding advance_to_round_def cleanup_proposals_def emit_def timer_reset_def
  using assms
  by (intro halts_gets halts_when halts_modify_then try_vote_halts [OF assms(1)]) auto

lemma calm_mono:
  "steps (calm env rk) m \<Longrightarrow> c_round s \<le> c_round (snd (m s)) \<and> timeout_syncs s \<subseteq> timeout_syncs (snd (m s))"
  unfolding calm_def by (auto dest!: stepsD [where s = s])

lemma handle_prepare_qc_halts:
  fixes env :: "('pk::{linorder, ab_group_add}, 's::ab_group_add, 'db) core_env"
  assumes hv: "vote_call_ok env rk (c_round s) hv" and bnd: "loops_bounded env rk s"
  shows "halts_at (handle_prepare_qc env hv qc) s"
proof -
  have hv': "steps (calm env rk) (hv v)" for v using hv by (simp add: vote_call_ok_def)
  define rest where "rest = bind_m (get_block env (qc_blk_hash qc) (qc_round qc)) (\<lambda>_.
       then_m (broadcast (QCMsg qc)) (advance_to_round env hv (add64 (qc_round qc) 1)))"
  have rest: "halts_at rest t" if "loops_bounded env rk t" "c_round s \<le> c_round t" for t
  proof -
    have "loops_bounded env rk (snd (broadcast (QCMsg qc) (snd (get_block env (qc_blk_hash qc) (qc_round qc) t))))"
      by (intro calm_bounded [OF calm.steps_broadcast] calm_bounded [OF calm.steps_get_block] that)
    moreover have "c_round s \<le> c_round (snd (broadcast (QCMsg qc) (snd (get_block env (qc_blk_hash qc) (qc_round qc) t))))"
      using that(2) calm_mono [OF calm.steps_get_block] calm_mono [OF calm.steps_broadcast] by (meson le_trans)
    ultimately show ?thesis unfolding rest_def
      by (intro halts_bind halts_then halts_get_block halts_broadcast advance_halts [OF hv] add64_bound)
  qed
  define vote where "vote = then_m (modify_m (\<lambda>s. s\<lparr>locked := qc\<rparr>)) (
         then_m (modify_m (\<lambda>s. s\<lparr>c_aggregator := cleanup_timeouts (qc_round (locked s)) (c_aggregator s)\<rparr>)) (
         bind_m (gets_m (\<lambda>s. last_timeout s < qc_round qc)) (\<lambda>may_vote.
           when_m may_vote (send_vote env hv (qc_blk_hash qc) (qc_round qc) Commit))))"
  have vote: "halts_at vote t" if "loops_bounded env rk t" for t
    unfolding vote_def using that
    by (intro halts_modify_then halts_gets halts_when send_vote_halts [OF hv]) auto
  have lock: "steps_at (calm env rk) (when_m b vote) t" if "b \<Longrightarrow> qc_round (locked t) < qc_round qc" for b t
    unfolding vote_def by (intro calm.at_when calm.steps_lock_and_vote hv' that)
  have finish: "halts_at (bind_m (gets_m (\<lambda>s. qc_round (locked s) < qc_round qc)) (\<lambda>higher.
      then_m (when_m higher vote) rest)) t" if t: "loops_bounded env rk t" "c_round s \<le> c_round t" for t
  proof -
    have "calm env rk t (snd (when_m (qc_round (locked t) < qc_round qc) vote t))"
      using lock [of "qc_round (locked t) < qc_round qc" t] by (simp add: steps_at_def)
    with t show ?thesis
      by (intro halts_gets halts_then halts_when vote rest) (auto simp: calm_def)
  qed
  define s1 where "s1 = s\<lparr>uncommitted_qcs := (uncommitted_qcs s)(qc_round qc \<mapsto> qc)\<rparr>"
  have propose: "steps (calm env rk) (when_m b (propose_normal qc))" for b
    by (intro calm.steps_when calm.steps_propose_normal)
  have "loops_bounded env rk s1" "c_round s \<le> c_round s1" using bnd by (simp_all add: s1_def)
  then have "loops_bounded env rk (snd (when_m b (propose_normal qc) s1))"
      "c_round s \<le> c_round (snd (when_m b (propose_normal qc) s1))" for b
    using calm_bounded [OF propose [of b], of s1] calm_mono [OF propose [of b], of s1] by auto
  then have body: "halts_at (bind_m (gets_m (\<lambda>s. c_round s < add64 (qc_round qc) 1)) (\<lambda>behind.
      then_m (when_m behind (propose_normal qc))
       (bind_m (gets_m (\<lambda>s. qc_round (locked s) < qc_round qc)) (\<lambda>higher.
          then_m (when_m higher vote) rest)))) s1"
    by (intro halts_gets halts_then halts_when halts_propose finish)
  show ?thesis
    unfolding handle_prepare_qc_def rest_def [symmetric] vote_def [symmetric]
    by (rule halts_gets, rule halts_when, rule halts_modify_then) (rule body [unfolded s1_def])
qed

lemma handle_qc_halts:
  fixes env :: "('pk::{linorder, ab_group_add}, 's::ab_group_add, 'db) core_env"
  assumes "loops_bounded env rk s" "qc_kind qc = Commit \<or> vote_call_ok env rk (c_round s) hv"
  shows "halts_at (handle_qc env hv qc) s"
  unfolding handle_qc_def
  using assms
  by (intro halts_gets halts_if handle_commit_qc_halts halts_simple handle_prepare_qc_halts) auto

lemma handle_vote_step_halts:
  fixes env :: "('pk::{linorder, ab_group_add}, 's::ab_group_add, 'db) core_env"
  assumes bnd: "loops_bounded env rk s" and ok: "v_kind vote = Commit \<or> vote_call_ok env rk (c_round s) hv"
  shows "halts_at (handle_vote_step env hv vote) s"
proof -
  let ?add = "case v_kind vote of
      Commit \<Rightarrow> on_aggregator (add_commit_vote (ce_runtime env) vote)
    | Normal \<Rightarrow> on_aggregator (add_normal_vote (ce_runtime env) vote)"
  have "loops_bounded env rk (snd (?add s)) \<and> c_round (snd (?add s)) = c_round s"
    using bnd by (auto simp: on_aggregator_def split: vote_type.split prod.split)
  moreover have "halts_at ?add s"
    by (cases "v_kind vote") (simp_all add: halts_aggregator_calls)
  moreover have "qc_kind q = v_kind vote" if "fst (?add s) = Ok (Some q)" for q
    using that by (cases "v_kind vote") (auto dest: add_vote_kind)
  ultimately show ?thesis
    unfolding handle_vote_step_def using ok
    by (intro halts_gets halts_when halts_bind halts_case_option halts_simple handle_qc_halts [of env rk]) auto
qed

lemma handle_vote_at_halts:
  fixes env :: "('pk::{linorder, ab_group_add}, 's::ab_group_add, 'db) core_env"
  assumes "loops_bounded env rk s"
    and "(if v_kind vote = Commit then 1 else 2 + (2 ^ 64 - c_round s)) \<le> depth"
  shows "halts_at (handle_vote_at env depth vote) s"
  using assms
proof (induction depth arbitrary: vote s)
  case 0
  then show ?case by (simp split: if_splits)
next
  case (Suc depth)
  have "vote_call_ok env rk (c_round s) (handle_vote_at env depth)" if "v_kind vote \<noteq> Commit"
    unfolding vote_call_ok_def
  proof (intro conjI allI impI)
    fix v :: "'s vote" and t :: "('pk, 's, 'db) core"
    assume t: "loops_bounded env rk t" "v_kind v = Commit \<or> c_round s < c_round t \<and> c_round t < 2 ^ 64"
    have "(if v_kind v = Commit then 1 else 2 + (2 ^ 64 - c_round t)) \<le> depth"
      using t(2) Suc.prems(2) that by (auto split: if_splits)
    then show "halts_at (handle_vote_at env depth v) t" by (rule Suc.IH [OF t(1)])
  qed (rule calm.steps_handle_vote_at)
  then show ?case using Suc.prems(1) by (auto intro: handle_vote_step_halts)
qed

lemma handle_vote_halts:
  fixes env :: "('pk::{linorder, ab_group_add}, 's::ab_group_add, 'db) core_env"
  assumes "2 ^ 64 + 2 \<le> ce_depth env" "loops_bounded env rk s"
  shows "halts_at (handle_vote env vote) s"
  unfolding handle_vote_def using assms by (intro handle_vote_at_halts [of env rk]) auto

lemma handle_vote_ok:
  fixes env :: "('pk::{linorder, ab_group_add}, 's::ab_group_add, 'db) core_env"
  assumes "2 ^ 64 + 2 \<le> ce_depth env"
  shows "vote_call_ok env rk r (handle_vote env)"
  using assms by (simp add: vote_call_ok_def calm.steps_handle_vote handle_vote_halts)

section \<open>Timeouts\<close>

definition timeout_call_ok ::
  "('pk, 's, 'db) core_env \<Rightarrow> (digest \<Rightarrow> nat) \<Rightarrow> ('pk, 's, 'db) timeout_handler \<Rightarrow> bool" where
  "timeout_call_ok env rk ht \<longleftrightarrow>
     (\<forall>t s. loops_bounded env rk s \<longrightarrow> t_round t \<in> timeout_syncs s \<longrightarrow> halts_at (ht t) s)"

lemma add_timeout_round:
  assumes "fst (on_aggregator (add_timeout E t) s) = Ok (w, Some tc)"
  shows "tc_round tc = t_round t"
proof -
  have "results (\<lambda>x. \<forall>tc. snd x = Some tc \<longrightarrow> tc_round tc = t_round t) (tcm_append E (ag_committee (c_aggregator s)) t)"
    unfolding tcm_append_def by (intro results_intros) simp_all
  from results_D [OF this] assms show ?thesis
    unfolding on_aggregator_def add_timeout_def Let_def fst_case by (metis snd_conv)
qed

lemma send_timeout_halts:
  assumes "\<And>t s1. r \<notin> timeout_syncs s \<Longrightarrow> t_round t = r \<Longrightarrow> loops_bounded env rk s1 \<Longrightarrow> c_round s1 = c_round s \<Longrightarrow>
      timeout_syncs s1 = insert r (timeout_syncs s) \<Longrightarrow> halts_at (ht t) s1"
    and "loops_bounded env rk s"
  shows "halts_at (send_timeout env ht r) s"
  unfolding send_timeout_def emit_def timer_reset_def
  using assms(2)
  by (intro halts_gets halts_when halts_modify_then halts_then halts_broadcast assms(1)) simp_all

lemma send_timeout_sent: "r \<in> timeout_syncs s \<Longrightarrow> halts_at (send_timeout env ht r) s"
  unfolding send_timeout_def by (intro halts_gets halts_when) simp

lemma send_timeout_ok:
  assumes "r \<in> timeout_syncs s \<or> timeout_call_ok env rk ht" "loops_bounded env rk s"
  shows "halts_at (send_timeout env ht r) s"
proof (cases "r \<in> timeout_syncs s")
  case True
  then show ?thesis by (rule send_timeout_sent)
next
  case False
  with assms show ?thesis
    by (intro send_timeout_halts [of r s env rk]) (auto simp: timeout_call_ok_def)
qed

text \<open>
  \<open>halts_on\<close>: the handler returns from every state that keeps the bounds and in which
  the timeout of round \<open>r\<close> has been sent (or need not have been).
\<close>

definition ready_at ::
  "('pk, 's, 'db) core_env \<Rightarrow> (digest \<Rightarrow> nat) \<Rightarrow> round \<Rightarrow> bool \<Rightarrow> ('pk, 's, 'db) core \<Rightarrow> bool" where
  "ready_at env rk r P s \<longleftrightarrow> loops_bounded env rk s \<and> (r \<in> timeout_syncs s \<or> P)"

definition halts_on :: "('st \<Rightarrow> bool) \<Rightarrow> ('st, 'e, 'a) handler \<Rightarrow> bool" where
  "halts_on G m \<longleftrightarrow> (\<forall>s. G s \<longrightarrow> halts_at m s)"

lemma halts_onI: "(\<And>s. G s \<Longrightarrow> halts_at m s) \<Longrightarrow> halts_on G m"
  by (simp add: halts_on_def)

lemma ready_after:
  "steps (calm env rk) m \<Longrightarrow> ready_at env rk r P s \<Longrightarrow> ready_at env rk r P (snd (m s))"
  using calm_bounded [of env rk m s] calm_mono [of env rk m s] by (auto simp: ready_at_def)

lemma on_bind:
  "steps (calm env rk) m \<Longrightarrow> halts_on (ready_at env rk r P) m \<Longrightarrow>
   (\<And>a. halts_on (ready_at env rk r P) (f a)) \<Longrightarrow> halts_on (ready_at env rk r P) (bind_m m f)"
  by (auto simp: halts_on_def intro!: halts_bind dest: ready_after)

lemma on_then:
  "steps (calm env rk) m \<Longrightarrow> halts_on (ready_at env rk r P) m \<Longrightarrow>
   halts_on (ready_at env rk r P) m' \<Longrightarrow> halts_on (ready_at env rk r P) (then_m m m')"
  unfolding then_m_def by (rule on_bind)

lemma on_gets: "(\<And>a. halts_on G (f a)) \<Longrightarrow> halts_on G (bind_m (gets_m g) f)"
  by (simp add: halts_on_def halts_gets)

lemma on_when: "(b \<Longrightarrow> halts_on G m) \<Longrightarrow> halts_on G (when_m b m)"
  by (simp add: halts_on_def halts_when)

lemma on_case_option:
  "(x = None \<Longrightarrow> halts_on G m) \<Longrightarrow> (\<And>a. x = Some a \<Longrightarrow> halts_on G (f a)) \<Longrightarrow>
   halts_on G (case x of None \<Rightarrow> m | Some a \<Rightarrow> f a)"
  by (cases x) auto

lemma on_simple:
  "halts_on G (ret a)" "halts_on G (modify_m h)" "returns x \<Longrightarrow> halts_on G (lift_m x)"
  "halts_on G (propose_fallback tc)" "halts_on G (leader_of r)" "halts_on G (send_to msg who)"
  "halts_on G (on_aggregator (add_timeout E t))" "halts_on G (handle_wqc w)"
  by (simp_all add: halts_on_def halts_simple halts_lift halts_propose halts_leader_of halts_send_to
      halts_aggregator_calls handle_wqc_def)

lemmas calm_calls =
  calm.steps_handle_qc [OF calm.steps_handle_vote] calm.steps_handle_wqc calm.steps_lift
  calm.steps_propose_fallback calm.steps_leader_of calm.steps_send_to calm.steps_gets

lemma calm_add_timeout:
  fixes env :: "('pk::{linorder, ab_group_add}, 's::ab_group_add, 'db) core_env"
  shows "steps (calm env rk) (on_aggregator (add_timeout (ce_runtime env) t))"
  by (rule calm.steps_on_aggregator) (auto simp: agg_step_def)

lemma on_handle_qc:
  fixes env :: "('pk::{linorder, ab_group_add}, 's::ab_group_add, 'db) core_env"
  assumes "2 ^ 64 + 2 \<le> ce_depth env"
  shows "halts_on (ready_at env rk r P) (handle_qc env (handle_vote env) qc)"
  using handle_vote_ok [OF assms]
  by (auto simp: ready_at_def intro!: halts_onI handle_qc_halts [of env rk])

lemma on_advance:
  fixes env :: "('pk::{linorder, ab_group_add}, 's::ab_group_add, 'db) core_env"
  assumes "2 ^ 64 + 2 \<le> ce_depth env"
  shows "halts_on (ready_at env rk r P) (advance_to_round env (handle_vote env) (add64 x 1))"
  using handle_vote_ok [OF assms, of rk 0] add64_bound
  by (auto simp: ready_at_def simp del: add64_small intro!: halts_onI advance_halts [of env rk 0])

lemma on_send_timeout: "halts_on (ready_at env rk r (timeout_call_ok env rk ht)) (send_timeout env ht r)"
  by (rule halts_onI) (auto simp: ready_at_def intro: send_timeout_ok)

lemma on_handle_tc:
  fixes env :: "('pk::{linorder, ab_group_add}, 's::ab_group_add, 'db) core_env"
  assumes depth: "2 ^ 64 + 2 \<le> ce_depth env" and ht: "\<And>t. steps (calm env rk) (ht t)"
  shows "halts_on (ready_at env rk (tc_round tc) (timeout_call_ok env rk ht)) (handle_tc env ht tc)"
  unfolding handle_tc_def
  by (intro on_gets on_when on_then on_bind on_simple on_handle_qc [OF depth] on_advance [OF depth]
      on_send_timeout returns_tc_is_well_formed calm_calls calm.steps_send_timeout [OF ht])

lemma handle_timeout_step_halts:
  fixes env :: "('pk::{linorder, ab_group_add}, 's::ab_group_add, 'db) core_env"
  assumes depth: "2 ^ 64 + 2 \<le> ce_depth env" and ht: "\<And>t. steps (calm env rk) (ht t)"
    and s: "ready_at env rk (t_round timeout) (timeout_call_ok env rk ht) s"
    and low: "t_round timeout < c_round s \<Longrightarrow> halts_at (send_timeout env ht (sub64 (c_round s) 1)) s"
  shows "halts_at (handle_timeout_step env ht timeout) s"
proof -
  let ?G = "ready_at env rk (t_round timeout) (timeout_call_ok env rk ht)"
  have tc1: "halts_on ?G (handle_tc env ht tc)" if "tc_round tc = t_round timeout" for tc
    using on_handle_tc [OF depth ht, of tc] that by simp
  have tc: "halts_on ?G (when_m b (then_m (send_timeout env ht (t_round timeout))
      (case maybe_tc of Some tc \<Rightarrow> handle_tc env ht tc | None \<Rightarrow> ret ())))"
    if "\<And>tc. maybe_tc = Some tc \<Longrightarrow> tc_round tc = t_round timeout" for b maybe_tc
    by (intro on_when on_then on_send_timeout on_case_option on_simple calm.steps_send_timeout [OF ht] tc1 that)
  have high: "halts_at (bind_m (on_aggregator (add_timeout (ce_runtime env) timeout)) (\<lambda>(votes, maybe_tc).
        when_m (votes \<ge> validity_threshold C) (
          then_m (send_timeout env ht (t_round timeout))
            (case maybe_tc of Some tc \<Rightarrow> handle_tc env ht tc | None \<Rightarrow> ret ())))) t" if "?G t" for t C
  proof (rule halts_bind)
    fix x assume x: "fst (on_aggregator (add_timeout (ce_runtime env) timeout) t) = Ok x"
    obtain votes maybe_tc where xx: "x = (votes, maybe_tc)" by (cases x)
    have "tc_round tc = t_round timeout" if "maybe_tc = Some tc" for tc
      using x xx that add_timeout_round [of "ce_runtime env" timeout t votes tc] by simp
    from tc [OF this] ready_after [OF calm_add_timeout that]
    show "halts_at (case x of (votes, maybe_tc) \<Rightarrow> when_m (votes \<ge> validity_threshold C) (
          then_m (send_timeout env ht (t_round timeout))
            (case maybe_tc of Some tc \<Rightarrow> handle_tc env ht tc | None \<Rightarrow> ret ())))
        (snd (on_aggregator (add_timeout (ce_runtime env) timeout) t))"
      by (simp add: xx halts_on_def)
  qed (rule halts_aggregator_calls)
  have "halts_at (handle_qc env (handle_vote env) (t_high_qc timeout)) s"
    using on_handle_qc [OF depth] s by (auto simp: halts_on_def)
  moreover have "?G (snd (handle_qc env (handle_vote env) (t_high_qc timeout) s))"
    by (rule ready_after [OF calm_calls(1) s])
  ultimately show ?thesis
    unfolding handle_timeout_step_def Let_def
    using low high
    by (intro halts_gets halts_if halts_lift_bind halts_when halts_sync_peer halts_then)
      (auto simp: author_is_authorised_def intro!: returns_intros)
qed

lemma handle_timeout_at_sent:
  fixes env :: "('pk::{linorder, ab_group_add}, 's::ab_group_add, 'db) core_env"
  assumes depth: "2 ^ 64 + 2 \<le> ce_depth env"
  shows "timeout_call_ok env rk (handle_timeout_at env (Suc (Suc n)))"
proof -
  note step = handle_timeout_step_halts [OF depth calm.steps_handle_timeout_at [where rk = rk]]
  have once: "halts_at (handle_timeout_at env (Suc m) t) s"
    if s: "loops_bounded env rk s" "t_round t \<in> timeout_syncs s"
      "c_round s \<le> t_round t \<or> sub64 (c_round s) 1 \<in> timeout_syncs s" for m t s
    unfolding handle_timeout_at.simps
  proof (rule step)
    show "halts_at (send_timeout env (handle_timeout_at env m) (sub64 (c_round s) 1)) s" if "t_round t < c_round s"
      using s(3) that by (intro send_timeout_sent) simp
  qed (use s in \<open>simp add: ready_at_def\<close>)
  have twice: "halts_at (handle_timeout_at env (Suc (Suc n)) t) s"
    if s: "loops_bounded env rk s" "t_round t \<in> timeout_syncs s" for t s
    unfolding handle_timeout_at.simps(2) [of env "Suc n"]
  proof (rule step)
    show "halts_at (send_timeout env (handle_timeout_at env (Suc n)) (sub64 (c_round s) 1)) s"
      by (rule send_timeout_halts [OF once s(1)]) simp_all
  qed (use s in \<open>simp add: ready_at_def\<close>)
  then show ?thesis unfolding timeout_call_ok_def by blast
qed

lemma handle_timeout_ok:
  fixes env :: "('pk::{linorder, ab_group_add}, 's::ab_group_add, 'db) core_env"
  assumes depth: "2 ^ 64 + 2 \<le> ce_depth env"
  shows "timeout_call_ok env rk (handle_timeout env)"
    "loops_bounded env rk s \<Longrightarrow> halts_at (handle_timeout env t) s"
proof -
  have "3 \<le> ce_depth env" using depth by simp
  then have "ce_depth env = Suc (Suc (Suc (ce_depth env - 3)))" by simp
  then obtain n where n: "ce_depth env = Suc (Suc (Suc n))" ..
  show "timeout_call_ok env rk (handle_timeout env)"
    unfolding handle_timeout_def n by (rule handle_timeout_at_sent [OF depth])
  note ok = handle_timeout_at_sent [OF depth, of rk n]
  show "halts_at (handle_timeout env t) s" if s: "loops_bounded env rk s"
    unfolding handle_timeout_def n handle_timeout_at.simps(2) [of env "Suc (Suc n)"]
  proof (rule handle_timeout_step_halts [OF depth calm.steps_handle_timeout_at [where rk = rk]])
    show "ready_at env rk (t_round t) (timeout_call_ok env rk (handle_timeout_at env (Suc (Suc n)))) s"
      using ok s by (simp only: ready_at_def simp_thms)
    show "halts_at (send_timeout env (handle_timeout_at env (Suc (Suc n))) (sub64 (c_round s) 1)) s"
      by (rule send_timeout_ok [OF disjI2 [OF ok] s])
  qed
qed

section \<open>Events\<close>

text \<open>
  Before a turn: room for one more block in memory, and the rank also covers the block the
  event may carry.
\<close>

definition event_block :: "'s core_event \<Rightarrow> 's block option" where
  "event_block ev =
     (case ev of
        RxMessage (Propose (PropF p)) \<Rightarrow> Some (fp_block p)
      | RxMessage (Propose (PropN p)) \<Rightarrow> Some (np_block p)
      | RxMessage (SyncResponse b) \<Rightarrow> Some b
      | RxProposer (PropF p) \<Rightarrow> Some (fp_block p)
      | RxProposer (PropN p) \<Rightarrow> Some (np_block p)
      | _ \<Rightarrow> None)"

definition codec_laws :: "('pk, 's, 'db) core_env \<Rightarrow> 's block \<Rightarrow> bool" where
  "codec_laws env b \<longleftrightarrow> kv_laws (ce_rocksdb env) \<and> ce_de env (ce_ser env b) = Some b"

definition room_for :: "('pk, 's, 'db) core_env \<Rightarrow> (digest \<Rightarrow> nat) \<Rightarrow> 's block \<Rightarrow> bool" where
  "room_for env rk b \<longleftrightarrow> rk (b_parent b) < rk (block_digest (ce_runtime env) b)"

lemma store_block_bounded:
  fixes env :: "('pk::{linorder, ab_group_add}, 's::ab_group_add, 'db) core_env"
  assumes laws: "codec_laws env b" and room: "room_for env rk b"
    and s: "loops_bounded env rk s" "Suc (card (dom (uncommitted_blocks s))) < ce_loop_fuel env"
  shows "loops_bounded env rk (snd (store_block env b s))"
proof (cases "b_round b > b_round (last_commit s)")
  case False
  then show ?thesis using s
    by (simp add: store_block_def bind_m_def gets_m_def then_m_def assert_m_def panic_def)
next
  case True
  let ?d = "block_digest (ce_runtime env) b" and ?s' = "snd (store_block env b s)"
  obtain replies st where w: "store_write (ce_rocksdb env) (to_vec ?d) (ce_ser env b) (c_store s) = (replies, st)"
    by fastforce
  have run: "uncommitted_blocks ?s' = (uncommitted_blocks s)(?d \<mapsto> b)" "c_store ?s' = st"
    using True w
    by (simp_all add: store_block_def bind_m_def gets_m_def then_m_def assert_m_def ret_def modify_m_def
        ignore_m_def observe_payload_def emit_def write_block_def update_pending_proposals_def)
  have db: "st_db st = db_put (ce_rocksdb env) (st_db (c_store s)) (to_vec ?d) (ce_ser env b)"
    using st_db_write [of "ce_rocksdb env" "to_vec ?d" "ce_ser env b" "c_store s"] w by simp
  have "rk (b_parent p) < rk d"
    if "fst (sync_get_block (ce_runtime env) (ce_rocksdb env) (ce_de env) st d server x) = Ok (Some p)" for d server x p
  proof (cases "d = ?d \<and> d \<noteq> qc_blk_hash (qc_genesis (ce_runtime env))")
    case True
    with that laws db have "p = b" by (auto simp: sync_get_block_def codec_laws_def kv_laws_def)
    with True room show ?thesis by (simp add: room_for_def)
  next
    case False
    then have "d = qc_blk_hash (qc_genesis (ce_runtime env)) \<or> to_vec d \<noteq> to_vec ?d"
      by (auto simp: to_vec_def intro: digest.expand)
    then have "fst (sync_get_block (ce_runtime env) (ce_rocksdb env) (ce_de env) (c_store s) d server x) = Ok (Some p)"
      using that laws db by (auto simp: sync_get_block_def codec_laws_def kv_laws_def)
    then show ?thesis using s(1) by (simp add: loops_bounded_def)
  qed
  moreover have "card (dom ((uncommitted_blocks s)(?d \<mapsto> b))) < ce_loop_fuel env"
    using s by (simp add: loops_bounded_def card_insert_if)
  ultimately show ?thesis
    using s(1) room by (auto simp: loops_bounded_def run room_for_def split: if_splits)
qed

lemma store_block_halts: "halts_at (store_block env b) s"
  unfolding store_block_def observe_payload_def
  by (intro halts_intros halts_then halts_emit)

definition spacious :: "('pk, 's, 'db) core_env \<Rightarrow> (digest \<Rightarrow> nat) \<Rightarrow> ('pk, 's, 'db) core \<Rightarrow> bool" where
  "spacious env rk s \<longleftrightarrow>
     loops_bounded env rk s \<and> Suc (card (dom (uncommitted_blocks s))) < ce_loop_fuel env"

lemma spacious_after: "steps (calm env rk) m \<Longrightarrow> spacious env rk s \<Longrightarrow> spacious env rk (snd (m s))"
  unfolding spacious_def calm_def by (auto dest!: stepsD [where s = s])

lemma can_accept_block_halts: "halts_at (can_accept_block env block) s"
  unfolding can_accept_block_def Let_def
  by (intro halts_intros halts_bind halts_leader_of returns_intros returns_mempool_verify halts_then)

lemma accept_then_commit_halts:
  fixes env :: "('pk::{linorder, ab_group_add}, 's::ab_group_add, 'db) core_env"
  assumes "codec_laws env b" "room_for env rk b" "spacious env rk s"
    and "\<And>t. loops_bounded env rk t \<Longrightarrow> halts_at m t"
  shows "halts_at (then_m (store_block env b) (then_m (try_commit_or_sync_ancestor env b) m)) s"
    "halts_at (then_m (store_block env b) (try_commit_or_sync_ancestor env b)) s"
proof -
  have "loops_bounded env rk (snd (store_block env b s))"
    using assms store_block_bounded [of env b rk s] by (simp add: spacious_def)
  then show "halts_at (then_m (store_block env b) (then_m (try_commit_or_sync_ancestor env b) m)) s"
    "halts_at (then_m (store_block env b) (try_commit_or_sync_ancestor env b)) s"
    by (intro halts_then store_block_halts try_commit_halts [of env rk] assms(4)
        calm_bounded [OF calm.steps_try_commit]; assumption)+
qed

lemma try_vote_top_halts:
  fixes env :: "('pk::{linorder, ab_group_add}, 's::ab_group_add, 'db) core_env"
  assumes depth: "2 ^ 64 + 2 \<le> ce_depth env" and "loops_bounded env rk s"
  shows "halts_at (try_vote env (handle_vote env)) s"
  unfolding try_vote_def send_prepare_vote_def send_vote_def emit_def
  using assms(2)
  by (intro halts_gets halts_case_option halts_simple halts_lift_bind returns_expect halts_when
      halts_modify_then halts_then halts_broadcast halts_ignore handle_vote_halts [OF depth, of rk])
    (simp_all add: when_m_def modify_m_def ret_def)

lemma process_block_halts:
  fixes env :: "('pk::{linorder, ab_group_add}, 's::ab_group_add, 'db) core_env"
  assumes depth: "2 ^ 64 + 2 \<le> ce_depth env" and "codec_laws env b" "room_for env rk b" "spacious env rk s"
  shows "halts_at (process_block env b) s"
  unfolding process_block_def
  using assms spacious_after [OF calm.steps_can_accept_block assms(4), of b]
  by (intro halts_bind can_accept_block_halts halts_when accept_then_commit_halts [where env = env and rk = rk] try_vote_top_halts)

lemma handle_proposal_halts:
  fixes env :: "('pk::{linorder, ab_group_add}, 's::ab_group_add, 'db) core_env"
  assumes depth: "2 ^ 64 + 2 \<le> ce_depth env" and s: "spacious env rk s"
    and room: "\<And>b. event_block (RxProposer p) = Some b \<Longrightarrow> codec_laws env b \<and> room_for env rk b"
  shows "halts_at (handle_proposal env p) s"
proof (cases p)
  case (PropF f)
  have call: "steps (calm env rk) (handle_tc env (handle_timeout env) (fp_tc f))"
    by (rule calm.steps_handle_tc [OF calm.steps_handle_timeout])
  have "halts_at (handle_tc env (handle_timeout env) (fp_tc f)) s"
    using on_handle_tc [OF depth calm.steps_handle_timeout, of rk "fp_tc f"] handle_timeout_ok(1) [OF depth] s
    by (auto simp: halts_on_def ready_at_def spacious_def)
  with PropF room spacious_after [OF call s] show ?thesis
    by (auto simp: handle_proposal_def process_fallback_recovery_proposal_def event_block_def
        intro!: halts_then halts_gets halts_lift returns_proposals process_block_halts [OF depth, of _ rk])
      (simp add: lift_m_def)
next
  case (PropN n)
  have call: "steps (calm env rk) (handle_qc env (handle_vote env) (np_qc n))"
    by (rule calm.steps_handle_qc [OF calm.steps_handle_vote])
  have "halts_at (handle_qc env (handle_vote env) (np_qc n)) s"
    using handle_vote_ok [OF depth] s by (auto simp: spacious_def intro!: handle_qc_halts [of env rk])
  with PropN room spacious_after [OF call s] show ?thesis
    by (auto simp: handle_proposal_def process_normal_proposal_def event_block_def
        intro!: halts_then halts_gets halts_lift returns_proposals process_block_halts [OF depth, of _ rk])
      (simp add: lift_m_def)
qed

lemma handle_sync_response_halts:
  fixes env :: "('pk::{linorder, ab_group_add}, 's::ab_group_add, 'db) core_env"
  assumes "codec_laws env b" "room_for env rk b" "spacious env rk s"
  shows "halts_at (handle_sync_response env b) s"
  unfolding handle_sync_response_def Let_def
  using assms
  by (intro halts_gets halts_modify_then halts_when accept_then_commit_halts(2) [where env = env and rk = rk and m = "ret ()"])
    (simp_all add: spacious_def halts_simple)

lemma sanitize_halts: "halts_at (sanitize_certificate env qc) s"
  unfolding sanitize_certificate_def
  by (intro halts_gets halts_if halts_simple)
    (auto split: vote_type.split intro!: halts_intros returns_qc_is_well_formed)

lemma core_select_halts:
  fixes env :: "('pk::{linorder, ab_group_add}, 's::ab_group_add, 'db) core_env"
  assumes depth: "2 ^ 64 + 2 \<le> ce_depth env" and s: "spacious env rk s"
    and room: "\<And>b. event_block ev = Some b \<Longrightarrow> codec_laws env b \<and> room_for env rk b"
  shows "halts_at (core_select env ev) s"
proof -
  have bnd: "loops_bounded env rk s" using s by (simp add: spacious_def)
  have qc: "halts_at (handle_qc env (handle_vote env) q) t" if "loops_bounded env rk t" for q t
    using handle_vote_ok [OF depth] that by (auto intro!: handle_qc_halts [of env rk])
  have same: "snd (sanitize_certificate env q s) = s" for q
    by (auto simp: sanitize_certificate_def bind_m_def gets_m_def lift_m_def ret_def split: vote_type.split)
  have tc: "halts_at (handle_tc env (handle_timeout env) x) s" for x
    using on_handle_tc [OF depth calm.steps_handle_timeout, of rk x] handle_timeout_ok(1) [OF depth] bnd
    by (auto simp: halts_on_def ready_at_def)
  have timer: "halts_at (local_timeout_round env) s"
    unfolding local_timeout_round_def using bnd
    by (intro halts_modify_then halts_gets send_timeout_ok [of _ _ env rk] disjI2 handle_timeout_ok(1) [OF depth]) simp
  have proposal: "halts_at (handle_proposal env p) s" if "ev = RxProposer p \<or> ev = RxMessage (Propose p)" for p
    using that room by (intro handle_proposal_halts [OF depth s]) (auto simp: event_block_def split: proposal_message.splits)
  show ?thesis
  proof (cases ev)
    case (RxMessage m)
    then show ?thesis
      using bnd proposal handle_vote_halts [OF depth bnd] handle_timeout_ok(2) [OF depth bnd] tc qc room same
        handle_sync_response_halts [OF _ _ s]
      by (cases m) (auto simp: core_select_def dispatch_message_def event_block_def halts_simple sanitize_halts
          intro!: halts_then)
  next
    case (RxSynchronizer b)
    then show ?thesis using bnd
      by (auto simp: core_select_def handle_synchronizer_loopback_def
          intro!: halts_gets halts_when try_commit_halts [of env rk])
  qed (auto simp: core_select_def proposal halts_simple intro!: halts_gets halts_when timer)
qed

end
