(* ===== verification/Instance.thy ===== *)
theory Instance
  imports Core "HOL-Library.Code_Target_Numeral"
begin

text \<open>
  A concrete committee, runtime and database on which the definitions are evaluated: the
  hash of a byte string is its length, a BLS signature verifies under the key it equals,
  the database is a map.
\<close>

text \<open>Testing a bit evaluates faster than masking it out.\<close>

lemma scan_bits_code [code]:
  "scan_bits votes [] = Ok []"
  "scan_bits votes (idx # rest) =
     (case nth_opt votes (idx div 128) of
        None \<Rightarrow> Panic ''index out of bounds''
      | Some chunk \<Rightarrow>
          bind_r (scan_bits votes rest) (\<lambda>ids. Ok (if bit chunk (idx mod 128) then idx # ids else ids)))"
  by (simp_all add: and_exp_eq_0_iff_not_bit chunk_offset split: option.split)

lemma certificate_ids_code [code]: "certificate_ids bits n = filter (\<lambda>idx. bit bits (idx mod 128)) [0..<n]"
  by (simp add: certificate_ids_def and_exp_eq_0_iff_not_bit)

definition toy_runtime :: "(int, int) runtime" where
  "toy_runtime = \<lparr>sha512 = (\<lambda>m. [word_of_nat (length m)]), ed25519_sign = (\<lambda>m. []),
     ed25519_verify = (\<lambda>sg m key. True), bls_sign = (\<lambda>m. 7),
     bls_verify_batch = (\<lambda>m key sg. key = sg), bls_default = 0, hash_order = id\<rparr>"

definition toy_db :: "(key \<rightharpoonup> val) rocksdb" where
  "toy_db = \<lparr>db_put = (\<lambda>m k v. m(k \<mapsto> v)), db_get = (\<lambda>m k. Inr (m k))\<rparr>"

definition toy_addr :: "u8 \<Rightarrow> socket_addr" where
  "toy_addr i = SocketAddr [127, 0, 0, i] 9000"

definition toy_authority :: "u8 \<Rightarrow> u32 \<Rightarrow> int \<Rightarrow> int authority" where
  "toy_authority i n key = \<lparr>a_id = n, bls_pubkey_g2 = key, is_honest = True, a_stake = 1,
     a_consensus = \<lparr>consensus_to_consensus = toy_addr i\<rparr>,
     a_primary = \<lparr>primary_to_primary = toy_addr i, worker_to_primary = toy_addr i\<rparr>,
     a_workers = [(0, \<lparr>wa_transactions = toy_addr i, worker_to_worker = toy_addr i, primary_to_worker = toy_addr i\<rparr>)]\<rparr>"

definition me :: public_key where
  "me = PublicKey [1]"

text \<open>Four members of stake one: \<open>f = 1\<close>, \<open>c = k = 0\<close>; three votes are a quorum.\<close>

definition quartet :: "int committee" where
  "quartet = \<lparr>authorities = [(me, toy_authority 1 0 7), (PublicKey [2], toy_authority 2 1 8),
       (PublicKey [3], toy_authority 3 2 9), (PublicKey [4], toy_authority 4 3 10)],
     sorted_keys = [7, 8, 9, 10], combined_pubkey = 34,
     cm_n = 4, cm_f = 1, cm_c = 0, cm_k = 0, cm_p = 0, cm_quorum_threshold = 3,
     cm_slow_commit_threshold = 3, cm_fast_commit_threshold = 4, cm_view_change_threshold = 3\<rparr>"

definition toy_env :: "nat \<Rightarrow> nat \<Rightarrow> (int, int, key \<rightharpoonup> val) core_env" where
  "toy_env fuel depth = \<lparr>ce_runtime = toy_runtime, ce_rocksdb = toy_db,
     ce_ser = (\<lambda>b. u64_to_le_bytes (b_round b)), ce_de = (\<lambda>_. None),
     ce_loop_fuel = fuel, ce_depth = depth\<rparr>"

definition toy_elector :: leader_elector where
  "toy_elector = SimpleElector \<lparr>se_node_ids = [me, PublicKey [2], PublicKey [3], PublicKey [4]], se_n = 4\<rparr>"

definition toy_start :: "public_key \<Rightarrow> (int, int, key \<rightharpoonup> val) core" where
  "toy_start name = core_init (toy_env 3 4) name quartet True (store_new Map.empty) toy_elector 5000"

definition toy_block1 :: "int block" where
  "toy_block1 = block_new toy_runtime (PublicKey [2]) (block_digest toy_runtime block_genesis) [] 1"

definition toy_qc1 :: "int qc" where
  "toy_qc1 = \<lparr>qc_blk_hash = block_digest toy_runtime toy_block1, qc_kind = Normal, qc_round = 1,
     qc_votes = ([], 0), qc_fast_quorum = False\<rparr>"

text \<open>
  First run: the proposal of round 1 is accepted and voted for.
  Second run: a proposal that is malformed, but whose certificate for round 1 is processed
  before the proposal is looked at, then the timer expires in round 2.
\<close>

definition toy_events1 :: "(nat \<times> int core_event) list" where
  "toy_events1 = [(10, RxMessage (Propose (PropN \<lparr>np_block = toy_block1, np_qc = qc_genesis toy_runtime\<rparr>)))]"

definition toy_events2 :: "(nat \<times> int core_event) list" where
  "toy_events2 = [(10, RxMessage (Propose (PropN \<lparr>np_block = toy_block1, np_qc = toy_qc1\<rparr>))),
     (6000, TimerExpired)]"

definition is_signed :: "'s core_effect \<Rightarrow> bool" where
  "is_signed e = (case e of SignedVote _ \<Rightarrow> True | SignedTimeout _ \<Rightarrow> True | _ \<Rightarrow> False)"

definition toy_trace1 :: "public_key \<Rightarrow> int core_effect list" where
  "toy_trace1 name = c_trace (core_main (toy_env 3 4) toy_events1 (toy_start name))"

definition toy_trace2 :: "public_key \<Rightarrow> int core_effect list" where
  "toy_trace2 name = c_trace (core_main (toy_env 3 4) toy_events2 (toy_start name))"

definition toy_vote :: "public_key \<Rightarrow> vote_type \<Rightarrow> int vote" where
  "toy_vote name k = \<lparr>v_author = name, v_blk_hash = Digest [10], v_kind = k, v_round = 1, v_signature = 7\<rparr>"

definition toy_timeout :: "public_key \<Rightarrow> int timeout" where
  "toy_timeout name = timeout_new toy_runtime (last_vote (toy_start name)) toy_qc1 (wqc_genesis toy_runtime) 2 name"

lemma toy_signed_me1: "filter is_signed (toy_trace1 me) = [SignedVote (toy_vote me Normal)]"
  by code_simp

lemma toy_signed_2_1: "filter is_signed (toy_trace1 (PublicKey [2])) = [SignedVote (toy_vote (PublicKey [2]) Normal)]"
  by code_simp

lemma toy_signed_me2: "filter is_signed (toy_trace2 me) =
  [SignedVote (toy_vote me Commit), SignedTimeout (toy_timeout me)]"
  by code_simp

lemma toy_signed_2_2: "filter is_signed (toy_trace2 (PublicKey [2])) =
  [SignedVote (toy_vote (PublicKey [2]) Commit), SignedTimeout (toy_timeout (PublicKey [2]))]"
  by code_simp

lemma toy_in_trace: "filter is_signed tr = es \<Longrightarrow> e \<in> set es \<Longrightarrow> e \<in> set tr"
  by auto

end
