(* ===== verification/Agreement.thy ===== *)
theory Agreement
  imports Core_Safety Aggregator_Proofs Instance
begin

text \<open>
  Replicas together. A run gives every honest member of the committee the trace of its own
  core; whatever the network and the other members do, each honest trace obeys the
  discipline of the previous theory. Certificates enter through what their signatures
  attest: that every honest signer of a QC signed the vote, and every honest author in a TC
  the timeout. Together with the counting of stake this gives the two intersection
  arguments of the protocol.
\<close>

section \<open>Runs and attestations\<close>

record ('pk, 's, 'db) replica_run =
  rr_env :: "('pk, 's, 'db) core_env"
  rr_consensus_only :: bool
  rr_store :: "'db store"
  rr_elector :: leader_elector
  rr_delay :: u64
  rr_events :: "(nat \<times> 's core_event) list"

definition run_trace ::
  "'pk::{linorder, ab_group_add} committee \<Rightarrow> (public_key \<Rightarrow> ('pk, 's::ab_group_add, 'db) replica_run) \<Rightarrow>
   public_key \<Rightarrow> 's core_effect list" where
  "run_trace C runs a =
     (let r = runs a in
      c_trace (core_main (rr_env r) (rr_events r)
        (core_init (rr_env r) a C (rr_consensus_only r) (rr_store r) (rr_elector r) (rr_delay r))))"

text \<open>
  Unforgeability, for one certificate: the honest signers have signed a vote for what the
  certificate says; the honest authors of a TC's entries a timeout for its round with the
  entry's lock.
\<close>

definition qc_attested ::
  "'pk::{linorder, ab_group_add} committee \<Rightarrow> (public_key \<Rightarrow> ('pk, 's::ab_group_add, 'db) replica_run) \<Rightarrow>
   public_key set \<Rightarrow> 's qc \<Rightarrow> bool" where
  "qc_attested C runs byz q \<longleftrightarrow>
     (\<forall>a \<in> signers C q - byz. \<exists>v. SignedVote v \<in> set (run_trace C runs a) \<and>
        v_kind v = qc_kind q \<and> v_round v = qc_round q \<and> v_blk_hash v = qc_blk_hash q)"

definition tc_attested ::
  "'pk::{linorder, ab_group_add} committee \<Rightarrow> (public_key \<Rightarrow> ('pk, 's::ab_group_add, 'db) replica_run) \<Rightarrow>
   public_key set \<Rightarrow> 's tc \<Rightarrow> bool" where
  "tc_attested C runs byz tc \<longleftrightarrow>
     (\<forall>(a, sg, r) \<in> set (tc_votes tc). a \<notin> byz \<longrightarrow>
        (\<exists>t. SignedTimeout t \<in> set (run_trace C runs a) \<and> t_round t = tc_round tc \<and> qc_round (t_high_qc t) = r))"

text \<open>At most \<open>f\<close> of the stake is Byzantine, and the stake adds up to \<open>n\<close>.\<close>

definition fault_bound :: "'pk committee \<Rightarrow> public_key set \<Rightarrow> bool" where
  "fault_bound C byz \<longleftrightarrow> byz \<subseteq> members C \<and> sum (stake_of C) byz \<le> cm_f C \<and>
     sum (stake_of C) (members C) = cm_n C"

section \<open>From the discipline of one replica\<close>

lemma trace_may_precede: "sorted_wrt may_precede (run_trace C runs a)"
  using reachable_votes [of "rr_env (runs a)"] by (simp add: run_trace_def Let_def vote_inv_def)

lemma sorted_wrt_total:
  assumes "sorted_wrt P xs" "x \<in> set xs" "y \<in> set xs"
  shows "x = y \<or> P x y \<or> P y x"
  using assms by (induction xs) auto

lemma same_vote:
  assumes v: "SignedVote v \<in> set tr" "SignedVote w \<in> set tr" and tr: "sorted_wrt may_precede tr"
    and eq: "v_kind v = v_kind w" "v_round v = v_round w"
  shows "v = w"
  using sorted_wrt_total [OF tr v] eq by (cases "v_kind w") auto

lemma timeout_reports_vote:
  assumes v: "SignedVote v \<in> set tr" "SignedTimeout t \<in> set tr" and tr: "sorted_wrt may_precede tr"
    and le: "v_round v \<le> t_round t"
  shows "may_precede (SignedVote v) (SignedTimeout t)"
  using sorted_wrt_total [OF tr v] le by auto

section \<open>Intersections\<close>

lemma resilient_thresholds:
  assumes "committee_new auths n f c k = Ok C" "resilient n f c k" "fault_bound C byz"
  shows "sum (stake_of C) (members C) + sum (stake_of C) byz < 2 * quorum_threshold C"
    "sum (stake_of C) (members C) + sum (stake_of C) byz < slow_commit_threshold C + view_change_threshold C"
  using committee_new_thresholds [OF assms(1,2)] assms(2,3)
  by (auto simp: fault_bound_def resilient_def)

lemma signers_members: "signers C q \<subseteq> members C"
  by (auto simp: signers_def)

lemma honest_common_signer:
  assumes "byz \<subseteq> members C" "signers C q \<subseteq> members C" "B \<subseteq> members C"
    and "sum (stake_of C) (members C) + sum (stake_of C) byz < sum (stake_of C) (signers C q) + sum (stake_of C) B"
  obtains a where "a \<in> signers C q" "a \<in> B" "a \<notin> byz"
  using committee_voters.good_overlap [OF assms(2,3,1,4)] by blast

text \<open>
  C1. At most one block is certified per round: two prepare certificates of the same round,
  each carrying a quorum of stake and attested by its honest signers, name the same block,
  whatever the at most \<open>f\<close> Byzantine stake signs and however messages are delivered.
\<close>

theorem prepare_qcs_agree:
  assumes C: "committee_new auths n f c k = Ok C" "resilient n f c k" "fault_bound C byz"
    and kind: "qc_kind q1 = Normal" "qc_kind q2 = Normal" and round: "qc_round q1 = qc_round q2"
    and stake: "quorum_threshold C \<le> sum (stake_of C) (signers C q1)"
      "quorum_threshold C \<le> sum (stake_of C) (signers C q2)"
    and att: "qc_attested C runs byz q1" "qc_attested C runs byz q2"
  shows "qc_blk_hash q1 = qc_blk_hash q2"
proof -
  have bz: "byz \<subseteq> members C" using C(3) by (simp add: fault_bound_def)
  have lt: "sum (stake_of C) (members C) + sum (stake_of C) byz
      < sum (stake_of C) (signers C q1) + sum (stake_of C) (signers C q2)"
    using resilient_thresholds(1) [OF C] stake by linarith
  obtain a where a: "a \<in> signers C q1" "a \<in> signers C q2" "a \<notin> byz"
    by (rule honest_common_signer [OF bz signers_members signers_members lt])
  from a att(1) obtain v where v: "SignedVote v \<in> set (run_trace C runs a)" "v_kind v = Normal"
    "v_round v = qc_round q1" "v_blk_hash v = qc_blk_hash q1"
    using kind by (auto simp: qc_attested_def)
  from a att(2) obtain w where w: "SignedVote w \<in> set (run_trace C runs a)" "v_kind w = Normal"
    "v_round w = qc_round q2" "v_blk_hash w = qc_blk_hash q2"
    using kind by (auto simp: qc_attested_def)
  have "v = w" using same_vote [OF v(1) w(1) trace_may_precede] v w round by simp
  with v w show ?thesis by simp
qed

text \<open>
  C2. A view change cannot forget a slow commit: a well-formed TC that carries the
  view-change stake, for the round of an attested commit certificate or a later one,
  reports a QC whose round is at least that of the certificate.
\<close>

theorem view_change_keeps_commit:
  assumes C: "committee_new auths n f c k = Ok C" "resilient n f c k" "fault_bound C byz"
    and q: "qc_kind q = Commit" "slow_commit_threshold C \<le> sum (stake_of C) (signers C q)" "qc_attested C runs byz q"
    and tc: "tc_is_well_formed E C tc = Ok ()" "tc_attested C runs byz tc"
      "view_change_threshold C \<le> sum (stake_of C) (fst ` set (tc_votes tc))"
    and later: "qc_round q \<le> tc_round tc"
  shows "qc_round q \<le> qc_round (tc_high_qc tc)"
proof -
  obtain weight where "tc_scan C (tc_high_qc tc) (tc_votes tc) 0 {} = Ok weight"
    using tc(1) by (auto simp: tc_is_well_formed_def bind_r_Ok_iff)
  then have scan: "\<forall>v \<in> set (tc_votes tc). 0 < stake_of C (fst v) \<and> snd (snd v) \<le> qc_round (tc_high_qc tc)"
    by (auto dest!: tc_scan_Ok)
  then have mem: "fst ` set (tc_votes tc) \<subseteq> members C" by (auto dest: stake_pos_member)
  have bz: "byz \<subseteq> members C" using C(3) by (simp add: fault_bound_def)
  have lt: "sum (stake_of C) (members C) + sum (stake_of C) byz
      < sum (stake_of C) (signers C q) + sum (stake_of C) (fst ` set (tc_votes tc))"
    using resilient_thresholds(2) [OF C] q(2) tc(3) by linarith
  obtain a where a: "a \<in> signers C q" "a \<in> fst ` set (tc_votes tc)" "a \<notin> byz"
    by (rule honest_common_signer [OF bz signers_members mem lt])
  from a(1,3) q obtain v where v: "SignedVote v \<in> set (run_trace C runs a)" "v_kind v = Commit"
    "v_round v = qc_round q" by (auto simp: qc_attested_def)
  from a(2,3) tc(2) obtain sg r t where t: "(a, sg, r) \<in> set (tc_votes tc)"
    "SignedTimeout t \<in> set (run_trace C runs a)" "t_round t = tc_round tc" "qc_round (t_high_qc t) = r"
    by (fastforce simp: tc_attested_def)
  have "v_round v \<le> qc_round (t_high_qc t)"
    using timeout_reports_vote [OF v(1) t(2) trace_may_precede] v t later by simp
  with scan t v show ?thesis by force
qed

section \<open>Instances\<close>

definition toy_run :: "(nat \<times> int core_event) list \<Rightarrow> (int, int, key \<rightharpoonup> val) replica_run" where
  "toy_run evs = \<lparr>rr_env = toy_env 3 4, rr_consensus_only = True, rr_store = store_new Map.empty,
     rr_elector = toy_elector, rr_delay = 5000, rr_events = evs\<rparr>"

definition toy_byz :: "public_key set" where
  "toy_byz = {PublicKey [4]}"

text \<open>Certificates signed by the members 1, 2 and 4: only bit 2 is still set.\<close>

definition toy_cert :: "vote_type \<Rightarrow> int \<Rightarrow> int qc" where
  "toy_cert k sg = \<lparr>qc_blk_hash = Digest [10], qc_kind = k, qc_round = 1, qc_votes = ([4], sg), qc_fast_quorum = False\<rparr>"

definition toy_tc :: "int tc" where
  "toy_tc = \<lparr>tc_high_qc = toy_qc1, tc_high_wqc = wqc_genesis toy_runtime, tc_round = 2,
     tc_votes = [(me, signature_default, 1), (PublicKey [2], signature_default, 1), (PublicKey [4], signature_default, 0)]\<rparr>"

lemma toy_committee: "committee_new (authorities quartet) 4 1 0 0 = (Ok quartet :: (unit, int committee) res)"
  "resilient 4 1 0 0"
  by code_simp+

lemma toy_members: "members quartet = {PublicKey [1], PublicKey [2], PublicKey [3], PublicKey [4]}"
  by (simp add: members_def quartet_def me_def)

lemma toy_stake:
  "stake_of quartet (PublicKey [1]) = 1" "stake_of quartet (PublicKey [2]) = 1"
  "stake_of quartet (PublicKey [3]) = 1" "stake_of quartet (PublicKey [4]) = 1"
  by code_simp+

lemma toy_params:
  "cm_n quartet = 4" "cm_f quartet = 1" "quorum_threshold quartet = 3"
  "slow_commit_threshold quartet = 3" "view_change_threshold quartet = 3"
  by code_simp+

lemma toy_fault_bound: "fault_bound quartet toy_byz"
  by (simp add: fault_bound_def toy_byz_def toy_members toy_stake toy_params)

lemma toy_signer_ids:
  "signer_id quartet (PublicKey [1]) = 0" "signer_id quartet (PublicKey [2]) = 1"
  "signer_id quartet (PublicKey [3]) = 2" "signer_id quartet (PublicKey [4]) = 3"
  by code_simp+

lemma toy_signers: "signers quartet (toy_cert k sg) = {PublicKey [1], PublicKey [2], PublicKey [4]}"
  by (auto simp: signers_def toy_members toy_signer_ids toy_cert_def bit_at_def bit_numeral_rec)

lemma toy_traces:
  "run_trace quartet (\<lambda>_. toy_run toy_events1) a = toy_trace1 a"
  "run_trace quartet (\<lambda>_. toy_run toy_events2) a = toy_trace2 a"
  by (simp_all add: run_trace_def toy_run_def toy_trace1_def toy_trace2_def toy_start_def)

lemma toy_qc_attested:
  "qc_attested quartet (\<lambda>_. toy_run toy_events1) toy_byz (toy_cert Normal sg)"
  "qc_attested quartet (\<lambda>_. toy_run toy_events2) toy_byz (toy_cert Commit sg)"
proof -
  have v: "v_kind (toy_vote a k) = k" "v_round (toy_vote a k) = 1" "v_blk_hash (toy_vote a k) = Digest [10]"
    and c: "qc_kind (toy_cert k sg) = k" "qc_round (toy_cert k sg) = 1" "qc_blk_hash (toy_cert k sg) = Digest [10]" for a k
    by (simp_all add: toy_vote_def toy_cert_def)
  have "SignedVote (toy_vote (PublicKey [1]) Normal) \<in> set (toy_trace1 (PublicKey [1]))"
    "SignedVote (toy_vote (PublicKey [2]) Normal) \<in> set (toy_trace1 (PublicKey [2]))"
    "SignedVote (toy_vote (PublicKey [1]) Commit) \<in> set (toy_trace2 (PublicKey [1]))"
    "SignedVote (toy_vote (PublicKey [2]) Commit) \<in> set (toy_trace2 (PublicKey [2]))"
    by (rule toy_in_trace [OF toy_signed_me1 [unfolded me_def]] toy_in_trace [OF toy_signed_2_1]
        toy_in_trace [OF toy_signed_me2 [unfolded me_def]] toy_in_trace [OF toy_signed_2_2], simp)+
  then show "qc_attested quartet (\<lambda>_. toy_run toy_events1) toy_byz (toy_cert Normal sg)"
    "qc_attested quartet (\<lambda>_. toy_run toy_events2) toy_byz (toy_cert Commit sg)"
    unfolding qc_attested_def toy_signers toy_traces toy_byz_def c using v by auto
qed

theorem prepare_qcs_agree_witness:
  "qc_attested quartet (\<lambda>_. toy_run toy_events1) toy_byz (toy_cert Normal 1) \<and>
   quorum_threshold quartet \<le> sum (stake_of quartet) (signers quartet (toy_cert Normal 1)) \<and>
   qc_blk_hash (toy_cert Normal 1) = qc_blk_hash (toy_cert Normal 2)"
proof -
  have q: "quorum_threshold quartet \<le> sum (stake_of quartet) (signers quartet (toy_cert k sg))" for k sg
    by (simp add: toy_signers toy_stake toy_params)
  have "qc_blk_hash (toy_cert Normal 1) = qc_blk_hash (toy_cert Normal 2)"
    by (rule prepare_qcs_agree [OF toy_committee toy_fault_bound _ _ _ q q toy_qc_attested(1) toy_qc_attested(1)])
      (simp_all add: toy_cert_def)
  with q toy_qc_attested(1) show ?thesis by blast
qed

theorem view_change_keeps_commit_witness:
  "qc_attested quartet (\<lambda>_. toy_run toy_events2) toy_byz (toy_cert Commit 1) \<and>
   tc_attested quartet (\<lambda>_. toy_run toy_events2) toy_byz toy_tc \<and>
   qc_round (toy_cert Commit 1) \<le> qc_round (tc_high_qc toy_tc)"
proof -
  have "SignedTimeout (toy_timeout (PublicKey [1])) \<in> set (toy_trace2 (PublicKey [1]))"
    "SignedTimeout (toy_timeout (PublicKey [2])) \<in> set (toy_trace2 (PublicKey [2]))"
    by (rule toy_in_trace [OF toy_signed_me2 [unfolded me_def]] toy_in_trace [OF toy_signed_2_2], simp)+
  then have tc: "tc_attested quartet (\<lambda>_. toy_run toy_events2) toy_byz toy_tc"
    unfolding tc_attested_def toy_traces toy_byz_def
    by (auto simp: toy_tc_def me_def toy_timeout_def toy_qc1_def intro!: exI)
  have "tc_is_well_formed toy_runtime quartet toy_tc = Ok ()" by code_simp
  moreover have "view_change_threshold quartet \<le> sum (stake_of quartet) (fst ` set (tc_votes toy_tc))"
    by (simp add: toy_tc_def me_def toy_stake toy_params)
  moreover have "slow_commit_threshold quartet \<le> sum (stake_of quartet) (signers quartet (toy_cert Commit 1))"
    by (simp add: toy_signers toy_stake toy_params)
  ultimately have "qc_round (toy_cert Commit 1) \<le> qc_round (tc_high_qc toy_tc)"
    by (intro view_change_keeps_commit [OF toy_committee toy_fault_bound _ _ toy_qc_attested(2) _ tc])
      (simp_all add: toy_cert_def toy_tc_def)
  with tc toy_qc_attested(2) show ?thesis by blast
qed

end
