(* ===== verification/Core_Properties.thy ===== *)
theory Core_Properties
  imports Core_Safety Core_Termination Agreement
begin

text \<open>
  The properties of the core that a deployment relies on, stated for every run of its event
  loop from the state its constructor builds.
\<close>

text \<open>
  C3. Signing discipline of a replica: in the order in which it signs, two prepare votes
  of one round are the same vote, commit votes have strictly increasing rounds, no vote is
  signed for a round it has timed out, and each timeout carries a QC and a vote at least as
  recent as every commit vote and prepare vote signed before it.
\<close>

theorem signing_discipline:
  "sorted_wrt may_precede (c_trace (core_main env evs (core_init env name C co st el delay)))"
  using reachable_votes unfolding vote_inv_def by blast

text \<open>
  C4. A replica never equivocates: two votes it signs of the same kind for the same round
  are one and the same vote, signed under its own name.
\<close>

theorem votes_never_conflict:
  assumes "s = core_main env evs (core_init env name C co st el delay)"
    and "SignedVote v \<in> set (c_trace s)" "SignedVote w \<in> set (c_trace s)"
    and "v_kind v = v_kind w" "v_round v = v_round w"
  shows "v = w \<and> v_author v = name"
proof -
  have inv: "vote_inv (ce_runtime env) s" "c_name s = name"
    using assms(1) by (simp_all add: reachable_votes reachable_constants)
  then have "v = w" using assms(2-5) by (intro same_vote [of v "c_trace s" w]) (auto simp: vote_inv_def)
  moreover have "signed_by (ce_runtime env) name v" using inv assms(2) by (force simp: vote_inv_def)
  then have "v_author v = name" by (metis signed_by_def vote_new_simps(1))
  ultimately show ?thesis by blast
qed

theorem votes_never_conflict_witness:
  "SignedVote (toy_vote me Normal) \<in> set (c_trace (core_main (toy_env 3 4) toy_events1
       (core_init (toy_env 3 4) me quartet True (store_new Map.empty) toy_elector 5000))) \<and>
   toy_vote me Normal = toy_vote me Normal \<and> v_author (toy_vote me Normal) = me"
proof -
  have "SignedVote (toy_vote me Normal) \<in> set (toy_trace1 me)"
    by (rule toy_in_trace [OF toy_signed_me1]) simp
  then have "SignedVote (toy_vote me Normal) \<in> set (c_trace (core_main (toy_env 3 4) toy_events1
       (core_init (toy_env 3 4) me quartet True (store_new Map.empty) toy_elector 5000)))"
    by (simp add: toy_trace1_def toy_start_def)
  with votes_never_conflict [OF refl this this] show ?thesis by simp
qed

text \<open>
  C5. A timeout hides no vote: if a replica votes in a round and signs a timeout for that
  round or a later one, in whichever order, then the timeout carries a QC of at least the
  round of a commit vote, and a prepare vote at least as recent as a prepare vote.
\<close>

theorem timeouts_report_votes:
  assumes "s = core_main env evs (core_init env name C co st el delay)"
    and "SignedVote v \<in> set (c_trace s)" "SignedTimeout t \<in> set (c_trace s)"
    and "v_round v \<le> t_round t"
  shows "case v_kind v of
      Commit \<Rightarrow> v_round v \<le> qc_round (t_high_qc t)
    | Normal \<Rightarrow> v_round v < v_round (t_high_vote t) \<or> v = t_high_vote t"
proof -
  have "vote_inv (ce_runtime env) s" using assms(1) by (simp add: reachable_votes)
  then have "may_precede (SignedVote v) (SignedTimeout t)"
    using assms(2-4) by (intro timeout_reports_vote [of v "c_trace s" t]) (auto simp: vote_inv_def)
  then show ?thesis by (auto split: vote_type.splits)
qed

theorem timeouts_report_votes_witness:
  "SignedVote (toy_vote me Commit) \<in> set (c_trace (core_main (toy_env 3 4) toy_events2
       (core_init (toy_env 3 4) me quartet True (store_new Map.empty) toy_elector 5000))) \<and>
   v_round (toy_vote me Commit) \<le> qc_round (t_high_qc (toy_timeout me))"
proof -
  have "SignedVote (toy_vote me Commit) \<in> set (toy_trace2 me)" "SignedTimeout (toy_timeout me) \<in> set (toy_trace2 me)"
    by (rule toy_in_trace [OF toy_signed_me2], simp)+
  then have in_tr: "SignedVote (toy_vote me Commit) \<in> set (c_trace (core_main (toy_env 3 4) toy_events2
       (core_init (toy_env 3 4) me quartet True (store_new Map.empty) toy_elector 5000)))"
    "SignedTimeout (toy_timeout me) \<in> set (c_trace (core_main (toy_env 3 4) toy_events2
       (core_init (toy_env 3 4) me quartet True (store_new Map.empty) toy_elector 5000)))"
    by (simp_all add: toy_trace2_def toy_start_def)
  have "v_round (toy_vote me Commit) \<le> t_round (toy_timeout me)"
    by (simp add: toy_vote_def toy_timeout_def)
  from timeouts_report_votes [OF refl in_tr this] in_tr(1) show ?thesis by (simp add: toy_vote_def)
qed

text \<open>
  C6. The committed log is a hash chain: the blocks a replica commits, in the order of
  their commit, link by parent digest from the genesis block to its last committed block.
\<close>

theorem committed_log_is_chain:
  "hash_chain (ce_runtime env) (block_digest (ce_runtime env) block_genesis)
     (committed_log (c_trace (core_main env evs (core_init env name C co st el delay)))) \<and>
   last_commit (core_main env evs (core_init env name C co st el delay)) =
     last (block_genesis # committed_log (c_trace (core_main env evs (core_init env name C co st el delay))))"
  using reachable_chain unfolding chain_inv_def by blast

text \<open>
  Delivery is complete and in order: outside the consensus-only mode the application
  receives exactly the committed blocks and the committer exactly their payloads, in commit
  order; in consensus-only mode neither receives anything.
\<close>

lemma commits_are_handed_over:
  "output_log (c_trace (core_main env evs (core_init env name C co st el delay))) =
     (if co then [] else committed_log (c_trace (core_main env evs (core_init env name C co st el delay)))) \<and>
   payload_log (c_trace (core_main env evs (core_init env name C co st el delay))) =
     (if co then [] else map b_payload
        (committed_log (c_trace (core_main env evs (core_init env name C co st el delay)))))"
  using reachable_handover [of env evs name C co st el delay]
  by (simp add: handover_def reachable_constants split: if_splits)

text \<open>
  C8. Nothing moves backwards: over any sequence of events the last committed round, the
  locked QC's round, the weak QC's round, the last timeout and the current round do not
  decrease, and what was emitted stays emitted.
\<close>

theorem core_never_regresses: "progress s (core_run env evs s)"
  by (rule forward.run_evolves)


text \<open>
  C7. Every event is handled to its end: with a recursion depth of \<open>2^64 + 2\<close> and a loop
  bound above the number of blocks in memory and the length of any parent chain, no event
  makes the core run forever.
\<close>

theorem core_turn_returns:
  assumes "2 ^ 64 + 2 \<le> ce_depth env" "spacious env rk s"
    and "\<And>b. event_block ev = Some b \<Longrightarrow> codec_laws env b \<and> room_for env rk b"
  shows "fst (core_turn env (now, ev) s) \<noteq> Diverge"
proof -
  have "spacious env rk (s\<lparr>c_now := max now (c_now s)\<rparr>)" using assms(2) by (simp add: spacious_def)
  then have "halts_at (core_select env ev) (s\<lparr>c_now := max now (c_now s)\<rparr>)"
    using assms by (intro core_select_halts) auto
  then have "halts_at (core_turn env (now, ev)) s"
    unfolding core_turn_def by (simp add: halts_modify_then)
  then show ?thesis by (simp add: halts_at_def returns_def)
qed

definition term_env :: "(int, int, key \<rightharpoonup> val) core_env" where
  "term_env = \<lparr>ce_runtime = toy_runtime, ce_rocksdb = toy_db, ce_ser = (\<lambda>_. []),
     ce_de = (\<lambda>_. Some toy_block1), ce_loop_fuel = 5, ce_depth = 2 ^ 64 + 2\<rparr>"

definition term_rank :: "digest \<Rightarrow> nat" where
  "term_rank d = (if d = Digest [10] then 2 else if d = Digest [72] then 1 else 0)"

lemma toy_digests: "block_digest toy_runtime block_genesis = Digest [72]" "block_digest toy_runtime toy_block1 = Digest [10]"
  by code_simp+

lemma replicate_ne: "replicate 32 (0 :: u8) \<noteq> [w]"
proof
  assume "replicate 32 (0 :: u8) = [w]"
  then have "length (replicate 32 (0 :: u8)) = length [w]" by (rule arg_cong)
  then show False by simp
qed

lemma term_spacious:
  "spacious term_env term_rank (core_init term_env me quartet True (store_new Map.empty) toy_elector 5000)"
  by (simp add: spacious_def loops_bounded_def core_init_def term_env_def toy_digests Let_def term_rank_def
      digest_default_def sync_get_block_def toy_db_def store_new_def replicate_ne)

theorem core_turn_returns_witness:
  "spacious term_env term_rank (core_init term_env me quartet True (store_new Map.empty) toy_elector 5000) \<and>
   fst (core_turn term_env (0, RxProposer (PropN \<lparr>np_block = toy_block1, np_qc = qc_genesis toy_runtime\<rparr>))
     (core_init term_env me quartet True (store_new Map.empty) toy_elector 5000)) \<noteq> Diverge"
proof -
  have "codec_laws term_env toy_block1 \<and> room_for term_env term_rank toy_block1"
    by (simp add: codec_laws_def kv_laws_def room_for_def term_env_def toy_db_def toy_digests term_rank_def)
      (simp add: toy_block1_def toy_digests)
  then show ?thesis
    using term_spacious
      core_turn_returns [of term_env term_rank "core_init term_env me quartet True (store_new Map.empty) toy_elector 5000"
        "RxProposer (PropN \<lparr>np_block = toy_block1, np_qc = qc_genesis toy_runtime\<rparr>)" 0]
    by (simp add: event_block_def) (simp add: term_env_def)
qed

end
