(* ===== verification/Committer.thy ===== *)
theory Committer
  imports Primary_Messages Store Tasks "HOL-Library.Sublist"
begin

text \<open>
  The committer (src/hydrangea/src/committer.rs): for each committed payload it loads the
  headers behind the certificates from the store, concatenates their transactions, removes
  duplicates and executes what remains as one block. The Aptos executor is outside the
  model: a call to it is an effect of the task. \<open>de\<close> is \<^verbatim>\<open>bincode::deserialize\<close>
  on headers and \<open>bcs\<close> is \<^verbatim>\<open>bcs::to_bytes\<close>, which may fail.
\<close>

datatype 'tx committer_effect = BootstrapAccount u64 u64 | ExecuteBlock "'tx list"

definition pre_funded_account_seeds :: "u64 list" where
  "pre_funded_account_seeds = [1, 2, 3, 4]"

definition initial_account_balance :: u64 where
  "initial_account_balance = 1000000000000"

text \<open>\<open>generate\<close> answers whether the account of a seed could be generated.\<close>

definition bootstrap_accounts :: "(u64 \<Rightarrow> bool) \<Rightarrow> 'tx committer_effect list" where
  "bootstrap_accounts generate =
     map (\<lambda>seed. BootstrapAccount seed initial_account_balance) (filter generate pre_funded_account_seeds)"

definition load_header ::
  "'db rocksdb \<Rightarrow> (val \<Rightarrow> 'tx header option) \<Rightarrow> 'db store \<Rightarrow> 's certificate \<Rightarrow> 'tx header option" where
  "load_header D de st certificate =
     (case store_read D (to_vec (cert_id certificate)) st of
        Inr (Some bytes) \<Rightarrow> de bytes
      | Inr None \<Rightarrow> None
      | Inl _ \<Rightarrow> None)"

fun dedup_loop :: "('tx \<Rightarrow> u8 list option) \<Rightarrow> u8 list set \<Rightarrow> 'tx list \<Rightarrow> 'tx list" where
  "dedup_loop bcs seen [] = []"
| "dedup_loop bcs seen (txn # txns) =
     (case bcs txn of
        Some bytes \<Rightarrow>
          if bytes \<notin> seen then txn # dedup_loop bcs (insert bytes seen) txns
          else dedup_loop bcs seen txns
      | None \<Rightarrow> txn # dedup_loop bcs seen txns)"

definition deduplicate_transactions :: "('tx \<Rightarrow> u8 list option) \<Rightarrow> 'tx list \<Rightarrow> 'tx list" where
  "deduplicate_transactions bcs transactions = dedup_loop bcs {} transactions"

definition gather_transactions ::
  "'db rocksdb \<Rightarrow> (val \<Rightarrow> 'tx header option) \<Rightarrow> 'db store \<Rightarrow> 's certificate list \<Rightarrow> 'tx list" where
  "gather_transactions D de st certificates =
     concat (map (\<lambda>certificate. case load_header D de st certificate of
         Some header \<Rightarrow> h_payload header
       | None \<Rightarrow> []) certificates)"

text \<open>One turn of the loop, on the store as it is when the payload is taken from the channel.\<close>

definition committer_turn ::
  "'db rocksdb \<Rightarrow> (val \<Rightarrow> 'tx header option) \<Rightarrow> ('tx \<Rightarrow> u8 list option) \<Rightarrow> 'db store \<times> 's certificate list \<Rightarrow>
   'tx committer_effect list \<Rightarrow> 'tx committer_effect list" where
  "committer_turn D de bcs = (\<lambda>(st, certificates) trace.
     let transactions = gather_transactions D de st certificates in
     if transactions = [] then trace
     else let unique = deduplicate_transactions bcs transactions in
       if unique = [] then trace else trace @ [ExecuteBlock unique])"

text \<open>\<^verbatim>\<open>spawn\<close>: without an executor the task ends at once.\<close>

definition committer_spawn ::
  "bool \<Rightarrow> (u64 \<Rightarrow> bool) \<Rightarrow> 'db rocksdb \<Rightarrow> (val \<Rightarrow> 'tx header option) \<Rightarrow> ('tx \<Rightarrow> u8 list option) \<Rightarrow>
   ('db store \<times> 's certificate list) list \<Rightarrow> 'tx committer_effect list" where
  "committer_spawn executor_ok generate D de bcs payloads =
     (if executor_ok then task_run (committer_turn D de bcs) payloads (bootstrap_accounts generate) else [])"

section \<open>Deduplication\<close>

lemma dedup_loop_encodings:
  assumes "\<And>t. t \<in> set txns \<Longrightarrow> bcs t \<noteq> None"
  shows "distinct (map bcs (dedup_loop bcs seen txns)) \<and>
    set (map bcs (dedup_loop bcs seen txns)) = set (map bcs txns) - Some ` seen"
  using assms
proof (induction txns arbitrary: seen)
  case Nil
  then show ?case by simp
next
  case (Cons t ts)
  then obtain b where b: "bcs t = Some b" by fastforce
  have IH: "distinct (map bcs (dedup_loop bcs seen' ts))"
    "set (map bcs (dedup_loop bcs seen' ts)) = set (map bcs ts) - Some ` seen'" for seen'
    using Cons by simp_all
  show ?case
  proof (cases "b \<in> seen")
    case True
    then show ?thesis using b IH [of seen] by auto
  next
    case False
    then show ?thesis using b IH [of "insert b seen"] by auto
  qed
qed

lemma dedup_loop_subseq: "subseq (dedup_loop bcs seen txns) txns"
  by (induction bcs seen txns rule: dedup_loop.induct) (auto split: option.split)

text \<open>The first occurrences, in order, are what remains when later duplicates are removed.\<close>

lemma dedup_loop_snoc:
  assumes "\<And>t. t \<in> set (txns @ [x]) \<Longrightarrow> bcs t \<noteq> None"
  shows "dedup_loop bcs seen (txns @ [x]) =
    dedup_loop bcs seen txns @ (if bcs x \<in> Some ` seen \<union> bcs ` set txns then [] else [x])"
  using assms
proof (induction txns arbitrary: seen)
  case Nil
  then show ?case by (auto split: option.split)
next
  case (Cons t ts)
  then obtain b where b: "bcs t = Some b" by fastforce
  have "dedup_loop bcs seen' (ts @ [x]) =
    dedup_loop bcs seen' ts @ (if bcs x \<in> Some ` seen' \<union> bcs ` set ts then [] else [x])" for seen'
    using Cons by simp
  with b show ?case by (auto simp: insert_absorb)
qed

lemma dedup_is_remdups:
  assumes "\<And>t. t \<in> set txns \<Longrightarrow> bcs t \<noteq> None"
  shows "map bcs (deduplicate_transactions bcs txns) = rev (remdups (rev (map bcs txns)))"
  using assms unfolding deduplicate_transactions_def
proof (induction txns rule: rev_induct)
  case Nil
  then show ?case by simp
next
  case (snoc x xs)
  then show ?case using dedup_loop_snoc [of xs x bcs "{}"] by auto
qed

lemma dedup_eq_Nil [simp]: "deduplicate_transactions bcs txns = [] \<longleftrightarrow> txns = []"
  by (cases txns) (auto simp: deduplicate_transactions_def split: option.split)

text \<open>The second emptiness test of the loop never fires.\<close>

lemma committer_turn_simps:
  "committer_turn D de bcs (st, certificates) trace =
     (if gather_transactions D de st certificates = [] then trace
      else trace @ [ExecuteBlock (deduplicate_transactions bcs (gather_transactions D de st certificates))])"
  by (simp add: committer_turn_def Let_def)

lemma committer_run:
  "task_run (committer_turn D de bcs) payloads trace =
   trace @ map (\<lambda>txs. ExecuteBlock (deduplicate_transactions bcs txs))
     (filter (\<lambda>txs. txs \<noteq> []) (map (\<lambda>(st, cs). gather_transactions D de st cs) payloads))"
  by (induction payloads arbitrary: trace) (auto simp: committer_turn_simps)

lemma gather_transactions_filter:
  "gather_transactions D de st cs = concat (map h_payload (List.map_filter (load_header D de st) cs))"
  by (induction cs) (auto simp: gather_transactions_def List.map_filter_def split: option.split)

section \<open>Properties\<close>

text \<open>
  C16. Deduplication keeps the first occurrence of every transaction, by its BCS encoding, and
  nothing else: up to encodings it is the library's duplicate removal read from the left.
\<close>

theorem deduplicate_keeps_first_occurrences:
  assumes "\<And>t. t \<in> set txns \<Longrightarrow> bcs t \<noteq> None"
  shows "map bcs (deduplicate_transactions bcs txns) = rev (remdups (rev (map bcs txns))) \<and>
    subseq (deduplicate_transactions bcs txns) txns"
  using dedup_is_remdups [of txns bcs] assms dedup_loop_subseq
  unfolding deduplicate_transactions_def by blast

theorem deduplicate_keeps_first_occurrences_witness:
  "map (\<lambda>n. Some [n]) (deduplicate_transactions (\<lambda>n. Some [n]) [1, 2, 1, 3, 2 :: u8]) = [Some [1], Some [2], Some [3]]"
  using deduplicate_keeps_first_occurrences [of "[1, 2, 1, 3, 2 :: u8]" "\<lambda>n. Some [n]"] by simp

text \<open>
  The committer executes, after bootstrapping its accounts and in the order of the
  commits, one block per committed payload that has a transaction: the deduplicated
  transactions of the payload's headers, in order; a header that is missing from the store is
  skipped without stopping the rest.
\<close>

lemma committer_executes_commits:
  "committer_spawn True generate D de bcs payloads =
     map (\<lambda>seed. BootstrapAccount seed initial_account_balance) (filter generate [1, 2, 3, 4]) @
     map (\<lambda>txs. ExecuteBlock (deduplicate_transactions bcs txs))
       (filter (\<lambda>txs. txs \<noteq> [])
         (map (\<lambda>(st, cs). concat (map h_payload (List.map_filter (load_header D de st) cs))) payloads))"
  by (simp add: committer_spawn_def committer_run bootstrap_accounts_def pre_funded_account_seeds_def
      gather_transactions_filter)

end
