(* ===== verification/Network.thy ===== *)
theory Network
  imports Config Tasks "HOL-Library.Sublist"
begin

text \<open>
  The network crate: the reliable sender (src/network/src/reliable_sender.rs), the
  best-effort sender (simple_sender.rs) and the receiver (receiver.rs). TCP is the
  environment: whether a connection attempt, a write or a read succeeds is part of the
  event a task sees. A oneshot channel is a natural number; dropping its receiving end
  closes it. What a connection does, a frame written or a handler notified, is appended to
  its log.
\<close>

type_synonym bytes = "u8 list"

section \<open>The reliable connection\<close>

record inner_message =
  im_data :: bytes
  im_cancel_handler :: nat

text \<open>
  Where \<^verbatim>\<open>run\<close> is: before \<^verbatim>\<open>TcpStream::connect\<close>, in the
  \<^verbatim>\<open>'waiter\<close> loop, or inside \<^verbatim>\<open>keep_alive\<close> with its
  \<^verbatim>\<open>pending_replies\<close>.
\<close>

datatype conn_phase = Connecting | Backoff | Connected "inner_message list"

datatype conn_effect = Wrote bytes | Notified nat bytes

record connection =
  cn_address :: socket_addr
  cn_receiver :: "inner_message list"
  cn_retry_delay :: u64
  cn_buffer :: "inner_message list"
  cn_delay :: u64
  cn_retry :: nat
  cn_phase :: conn_phase
  cn_log :: "conn_effect list"

definition connection_spawn :: "socket_addr \<Rightarrow> connection" where
  "connection_spawn address = \<lparr>cn_address = address, cn_receiver = [], cn_retry_delay = 200,
     cn_buffer = [], cn_delay = 200, cn_retry = 0, cn_phase = Connecting, cn_log = []\<rparr>"

text \<open>The outcomes of \<^verbatim>\<open>TcpStream::connect\<close>, and the two branches of the waiter loop.\<close>

definition conn_connected :: "connection \<Rightarrow> connection" where
  "conn_connected c = c\<lparr>cn_phase := Connected [], cn_delay := cn_retry_delay c, cn_retry := 0\<rparr>"

definition conn_refused :: "connection \<Rightarrow> connection" where
  "conn_refused c = c\<lparr>cn_phase := Backoff\<rparr>"

definition conn_wait_over :: "connection \<Rightarrow> connection" where
  "conn_wait_over c = c\<lparr>cn_delay := min (2 * cn_delay c mod 2 ^ 64) 60000,
     cn_retry := (cn_retry c + 1) mod 2 ^ 16, cn_phase := Connecting\<rparr>"

definition conn_wait_recv :: "nat set \<Rightarrow> connection \<Rightarrow> connection" where
  "conn_wait_recv closed c =
     (case cn_receiver c of
        [] \<Rightarrow> c
      | m # rest \<Rightarrow> c\<lparr>cn_receiver := rest,
          cn_buffer := filter (\<lambda>m. im_cancel_handler m \<notin> closed) (cn_buffer c @ [m])\<rparr>)"

text \<open>
  \<^verbatim>\<open>keep_alive\<close>. The loop at its end takes the unacknowledged messages from the
  back and pushes each to the front of the buffer.
\<close>

function requeue :: "inner_message list \<Rightarrow> inner_message list \<Rightarrow> inner_message list" where
  "requeue pending buffer =
     (if pending = [] then buffer else requeue (butlast pending) (last pending # buffer))"
  by pat_completeness auto
termination
  by (relation "measure (\<lambda>(pending, buffer). length pending)") auto

declare requeue.simps [simp del]

definition conn_broken :: "inner_message list \<Rightarrow> connection \<Rightarrow> connection" where
  "conn_broken pending c = c\<lparr>cn_buffer := requeue pending (cn_buffer c), cn_phase := Connecting\<rparr>"

text \<open>One round of the inner loop: the front of the buffer is skipped, written, or put back.\<close>

definition conn_flush :: "nat set \<Rightarrow> bool \<Rightarrow> connection \<Rightarrow> connection" where
  "conn_flush closed write_ok c =
     (case cn_phase c of
        Connected pending \<Rightarrow>
          (case cn_buffer c of
             [] \<Rightarrow> c
           | m # rest \<Rightarrow>
               if im_cancel_handler m \<in> closed then c\<lparr>cn_buffer := rest\<rparr>
               else if write_ok
               then c\<lparr>cn_buffer := rest, cn_phase := Connected (pending @ [m]),
                      cn_log := cn_log c @ [Wrote (im_data m)]\<rparr>
               else conn_broken pending (c\<lparr>cn_buffer := m # rest\<rparr>))
      | _ \<Rightarrow> c)"

definition conn_recv :: "connection \<Rightarrow> connection" where
  "conn_recv c =
     (case cn_receiver c of
        [] \<Rightarrow> c
      | m # rest \<Rightarrow> c\<lparr>cn_receiver := rest, cn_buffer := cn_buffer c @ [m]\<rparr>)"

text \<open>\<open>None\<close> is a stream that ended or failed.\<close>

definition conn_response :: "bytes option \<Rightarrow> connection \<Rightarrow> connection" where
  "conn_response response c =
     (case cn_phase c of
        Connected pending \<Rightarrow>
          (case pending of
             [] \<Rightarrow> conn_broken [] c
           | m # rest \<Rightarrow>
               (case response of
                  Some reply \<Rightarrow> c\<lparr>cn_phase := Connected rest,
                      cn_log := cn_log c @ [Notified (im_cancel_handler m) reply]\<rparr>
                | None \<Rightarrow> conn_broken (m # rest) c))
      | _ \<Rightarrow> c)"

text \<open>
  The steps of the task, with the conditions under which it is at that point: the two
  branches of the second \<^verbatim>\<open>select!\<close> are reached when the buffer is empty.
\<close>

inductive conn_step :: "nat set \<Rightarrow> connection \<Rightarrow> connection \<Rightarrow> bool" for closed where
  connected: "cn_phase c = Connecting \<Longrightarrow> conn_step closed c (conn_connected c)"
| refused: "cn_phase c = Connecting \<Longrightarrow> conn_step closed c (conn_refused c)"
| wait_over: "cn_phase c = Backoff \<Longrightarrow> conn_step closed c (conn_wait_over c)"
| wait_recv: "cn_phase c = Backoff \<Longrightarrow> cn_receiver c \<noteq> [] \<Longrightarrow> conn_step closed c (conn_wait_recv closed c)"
| flush: "cn_phase c = Connected p \<Longrightarrow> cn_buffer c \<noteq> [] \<Longrightarrow> conn_step closed c (conn_flush closed ok c)"
| recv: "cn_phase c = Connected p \<Longrightarrow> cn_buffer c = [] \<Longrightarrow> cn_receiver c \<noteq> [] \<Longrightarrow>
    conn_step closed c (conn_recv c)"
| response: "cn_phase c = Connected p \<Longrightarrow> cn_buffer c = [] \<Longrightarrow> conn_step closed c (conn_response r c)"

inductive_cases conn_stepE: "conn_step closed c c'"

section \<open>The reliable sender\<close>

text \<open>\<open>rs_next\<close> numbers the oneshot channels.\<close>

record reliable_sender =
  rs_connections :: "socket_addr \<rightharpoonup> connection"
  rs_sent :: u64
  rs_next :: nat

definition reliable_sender_new :: reliable_sender where
  "reliable_sender_new = \<lparr>rs_connections = Map.empty, rs_sent = 0, rs_next = 0\<rparr>"

definition conn_submit :: "inner_message \<Rightarrow> connection \<Rightarrow> connection" where
  "conn_submit m c = c\<lparr>cn_receiver := cn_receiver c @ [m]\<rparr>"

definition reliable_send :: "socket_addr \<Rightarrow> bytes \<Rightarrow> reliable_sender \<Rightarrow> nat \<times> reliable_sender" where
  "reliable_send address data s =
     (let c = (case rs_connections s address of None \<Rightarrow> connection_spawn address | Some c \<Rightarrow> c);
          m = \<lparr>im_data = data, im_cancel_handler = rs_next s\<rparr>
      in (rs_next s, s\<lparr>rs_sent := add64 (rs_sent s) 1, rs_next := Suc (rs_next s),
            rs_connections := (rs_connections s)(address \<mapsto> conn_submit m c)\<rparr>))"

fun reliable_broadcast :: "socket_addr list \<Rightarrow> bytes \<Rightarrow> reliable_sender \<Rightarrow> nat list \<times> reliable_sender" where
  "reliable_broadcast [] data s = ([], s)"
| "reliable_broadcast (address # addresses) data s =
     (let (h, s') = reliable_send address data s;
          (hs, s'') = reliable_broadcast addresses data s'
      in (h # hs, s''))"

text \<open>The order \<^verbatim>\<open>shuffle\<close> gives the addresses is the first argument.\<close>

definition reliable_lucky_broadcast ::
  "(socket_addr list \<Rightarrow> socket_addr list) \<Rightarrow> socket_addr list \<Rightarrow> bytes \<Rightarrow> usize \<Rightarrow> reliable_sender \<Rightarrow>
   nat list \<times> reliable_sender" where
  "reliable_lucky_broadcast shuffle addresses data nodes s =
     reliable_broadcast (take nodes (shuffle addresses)) data s"

section \<open>The best-effort sender\<close>

text \<open>A connection whose task has returned does not accept messages any more.\<close>

record simple_connection =
  sc_address :: socket_addr
  sc_receiver :: "bytes list"
  sc_connected :: bool
  sc_finished :: bool
  sc_wire :: "bytes list"

record simple_sender =
  ss_connections :: "socket_addr \<rightharpoonup> simple_connection"
  ss_sent :: u64

definition simple_sender_new :: simple_sender where
  "simple_sender_new = \<lparr>ss_connections = Map.empty, ss_sent = 0\<rparr>"

definition simple_connection_spawn :: "socket_addr \<Rightarrow> simple_connection" where
  "simple_connection_spawn address = \<lparr>sc_address = address, sc_receiver = [], sc_connected = False,
     sc_finished = False, sc_wire = []\<rparr>"

definition simple_send :: "socket_addr \<Rightarrow> bytes \<Rightarrow> simple_sender \<Rightarrow> simple_sender" where
  "simple_send address data s =
     (let s1 = s\<lparr>ss_sent := add64 (ss_sent s) 1\<rparr>;
          fresh = simple_connection_spawn address;
          accept = (\<lambda>c. s1\<lparr>ss_connections := (ss_connections s1)
                            (address \<mapsto> c\<lparr>sc_receiver := sc_receiver c @ [data]\<rparr>)\<rparr>)
      in case ss_connections s address of
           Some c \<Rightarrow> if \<not> sc_finished c then accept c else accept fresh
         | None \<Rightarrow> accept fresh)"

definition simple_broadcast :: "socket_addr list \<Rightarrow> bytes \<Rightarrow> simple_sender \<Rightarrow> simple_sender" where
  "simple_broadcast addresses data s = fold (\<lambda>address. simple_send address data) addresses s"

definition simple_lucky_broadcast ::
  "(socket_addr list \<Rightarrow> socket_addr list) \<Rightarrow> socket_addr list \<Rightarrow> bytes \<Rightarrow> usize \<Rightarrow> simple_sender \<Rightarrow>
   simple_sender" where
  "simple_lucky_broadcast shuffle addresses data nodes s =
     simple_broadcast (take nodes (shuffle addresses)) data s"

datatype simple_event = ScConnect bool | ScWrite bool | ScReply bool

definition simple_turn :: "simple_event \<Rightarrow> simple_connection \<Rightarrow> simple_connection" where
  "simple_turn ev c =
     (if sc_finished c then c
      else case ev of
        ScConnect ok \<Rightarrow>
          if sc_connected c then c
          else if ok then c\<lparr>sc_connected := True\<rparr> else c\<lparr>sc_finished := True\<rparr>
      | ScWrite ok \<Rightarrow>
          if \<not> sc_connected c then c
          else (case sc_receiver c of
             [] \<Rightarrow> c
           | data # rest \<Rightarrow>
               if ok then c\<lparr>sc_receiver := rest, sc_wire := sc_wire c @ [data]\<rparr>
               else c\<lparr>sc_receiver := rest, sc_finished := True\<rparr>)
      | ScReply ok \<Rightarrow> if \<not> sc_connected c \<or> ok then c else c\<lparr>sc_finished := True\<rparr>)"

section \<open>The receiver\<close>

text \<open>
  One connection of the receiver: frames are handed to the handler until the stream ends,
  a frame is broken, or the handler returns an error. A panic ends the connection's task
  the same way.
\<close>

fun spawn_runner :: "(bytes \<Rightarrow> ('st, 'e, unit) handler) \<Rightarrow> bytes option list \<Rightarrow> 'st \<Rightarrow> 'st" where
  "spawn_runner dispatch [] s = s"
| "spawn_runner dispatch (None # frames) s = s"
| "spawn_runner dispatch (Some message # frames) s =
     (case dispatch message s of
        (Ok _, s') \<Rightarrow> spawn_runner dispatch frames s'
      | (_, s') \<Rightarrow> s')"

section \<open>What the reliable connection promises\<close>

text \<open>
  The abstract outbox: the messages submitted, those still waiting, the handlers notified
  and the handlers closed. The front is acknowledged first; only closed messages are
  dropped.
\<close>

record outbox =
  ob_submitted :: "inner_message list"
  ob_waiting :: "inner_message list"
  ob_acked :: "nat list"
  ob_closed :: "nat set"

inductive outbox_step :: "outbox \<Rightarrow> outbox \<Rightarrow> bool" where
  submit: "im_cancel_handler m \<notin> im_cancel_handler ` set (ob_submitted b) \<Longrightarrow>
    outbox_step b (b\<lparr>ob_submitted := ob_submitted b @ [m], ob_waiting := ob_waiting b @ [m]\<rparr>)"
| close: "outbox_step b (b\<lparr>ob_closed := insert h (ob_closed b)\<rparr>)"
| ack: "ob_waiting b = m # q \<Longrightarrow>
    outbox_step b (b\<lparr>ob_waiting := q, ob_acked := ob_acked b @ [im_cancel_handler m]\<rparr>)"
| drop: "subseq q (ob_waiting b) \<Longrightarrow> (\<And>m. m \<in> set (ob_waiting b) - set q \<Longrightarrow> im_cancel_handler m \<in> ob_closed b) \<Longrightarrow>
    outbox_step b (b\<lparr>ob_waiting := q\<rparr>)"

definition outbox_ok :: "outbox \<Rightarrow> bool" where
  "outbox_ok b \<longleftrightarrow>
     distinct (map im_cancel_handler (ob_submitted b)) \<and>
     subseq (ob_acked b @ map im_cancel_handler (ob_waiting b)) (map im_cancel_handler (ob_submitted b)) \<and>
     (\<forall>m \<in> set (ob_submitted b). m \<in> set (ob_waiting b) \<or> im_cancel_handler m \<in> set (ob_acked b) \<or>
        im_cancel_handler m \<in> ob_closed b)"

lemma outbox_step_ok: "outbox_step b b' \<Longrightarrow> outbox_ok b \<Longrightarrow> outbox_ok b'"
proof (induction rule: outbox_step.induct)
  case (submit m b)
  have "subseq (ob_acked b @ map im_cancel_handler (ob_waiting b) @ [im_cancel_handler m])
      (map im_cancel_handler (ob_submitted b) @ [im_cancel_handler m])"
    using submit.prems subseq_append_iff unfolding outbox_ok_def append_assoc [symmetric]
    by (simp del: append_assoc)
  with submit show ?case by (auto simp: outbox_ok_def)
next
  case (close b h)
  then show ?case by (auto simp: outbox_ok_def)
next
  case (ack b m q)
  then show ?case by (auto simp: outbox_ok_def)
next
  case (drop q b)
  have "subseq (ob_acked b @ map im_cancel_handler q) (ob_acked b @ map im_cancel_handler (ob_waiting b))"
    using subseq_map [OF drop.hyps(1), of im_cancel_handler] by (intro list_emb_append_mono) simp_all
  with drop show ?case
    unfolding outbox_ok_def by (auto intro: subseq_order.order_trans)
qed

lemma subseq_distinct_handlers: "subseq xs ys \<Longrightarrow> distinct ys \<Longrightarrow> distinct xs"
  by (metis distinct_nthsI subseq_conv_nths)

text \<open>A connection together with its users: who submits messages and closes handlers.\<close>

record link =
  lk_submitted :: "inner_message list"
  lk_closed :: "nat set"
  lk_conn :: connection

inductive link_step :: "link \<Rightarrow> link \<Rightarrow> bool" where
  submit: "im_cancel_handler m \<notin> im_cancel_handler ` set (lk_submitted l) \<Longrightarrow>
    link_step l (l\<lparr>lk_submitted := lk_submitted l @ [m], lk_conn := conn_submit m (lk_conn l)\<rparr>)"
| close: "link_step l (l\<lparr>lk_closed := insert h (lk_closed l)\<rparr>)"
| conn: "conn_step (lk_closed l) (lk_conn l) c' \<Longrightarrow> link_step l (l\<lparr>lk_conn := c'\<rparr>)"

definition link_new :: "socket_addr \<Rightarrow> link" where
  "link_new address = \<lparr>lk_submitted = [], lk_closed = {}, lk_conn = connection_spawn address\<rparr>"

definition in_flight :: "connection \<Rightarrow> inner_message list" where
  "in_flight c = (case cn_phase c of Connected pending \<Rightarrow> pending | _ \<Rightarrow> []) @ cn_buffer c @ cn_receiver c"

definition acked :: "connection \<Rightarrow> nat list" where
  "acked c = List.map_filter (\<lambda>e. case e of Notified h _ \<Rightarrow> Some h | _ \<Rightarrow> None) (cn_log c)"

definition outbox_of :: "link \<Rightarrow> outbox" where
  "outbox_of l = \<lparr>ob_submitted = lk_submitted l, ob_waiting = in_flight (lk_conn l),
     ob_acked = acked (lk_conn l), ob_closed = lk_closed l\<rparr>"

lemma requeue_append: "requeue pending buffer = pending @ buffer"
proof (induction pending buffer rule: requeue.induct)
  case (1 pending buffer)
  then show ?case
    by (subst requeue.simps) (simp add: append_butlast_last_id flip: append_Cons append_assoc)
qed

lemmas conn_defs = conn_connected_def conn_refused_def conn_wait_over_def conn_wait_recv_def
  conn_broken_def conn_flush_def conn_recv_def conn_response_def in_flight_def acked_def requeue_append

text \<open>What one step does to the messages in flight and to the acknowledgements.\<close>

lemma conn_step_in_flight:
  assumes "conn_step closed c c'"
  obtains (same) "in_flight c' = in_flight c" "acked c' = acked c"
  | (ack) m where "in_flight c = m # in_flight c'" "acked c' = acked c @ [im_cancel_handler m]"
  | (drop) "subseq (in_flight c') (in_flight c)" "acked c' = acked c"
      "\<And>m. m \<in> set (in_flight c) - set (in_flight c') \<Longrightarrow> im_cancel_handler m \<in> closed"
  using assms
proof cases
  case wait_recv
  then obtain m rest where r: "cn_receiver c = m # rest" by (cases "cn_receiver c") auto
  have "subseq (in_flight (conn_wait_recv closed c)) (in_flight c)"
    using wait_recv r by (auto simp: conn_defs intro!: subseq_append' list_emb_append_mono)
  moreover have "acked (conn_wait_recv closed c) = acked c" using r by (simp add: conn_defs)
  moreover have "im_cancel_handler x \<in> closed"
    if "x \<in> set (in_flight c) - set (in_flight (conn_wait_recv closed c))" for x
    using that wait_recv r by (auto simp: conn_defs split: if_splits)
  ultimately show ?thesis using drop wait_recv by blast
next
  case (flush p ok)
  then obtain m rest where b: "cn_buffer c = m # rest" by (cases "cn_buffer c") auto
  show ?thesis
  proof (cases "im_cancel_handler m \<in> closed")
    case True
    then show ?thesis using flush b
      by (intro drop) (auto simp: conn_defs intro!: list_emb_append_mono)
  next
    case False
    then show ?thesis using flush b
      by (intro same) (auto simp: conn_defs List.map_filter_def)
  qed
next
  case (response p r)
  show ?thesis
  proof (cases p)
    case Nil
    then show ?thesis using response by (intro same) (auto simp: conn_defs)
  next
    case (Cons m rest)
    show ?thesis
    proof (cases r)
      case None
      then show ?thesis using response Cons by (intro same) (auto simp: conn_defs)
    next
      case (Some reply)
      then show ?thesis using response Cons
        by (intro ack [of m]) (auto simp: conn_defs List.map_filter_def)
    qed
  qed
next
  case (recv p)
  then show ?thesis by (intro same) (auto simp: conn_defs split: list.splits)
qed (auto intro!: same simp: conn_defs)

interpretation reliable_link: simulation link_step outbox_step outbox_of
proof
  fix l l'
  assume "link_step l l'"
  then show "outbox_step (outbox_of l) (outbox_of l') \<or> outbox_of l' = outbox_of l"
  proof cases
    case (submit m)
    then have "outbox_of l' = (outbox_of l)\<lparr>ob_submitted := ob_submitted (outbox_of l) @ [m],
        ob_waiting := ob_waiting (outbox_of l) @ [m]\<rparr>"
      by (simp add: outbox_of_def conn_submit_def in_flight_def acked_def)
    then show ?thesis using submit outbox_step.submit [of m "outbox_of l"] by (simp add: outbox_of_def)
  next
    case (close h)
    then have "outbox_of l' = (outbox_of l)\<lparr>ob_closed := insert h (ob_closed (outbox_of l))\<rparr>"
      by (simp add: outbox_of_def)
    then show ?thesis using outbox_step.close by metis
  next
    case (conn c')
    from conn(2) show ?thesis
    proof (cases rule: conn_step_in_flight)
      case same
      then show ?thesis using conn by (simp add: outbox_of_def)
    next
      case (ack m)
      then have "outbox_of l' = (outbox_of l)\<lparr>ob_waiting := in_flight c',
          ob_acked := ob_acked (outbox_of l) @ [im_cancel_handler m]\<rparr>"
        using conn by (simp add: outbox_of_def)
      then show ?thesis using ack outbox_step.ack [of "outbox_of l" m "in_flight c'"]
        by (simp add: outbox_of_def)
    next
      case drop
      then have "outbox_of l' = (outbox_of l)\<lparr>ob_waiting := in_flight c'\<rparr>"
        using conn by (simp add: outbox_of_def)
      then show ?thesis using drop outbox_step.drop [of "in_flight c'" "outbox_of l"]
        by (simp add: outbox_of_def)
    qed
  qed
qed

lemma outbox_of_new: "outbox_ok (outbox_of (link_new address))"
  by (simp add: outbox_of_def link_new_def connection_spawn_def in_flight_def acked_def outbox_ok_def
      List.map_filter_def)

lemma link_outbox_ok: "link_step\<^sup>*\<^sup>* (link_new address) l \<Longrightarrow> outbox_ok (outbox_of l)"
  by (rule reliable_link.abstract_invariant) (auto intro: outbox_of_new outbox_step_ok)

text \<open>The waiting time before a connection attempt.\<close>

definition delay_ok :: "connection \<Rightarrow> bool" where
  "delay_ok c \<longleftrightarrow> cn_retry_delay c = 200 \<and> 200 \<le> cn_delay c \<and> cn_delay c \<le> 60000"

lemma conn_step_delay: "conn_step closed c c' \<Longrightarrow> delay_ok c \<Longrightarrow> delay_ok c'"
  by (erule conn_stepE) (auto simp: delay_ok_def conn_defs split: list.splits option.splits if_splits)

lemma link_step_delay: "link_step l l' \<Longrightarrow> delay_ok (lk_conn l) \<Longrightarrow> delay_ok (lk_conn l')"
  by (erule link_step.cases) (auto simp: conn_submit_def delay_ok_def dest: conn_step_delay [unfolded delay_ok_def])

text \<open>Consecutive refusals double the delay up to a minute.\<close>

definition refusals :: "nat \<Rightarrow> connection \<Rightarrow> connection" where
  "refusals k c = ((\<lambda>c. conn_wait_over (conn_refused c)) ^^ k) c"

lemma refusals_fields:
  assumes "cn_delay c = 200" "cn_retry c = 0" "cn_phase c = Connecting"
  shows "cn_delay (refusals k c) = min (200 * 2 ^ k) 60000 \<and> cn_retry (refusals k c) = k mod 2 ^ 16 \<and>
    cn_phase (refusals k c) = Connecting \<and> cn_buffer (refusals k c) = cn_buffer c \<and>
    cn_receiver (refusals k c) = cn_receiver c"
proof (induction k)
  case 0
  then show ?case using assms by (simp add: refusals_def)
next
  case (Suc k)
  have "2 * min (200 * 2 ^ k) 60000 < (2 :: nat) ^ 64" by (simp add: min_def)
  then have "2 * min (200 * 2 ^ k) 60000 mod (2 :: nat) ^ 64 = 2 * min (200 * 2 ^ k) 60000" by (rule mod_less)
  then have "min (2 * min (200 * 2 ^ k) 60000 mod (2 :: nat) ^ 64) 60000 = min (200 * 2 ^ Suc k) 60000"
    by (simp add: min_def)
  with Suc show ?case
    by (simp add: refusals_def conn_wait_over_def conn_refused_def mod_Suc_eq)
qed


section \<open>Properties\<close>

text \<open>
  C14. The reliable sender loses nothing: in every state a connection can reach, whatever
  connects, breaks or times out, each submitted message is still queued for (re)transmission,
  has been acknowledged, or was cancelled by its owner; acknowledgements and queue are in the
  order of submission, so no message is acknowledged twice or overtakes another.
\<close>

theorem reliable_connection_loses_nothing:
  assumes "link_step\<^sup>*\<^sup>* (link_new address) l"
  shows "subseq (acked (lk_conn l) @ map im_cancel_handler (in_flight (lk_conn l)))
      (map im_cancel_handler (lk_submitted l)) \<and>
    distinct (acked (lk_conn l) @ map im_cancel_handler (in_flight (lk_conn l))) \<and>
    (\<forall>m \<in> set (lk_submitted l). m \<in> set (in_flight (lk_conn l)) \<or>
       im_cancel_handler m \<in> set (acked (lk_conn l)) \<or> im_cancel_handler m \<in> lk_closed l)"
proof -
  have ok: "distinct (map im_cancel_handler (lk_submitted l))"
    "subseq (acked (lk_conn l) @ map im_cancel_handler (in_flight (lk_conn l)))
      (map im_cancel_handler (lk_submitted l))"
    "\<forall>m \<in> set (lk_submitted l). m \<in> set (in_flight (lk_conn l)) \<or>
       im_cancel_handler m \<in> set (acked (lk_conn l)) \<or> im_cancel_handler m \<in> lk_closed l"
    using link_outbox_ok [OF assms] by (simp_all add: outbox_ok_def outbox_of_def)
  from subseq_distinct_handlers [OF ok(2,1)] ok(2,3) show ?thesis by blast
qed


text \<open>
  Backoff: in every reachable state the delay before the next attempt lies between 200
  milliseconds and a minute, and \<open>k\<close> refusals in a row make it \<open>min (200 * 2^k) 60000\<close>
  without touching the messages.
\<close>

lemma backoff_is_bounded:
  assumes "link_step\<^sup>*\<^sup>* (link_new address) l"
  shows "200 \<le> cn_delay (lk_conn l) \<and> cn_delay (lk_conn l) \<le> 60000 \<and>
    cn_delay (refusals k (connection_spawn address)) = min (200 * 2 ^ k) 60000 \<and>
    in_flight (refusals k (connection_spawn address)) = []"
proof -
  have "delay_ok (lk_conn (link_new address))"
    by (simp add: link_new_def connection_spawn_def delay_ok_def)
  with assms have "delay_ok (lk_conn l)"
    by (induction rule: rtranclp_induct) (auto intro: link_step_delay)
  then show ?thesis
    using refusals_fields [of "connection_spawn address" k]
    by (simp add: delay_ok_def connection_spawn_def in_flight_def)
qed

section \<open>Instances\<close>

text \<open>
  Two messages are submitted and written; the first is acknowledged; the connection breaks
  and is established again.
\<close>

definition toy_message :: "nat \<Rightarrow> inner_message" where
  "toy_message h = \<lparr>im_data = [word_of_nat h], im_cancel_handler = h\<rparr>"


definition toy_link :: link where
  "toy_link = (let l = link_new (SocketAddr [127, 0, 0, 1] 9000) in
     l\<lparr>lk_submitted := [toy_message 0],
       lk_conn := conn_response (Some [65]) (conn_flush {} True (conn_recv (conn_connected
         (conn_submit (toy_message 0) (lk_conn l)))))\<rparr>)"

lemma toy_link_reached: "link_step\<^sup>*\<^sup>* (link_new (SocketAddr [127, 0, 0, 1] 9000)) toy_link"
proof -
  let ?l = "link_new (SocketAddr [127, 0, 0, 1] 9000)"
  let ?l1 = "?l\<lparr>lk_submitted := [toy_message 0], lk_conn := conn_submit (toy_message 0) (lk_conn ?l)\<rparr>"
  let ?l2 = "?l1\<lparr>lk_conn := conn_connected (lk_conn ?l1)\<rparr>"
  let ?l3 = "?l2\<lparr>lk_conn := conn_recv (lk_conn ?l2)\<rparr>"
  let ?l4 = "?l3\<lparr>lk_conn := conn_flush {} True (lk_conn ?l3)\<rparr>"
  let ?l5 = "?l4\<lparr>lk_conn := conn_response (Some [65]) (lk_conn ?l4)\<rparr>"
  note defs = link_new_def connection_spawn_def conn_submit_def conn_connected_def conn_recv_def
    conn_flush_def toy_message_def
  have "link_step ?l ?l1"
    using link_step.submit [of "toy_message 0" ?l] by (simp add: link_new_def)
  moreover have "link_step ?l1 ?l2"
    by (rule link_step.conn, rule conn_step.connected) (simp add: defs)
  moreover have "link_step ?l2 ?l3"
    by (rule link_step.conn, rule conn_step.recv) (simp_all add: defs)
  moreover have "link_step ?l3 ?l4"
    using conn_step.flush [of "lk_conn ?l3" "[]" "{}" True]
    by (intro link_step.conn) (simp add: defs)
  moreover have "link_step ?l4 ?l5"
    by (rule link_step.conn, rule conn_step.response) (simp_all add: defs)
  moreover have "?l5 = toy_link" by (simp add: toy_link_def Let_def)
  ultimately have "link_step\<^sup>*\<^sup>* ?l toy_link"
    by (intro converse_rtranclp_into_rtranclp [of _ ?l ?l1] converse_rtranclp_into_rtranclp [of _ ?l1 ?l2]
        converse_rtranclp_into_rtranclp [of _ ?l2 ?l3] converse_rtranclp_into_rtranclp [of _ ?l3 ?l4]
        r_into_rtranclp) (simp_all only:)
  then show ?thesis .
qed

theorem reliable_connection_loses_nothing_witness:
  "lk_submitted toy_link = [toy_message 0] \<and> acked (lk_conn toy_link) = [0] \<and>
   subseq (acked (lk_conn toy_link) @ map im_cancel_handler (in_flight (lk_conn toy_link)))
      (map im_cancel_handler (lk_submitted toy_link))"
proof -
  have "lk_submitted toy_link = [toy_message 0]" "acked (lk_conn toy_link) = [0]"
    by (simp_all add: toy_link_def Let_def link_new_def connection_spawn_def conn_submit_def conn_connected_def
        conn_recv_def conn_flush_def conn_response_def toy_message_def acked_def List.map_filter_def)
  with reliable_connection_loses_nothing [OF toy_link_reached] show ?thesis by blast
qed


end
