(* ===== verification/Consensus.thy ===== *)
theory Consensus
  imports Core Committer Network
begin

text \<open>
  The consensus node as a whole (src/hydrangea/src/consensus.rs, helper.rs): the handler of
  incoming frames, the helper that serves blocks to peers, and the tasks that
  \<^verbatim>\<open>Consensus::spawn\<close> starts, connected by their channels. A step of the node is
  one turn of one task; the interleaving of the tasks is arbitrary. A channel is the list of
  the messages in it; channels to the outside (the application and the mempool) and the network
  keep everything sent. The record \<open>core\<close> holds the store that all tasks share.
\<close>

section \<open>Incoming frames and sync requests\<close>

record 's consensus_inbox =
  ci_tx_consensus :: "'s consensus_message list"
  ci_tx_helper :: "(digest \<times> public_key) list"
  ci_acks :: nat

definition consensus_dispatch ::
  "(bytes \<Rightarrow> 's consensus_message option) \<Rightarrow> bytes \<Rightarrow> ('s consensus_inbox, 's consensus_error, unit) handler" where
  "consensus_dispatch de serialized = (\<lambda>i.
     case de serialized of
       None \<Rightarrow> (Err SerializationError, i)
     | Some (SyncRequest missing origin) \<Rightarrow> (Ok (), i\<lparr>ci_tx_helper := ci_tx_helper i @ [(missing, origin)]\<rparr>)
     | Some (Propose proposal) \<Rightarrow>
         (Ok (), i\<lparr>ci_acks := Suc (ci_acks i), ci_tx_consensus := ci_tx_consensus i @ [Propose proposal]\<rparr>)
     | Some message \<Rightarrow> (Ok (), i\<lparr>ci_tx_consensus := ci_tx_consensus i @ [message]\<rparr>))"

definition helper_turn ::
  "'db rocksdb \<Rightarrow> (val \<Rightarrow> 's block option) \<Rightarrow> 'pk committee \<Rightarrow> 'db store \<Rightarrow> digest \<times> public_key \<Rightarrow>
   ('s consensus_error, (socket_addr \<times> 's consensus_message) list) res" where
  "helper_turn D de C st = (\<lambda>(digest, origin).
     case committee_consensus C origin of
       Ok x \<Rightarrow>
         (case store_read D (to_vec digest) st of
            Inl _ \<Rightarrow> Panic ''Failed to read from storage''
          | Inr None \<Rightarrow> Ok []
          | Inr (Some bytes) \<Rightarrow>
              (case de bytes of
                 None \<Rightarrow> Panic ''Failed to deserialize our own block''
               | Some block \<Rightarrow> Ok [(consensus_to_consensus x, SyncResponse block)]))
     | _ \<Rightarrow> Ok [])"

section \<open>The node\<close>

record ('pk, 's, 'db, 'tx) node =
  nd_core :: "('pk, 's, 'db) core"
  nd_proposer :: "('pk, 's) proposer"
  nd_synchronizer :: "'s synchronizer"
  nd_executed :: "'tx committer_effect list"
  rx_consensus :: "'s consensus_message list"
  rx_proposer_core :: "'s proposal_message list"
  rx_sync_core :: "'s block list"
  rx_core_proposer :: "'s proposer_message list"
  rx_inner :: "'s sync_request list"
  rx_helper :: "(digest \<times> public_key) list"
  rx_commit :: "'s certificate list list"
  rx_mempool :: "'s certificate list"
  tx_mempool :: "'s certificate list"
  tx_output :: "'s block list"
  nd_network :: "(socket_addr \<times> 's consensus_message) list"
  nd_notified :: "(nat \<times> store_reply) list"
  nd_failed :: bool

text \<open>The encodings of the node, besides those of the core.\<close>

record ('pk, 's, 'db, 'tx) node_env =
  ne_core :: "('pk, 's, 'db) core_env"
  ne_de_message :: "bytes \<Rightarrow> 's consensus_message option"
  ne_de_header :: "val \<Rightarrow> 'tx header option"
  ne_bcs :: "'tx \<Rightarrow> u8 list option"
  ne_generate :: "u64 \<Rightarrow> bool"

text \<open>
  \<^verbatim>\<open>Consensus::spawn\<close>. The committer task is started only outside the
  consensus-only mode; then its accounts are bootstrapped.
\<close>

definition consensus_spawn ::
  "('pk, 's, 'db, 'tx) node_env \<Rightarrow> public_key \<Rightarrow> 'pk committee \<Rightarrow> parameters \<Rightarrow> 'db store \<Rightarrow>
   ('e, ('pk, 's, 'db, 'tx) node) res" where
  "consensus_spawn env name C params st =
     (case committee_consensus C name of
        Ok _ \<Rightarrow>
          bind_r (leader_elector_new (p_leader_elector params) C) (\<lambda>elector.
            Ok \<lparr>nd_core = core_init (ne_core env) name C (p_consensus_only params) st elector (p_timeout_delay params),
                nd_proposer = proposer_new name (p_consensus_only params) C (p_max_block_size params),
                nd_synchronizer = synchronizer_new,
                nd_executed = (if p_consensus_only params then [] else bootstrap_accounts (ne_generate env)),
                rx_consensus = [], rx_proposer_core = [], rx_sync_core = [], rx_core_proposer = [],
                rx_inner = [], rx_helper = [], rx_commit = [], rx_mempool = [], tx_mempool = [],
                tx_output = [], nd_network = [], nd_notified = [], nd_failed = False\<rparr>)
      | _ \<Rightarrow> Panic ''Our public key is not in the committee'')"

text \<open>Where an effect of the core goes.\<close>

fun route :: "'s core_effect \<Rightarrow> ('pk, 's, 'db, 'tx) node \<Rightarrow> ('pk, 's, 'db, 'tx) node" where
  "route (NetBroadcast as m) n = n\<lparr>nd_network := nd_network n @ map (\<lambda>a. (a, m)) as\<rparr>"
| "route (NetSend a m) n = n\<lparr>nd_network := nd_network n @ [(a, m)]\<rparr>"
| "route (ToProposer m) n = n\<lparr>rx_core_proposer := rx_core_proposer n @ [m]\<rparr>"
| "route (ToCommitter p) n = n\<lparr>rx_commit := rx_commit n @ [p]\<rparr>"
| "route (Output b) n = n\<lparr>tx_output := tx_output n @ [b]\<rparr>"
| "route (ToMempool c) n = n\<lparr>tx_mempool := tx_mempool n @ [c]\<rparr>"
| "route (ToSynchronizer r) n = n\<lparr>rx_inner := rx_inner n @ [r]\<rparr>"
| "route (StoreAnswer ch r) n = n\<lparr>nd_notified := nd_notified n @ [(ch, r)]\<rparr>"
| "route (CommittedBlock b) n = n"
| "route (SignedVote v) n = n"
| "route (SignedTimeout t) n = n"

definition route_new :: "nat \<Rightarrow> ('pk, 's, 'db, 'tx) node \<Rightarrow> ('pk, 's, 'db, 'tx) node" where
  "route_new seen n = fold route (drop seen (c_trace (nd_core n))) n"

text \<open>The start of the core task, and one turn of it.\<close>

definition node_start ::
  "('pk, 's, 'db, 'tx) node_env \<Rightarrow> ('pk, 's, 'db, 'tx) node \<Rightarrow> ('pk, 's, 'db, 'tx) node" where
  "node_start env n =
     (case core_start (ne_core env) (nd_core n) of
        (r, c) \<Rightarrow> route_new (length (c_trace (nd_core n)))
          (n\<lparr>nd_core := c, nd_proposer := proposer_start (nd_proposer n), nd_failed := (\<forall>u. r \<noteq> Ok u)\<rparr>))"

definition node_core_turn ::
  "('pk::{linorder, ab_group_add}, 's::ab_group_add, 'db, 'tx) node_env \<Rightarrow> nat \<times> 's core_event \<Rightarrow>
   ('pk, 's, 'db, 'tx) node \<Rightarrow> ('pk, 's, 'db, 'tx) node" where
  "node_core_turn env ev n =
     (case core_turn (ne_core env) ev (nd_core n) of
        (r, c) \<Rightarrow> route_new (length (c_trace (nd_core n)))
          (n\<lparr>nd_core := c, nd_failed := (case r of Panic _ \<Rightarrow> True | Diverge \<Rightarrow> True | _ \<Rightarrow> False)\<rparr>))"

text \<open>Where the effects of the proposer go.\<close>

fun route_proposal :: "'s proposer_effect \<Rightarrow> ('pk, 's, 'db, 'tx) node \<Rightarrow> ('pk, 's, 'db, 'tx) node" where
  "route_proposal (Loopback p) n = n\<lparr>rx_proposer_core := rx_proposer_core n @ [p]\<rparr>"
| "route_proposal (BroadcastProposal as p) n = n\<lparr>nd_network := nd_network n @ map (\<lambda>a. (a, Propose p)) as\<rparr>"
| "route_proposal (BroadcastAck as) n = n"

definition node_proposer_turn ::
  "('pk, 's, 'db, 'tx) node_env \<Rightarrow> bool \<Rightarrow> 's proposer_event \<Rightarrow> ('pk, 's, 'db, 'tx) node \<Rightarrow> ('pk, 's, 'db, 'tx) node" where
  "node_proposer_turn env timer_expired ev n =
     (let E = ce_runtime (ne_core env); p = nd_proposer n;
          p' = (if pr_consensus_only p
                then (case ev of FromCore m \<Rightarrow> proposer_turn_consensus_only E m p | _ \<Rightarrow> p)
                else proposer_turn E timer_expired ev p)
      in fold route_proposal (drop (length (pr_trace p)) (pr_trace p')) (n\<lparr>nd_proposer := p'\<rparr>))"

text \<open>Where the messages of the synchronizer go; a \<^verbatim>\<open>notify_read\<close> is a command to the store.\<close>

fun route_sync :: "'s sync_effect \<Rightarrow> ('pk, 's, 'db, 'tx) node \<Rightarrow> ('pk, 's, 'db, 'tx) node" where
  "route_sync (SySend a m) n = n\<lparr>nd_network := nd_network n @ [(a, m)]\<rparr>"
| "route_sync (SyBroadcast as m) n = n\<lparr>nd_network := nd_network n @ map (\<lambda>a. (a, m)) as\<rparr>"
| "route_sync (SyLoopback b) n = n\<lparr>rx_sync_core := rx_sync_core n @ [b]\<rparr>"
| "route_sync (SyNotifyRead d) n = n"
| "route_sync SyTimerReset n = n"

text \<open>
  One step of the node. The clock value \<open>now\<close> of a turn is arbitrary, the core takes the
  maximum with its own.
\<close>

inductive node_step ::
  "('pk::{linorder, ab_group_add}, 's::ab_group_add, 'db, 'tx) node_env \<Rightarrow>
   ('pk, 's, 'db, 'tx) node \<Rightarrow> ('pk, 's, 'db, 'tx) node \<Rightarrow> bool" for env where
  frame: "\<not> nd_failed n \<Longrightarrow>
    consensus_dispatch (ne_de_message env) bytes
      \<lparr>ci_tx_consensus = rx_consensus n, ci_tx_helper = rx_helper n, ci_acks = 0\<rparr> = (Ok u, i) \<Longrightarrow>
    node_step env n (n\<lparr>rx_consensus := ci_tx_consensus i, rx_helper := ci_tx_helper i\<rparr>)"
| core_message: "\<not> nd_failed n \<Longrightarrow> rx_consensus n = m # ms \<Longrightarrow>
    node_step env n (node_core_turn env (now, RxMessage m) (n\<lparr>rx_consensus := ms\<rparr>))"
| core_proposal: "\<not> nd_failed n \<Longrightarrow> rx_proposer_core n = p # ps \<Longrightarrow>
    node_step env n (node_core_turn env (now, RxProposer p) (n\<lparr>rx_proposer_core := ps\<rparr>))"
| core_loopback: "\<not> nd_failed n \<Longrightarrow> rx_sync_core n = b # bs \<Longrightarrow>
    node_step env n (node_core_turn env (now, RxSynchronizer b) (n\<lparr>rx_sync_core := bs\<rparr>))"
| core_timer: "\<not> nd_failed n \<Longrightarrow> node_step env n (node_core_turn env (now, TimerExpired) n)"
| store_traffic: "\<not> nd_failed n \<Longrightarrow> node_step env n (node_core_turn env (now, StoreTraffic cmd) n)"
| proposer_message: "\<not> nd_failed n \<Longrightarrow> rx_core_proposer n = m # ms \<Longrightarrow>
    node_step env n (node_proposer_turn env expired (FromCore m) (n\<lparr>rx_core_proposer := ms\<rparr>))"
| proposer_payload: "\<not> nd_failed n \<Longrightarrow> rx_mempool n = c # cs \<Longrightarrow>
    node_step env n (node_proposer_turn env expired (FromMempool c) (n\<lparr>rx_mempool := cs\<rparr>))"
| proposer_timer: "\<not> nd_failed n \<Longrightarrow> node_step env n (node_proposer_turn env expired TimerFired n)"
| mempool: "\<not> nd_failed n \<Longrightarrow> node_step env n (n\<lparr>rx_mempool := rx_mempool n @ [c]\<rparr>)"
| sync_request: "\<not> nd_failed n \<Longrightarrow> rx_inner n = r # rs \<Longrightarrow>
    sync_on_request (ce_runtime (ne_core env)) (c_name (nd_core n)) (c_committee (nd_core n)) now r (nd_synchronizer n) = (Ok es, y) \<Longrightarrow>
    node_step env n (fold route_sync es (n\<lparr>rx_inner := rs, nd_synchronizer := y\<rparr>))"
| sync_stored: "\<not> nd_failed n \<Longrightarrow> d \<in> set (sy_waiting (nd_synchronizer n)) \<Longrightarrow>
    (\<exists>v. store_read (ce_rocksdb (ne_core env)) (to_vec d) (c_store (nd_core n)) = Inr (Some v)) \<Longrightarrow>
    sync_on_stored d (nd_synchronizer n) = (es, y) \<Longrightarrow>
    node_step env n (fold route_sync es (n\<lparr>nd_synchronizer := y\<rparr>))"
| sync_timer: "\<not> nd_failed n \<Longrightarrow>
    node_step env n (fold route_sync (sync_on_timer (c_name (nd_core n)) (c_committee (nd_core n)) delay now order (nd_synchronizer n)) n)"
| helper: "\<not> nd_failed n \<Longrightarrow> rx_helper n = r # rs \<Longrightarrow>
    helper_turn (ce_rocksdb (ne_core env)) (ce_de (ne_core env)) (c_committee (nd_core n)) (c_store (nd_core n)) r = Ok ms \<Longrightarrow>
    node_step env n (n\<lparr>rx_helper := rs, nd_network := nd_network n @ ms\<rparr>)"
| committer: "\<not> nd_failed n \<Longrightarrow> rx_commit n = p # ps \<Longrightarrow>
    node_step env n (n\<lparr>rx_commit := ps,
      nd_executed := committer_turn (ce_rocksdb (ne_core env)) (ne_de_header env) (ne_bcs env) (c_store (nd_core n), p) (nd_executed n)\<rparr>)"

inductive_cases node_stepE: "node_step env n n'"

definition node_reachable ::
  "('pk::{linorder, ab_group_add}, 's::ab_group_add, 'db, 'tx) node_env \<Rightarrow> public_key \<Rightarrow> 'pk committee \<Rightarrow> parameters \<Rightarrow>
   'db store \<Rightarrow> ('pk, 's, 'db, 'tx) node \<Rightarrow> bool" where
  "node_reachable env name C params st n \<longleftrightarrow>
     (\<exists>n0. (consensus_spawn env name C params st :: (unit, _) res) = Ok n0 \<and> (node_step env)\<^sup>*\<^sup>* (node_start env n0) n)"

end
