(* ===== verification/Node.thy ===== *)
theory Node
  imports Consensus Core_Safety Instance
begin

text \<open>
  The composed node. Its core only ever makes turns of the event loop, so a reachable node
  holds the core of a run and everything proved of such runs holds of it; and what leaves the
  node towards the application and the executor is the committed chain.
\<close>

section \<open>Extending a run by one turn\<close>




section \<open>Frames\<close>









section \<open>The invariant of a node\<close>





lemma core_start_grows:
  fixes env :: "('pk::{linorder, ab_group_add}, 's::ab_group_add, 'db) core_env"
  shows "\<exists>es. c_trace (snd (core_start env s)) = c_trace s @ es"
  using stepsD [OF forward.steps_core_start, of s env] by (auto simp: progress_def)








section \<open>Reachable nodes\<close>





section \<open>Properties\<close>



section \<open>An instance\<close>
























end
