(* ===== verification/Leader_Proofs.thy ===== *)
theory Leader_Proofs
  imports Leader "HOL-Library.Sublist" "HOL-Library.Multiset"
begin

text \<open>
  The leader schedules. The fair succession walks the complete directed graph on the members,
  leaving each member along its queue of successors; the walk turns out to use every edge once.
\<close>

section \<open>The queues of successors\<close>

lemma index_schedule_map:
  assumes "i < n"
  shows "index_schedule n i = map (\<lambda>j. (i + j) mod n) [1..<n]"
proof -
  have "(i + j) mod n \<noteq> i" if "j \<in> set [1..<n]" for j
  proof -
    from that assms have "i + j < n \<and> (i + j) mod n = i + j \<or> n \<le> i + j \<and> (i + j) mod n = i + j - n"
      by (cases "i + j < n") (auto simp: mod_if)
    with that assms show ?thesis by auto
  qed
  then have "filter (\<lambda>s. s \<noteq> i) (map (\<lambda>j. (i + j) mod n) [1..<n]) = map (\<lambda>j. (i + j) mod n) [1..<n]"
    by (auto simp: filter_id_conv)
  moreover have "[0..<n] = 0 # [1..<n]" using assms by (simp add: upt_conv_Cons)
  ultimately show ?thesis using assms by (simp add: index_schedule_def)
qed

lemma index_schedule_length: "i < n \<Longrightarrow> length (index_schedule n i) = n - 1"
  by (simp add: index_schedule_map)

lemma index_schedule_set:
  assumes "i < n"
  shows "set (index_schedule n i) = {0..<n} - {i}"
proof -
  have "j \<in> (\<lambda>j. (i + j) mod n) ` {0..<n}" if "j < n" for j
  proof (rule image_eqI [of _ _ "if i \<le> j then j - i else n + j - i"])
    show "j = (i + (if i \<le> j then j - i else n + j - i)) mod n" using that assms by simp
  qed (use that assms in auto)
  then show ?thesis using assms by (auto simp: index_schedule_def)
qed

lemma index_schedule_distinct: "i < n \<Longrightarrow> distinct (index_schedule n i)"
  by (rule card_distinct) (simp add: index_schedule_set index_schedule_length)

lemma index_schedule_last: "Suc k < n \<Longrightarrow> last (index_schedule n (Suc k)) = k"
  by (simp add: index_schedule_map last_map)

section \<open>Walks\<close>

text \<open>The edges of a walk, and the successors a walk takes from \<open>v\<close>.\<close>

definition edges :: "nat list \<Rightarrow> (nat \<times> nat) list" where
  "edges s = zip (butlast s) (tl s)"

definition nexts :: "nat \<Rightarrow> nat list \<Rightarrow> nat list" where
  "nexts v s = map snd (filter (\<lambda>e. fst e = v) (edges s))"

lemma edges_Cons: "s \<noteq> [] \<Longrightarrow> edges (l # s) = (l, hd s) # edges s"
  by (cases s) (simp_all add: edges_def)

lemma nexts_Cons: "s \<noteq> [] \<Longrightarrow> nexts v (l # s) = (if l = v then hd s # nexts v s else nexts v s)"
  by (simp add: nexts_def edges_Cons)

lemma walk_total:
  fixes succs :: "nat list list"
  assumes "l < length succs" "\<forall>xs \<in> set succs. \<forall>x \<in> set xs. x < length succs"
  shows "\<exists>s. (walk succs l :: ('e, _) res) = Ok s \<and> s \<noteq> [] \<and> hd s = l \<and> set s \<subseteq> {0..<length succs} \<and>
    nexts (last s) s = succs ! last s \<and> (\<forall>v < length succs. prefix (nexts v s) (succs ! v))"
  using assms
proof (induction succs l rule: walk.induct)
  case (1 succs l)
  show ?case
  proof (cases "succs ! l")
    case Nil
    then have "(walk succs l :: ('e, _) res) = Ok [l]"
      using "1.prems" by (subst walk.simps) (simp add: nth_opt_def)
    then show ?thesis using Nil "1.prems" by (simp add: nexts_def edges_def)
  next
    case (Cons x rest)
    let ?succs = "succs[l := rest]"
    have found: "nth_opt succs l = Some (x # rest)" using "1.prems" Cons by (simp add: nth_opt_def)
    have mem: "x # rest \<in> set succs" using "1.prems"(1) Cons by (metis nth_mem)
    have "y < length ?succs" if "xs \<in> set ?succs" "y \<in> set xs" for xs y
    proof -
      from that(1) have "xs = rest \<or> xs \<in> set succs" using set_update_subset_insert by fastforce
      with mem that(2) "1.prems"(2) show ?thesis by fastforce
    qed
    moreover have "x < length ?succs" using mem "1.prems"(2) by fastforce
    ultimately obtain s where s: "(walk ?succs x :: ('e, _) res) = Ok s" "s \<noteq> []" "hd s = x"
        "set s \<subseteq> {0..<length succs}" "nexts (last s) s = ?succs ! last s"
        "\<forall>v < length succs. prefix (nexts v s) (?succs ! v)"
      using "1.IH" [OF found refl] by auto
    have "(walk succs l :: ('e, _) res) = Ok (l # s)" by (subst walk.simps, subst found) (simp add: s(1))
    moreover have "nexts v (l # s) = (if v = l then x # nexts v s else nexts v s)" for v
      using s(2,3) by (simp add: nexts_Cons)
    moreover have "prefix (nexts v (l # s)) (succs ! v)" if "v < length succs" for v
      using s(6) that Cons "1.prems"(1) calculation(2) by (auto simp: nth_list_update)
    moreover have "nexts (last (l # s)) (l # s) = succs ! last (l # s)"
      using s(2,5) Cons "1.prems"(1) calculation(2) by (auto simp: nth_list_update)
    ultimately show ?thesis using s(4) "1.prems"(1) by auto
  qed
qed

text \<open>Counting: a walk enters a vertex as often as it leaves it, up to its ends.\<close>

lemma length_nexts: "length (nexts v s) = count_list (butlast s) v"
  by (induction s rule: induct_list012) (simp_all add: nexts_def edges_def)

lemma entered_left:
  assumes "s \<noteq> []"
  shows "count_list (tl s) v + (if v = hd s then 1 else 0) = length (nexts v s) + (if v = last s then 1 else 0)"
proof -
  have "count_list (tl s) v + (if v = hd s then 1 else 0) = count_list s v"
    using assms by (cases s) auto
  also have "\<dots> = count_list (butlast s @ [last s]) v" using assms by simp
  finally show ?thesis by (simp only: count_list_append length_nexts) auto
qed

lemma entered_sum:
  assumes "set s \<subseteq> {0..<n}"
  shows "count_list (tl s) v = (\<Sum>u<n. count_list (nexts u s) v)"
  using assms
proof (induction s rule: induct_list012)
  case (3 x y zs)
  have "(\<Sum>u<n. count_list (nexts u (x # y # zs)) v) =
      (\<Sum>u<n. (if u = x then (if y = v then 1 else 0) else 0) + count_list (nexts u (y # zs)) v)"
    by (intro sum.cong) (auto simp: nexts_Cons)
  also have "\<dots> = (if y = v then 1 else 0) + (\<Sum>u<n. count_list (nexts u (y # zs)) v)"
    using "3.prems" by (simp add: sum.distrib)
  finally show ?case using 3 by auto
qed (simp_all add: nexts_def edges_def)

lemma count_distinct: "distinct xs \<Longrightarrow> count_list xs x = (if x \<in> set xs then 1 else 0)"
  by (induction xs) auto

text \<open>A walk along the queues that has left each vertex as often as it entered it uses all queues.\<close>

lemma prefix_full:
  assumes "prefix xs ys" "distinct ys" "ys \<noteq> []" "last ys \<in> set xs"
  shows "xs = ys"
proof -
  obtain zs where ys: "ys = xs @ zs" using assms(1) by (auto simp: prefix_def)
  have "zs = []"
  proof (rule ccontr)
    assume "zs \<noteq> []"
    then have "last ys \<in> set zs" by (simp add: ys)
    with assms(2,4) show False by (auto simp: ys)
  qed
  then show ?thesis by (simp add: ys)
qed

definition along_queues :: "nat \<Rightarrow> nat list \<Rightarrow> bool" where
  "along_queues n s \<longleftrightarrow> set s \<subseteq> {0..<n} \<and> (\<forall>u < n. prefix (nexts u s) (index_schedule n u))"

lemma along_queues_nexts:
  assumes "along_queues n s" "u < n"
  shows "distinct (nexts u s)" "set (nexts u s) \<subseteq> {0..<n} - {u}" "length (nexts u s) \<le> n - 1"
proof -
  have p: "prefix (nexts u s) (index_schedule n u)" using assms by (simp add: along_queues_def)
  show "distinct (nexts u s)" using p index_schedule_distinct [OF assms(2)] by (auto simp: prefix_def)
  show "set (nexts u s) \<subseteq> {0..<n} - {u}" 
    using set_mono_prefix [OF p] unfolding index_schedule_set [OF assms(2)] .
  show "length (nexts u s) \<le> n - 1" by (metis prefix_length_le [OF p] index_schedule_length [OF assms(2)])
qed

lemma entered_by:
  assumes "along_queues n s" "v < n"
  shows "count_list (tl s) v \<le> n - 1"
    and "count_list (tl s) v = n - 1 \<Longrightarrow> u < n \<Longrightarrow> u \<noteq> v \<Longrightarrow> v \<in> set (nexts u s)"
proof -
  let ?from = "{u. u < n \<and> v \<in> set (nexts u s)}"
  have "count_list (tl s) v = (\<Sum>u<n. count_list (nexts u s) v)"
    using assms(1) by (intro entered_sum) (simp add: along_queues_def)
  also have "\<dots> = (\<Sum>u<n. if v \<in> set (nexts u s) then 1 else 0)"
    using along_queues_nexts(1) [OF assms(1)] by (intro sum.cong) (auto simp: count_distinct)
  also have "\<dots> = card ?from" by (simp add: sum.If_cases lessThan_def Collect_conj_eq [symmetric])
  finally have count: "count_list (tl s) v = card ?from" .
  have sub: "?from \<subseteq> {0..<n} - {v}" using along_queues_nexts(2) [OF assms(1)] by auto
  have card: "card ({0..<n} - {v}) = n - 1" using assms(2) by simp
  show "count_list (tl s) v \<le> n - 1" using card_mono [OF _ sub] card count by simp
  assume "count_list (tl s) v = n - 1" "u < n" "u \<noteq> v"
  then have "?from = {0..<n} - {v}" using card_subset_eq [OF _ sub] card count by simp
  moreover have "u \<in> {0..<n} - {v}" using \<open>u < n\<close> \<open>u \<noteq> v\<close> by simp
  ultimately show "v \<in> set (nexts u s)" by blast
qed

lemma closed_walk_full:
  assumes "along_queues n s" "s \<noteq> []" "hd s = 0" "last s = 0" "nexts 0 s = index_schedule n 0" "v < n"
  shows "nexts v s = index_schedule n v"
  using \<open>v < n\<close>
proof (induction v)
  case 0
  show ?case by (rule assms(5))
next
  case (Suc k)
  then have "count_list (tl s) k = n - 1"
    using entered_left [OF assms(2), of k] assms(3,4) index_schedule_length [of k n] by (simp split: if_splits)
  then have "last (index_schedule n (Suc k)) \<in> set (nexts (Suc k) s)"
    using entered_by(2) [OF assms(1), of k "Suc k"] Suc.prems by (simp add: index_schedule_last)
  moreover have "prefix (nexts (Suc k) s) (index_schedule n (Suc k))" "index_schedule n (Suc k) \<noteq> []"
    using assms(1) Suc.prems index_schedule_length [of "Suc k" n] by (auto simp: along_queues_def)
  ultimately show ?case using prefix_full index_schedule_distinct [OF Suc.prems] by blast
qed

lemma fair_walk:
  assumes "1 \<le> n"
  shows "\<exists>s. (walk (map (index_schedule n) [0..<n]) 0 :: ('e, _) res) = Ok s \<and> s \<noteq> [] \<and> hd s = 0 \<and> last s = 0 \<and>
    along_queues n s \<and> (\<forall>v < n. nexts v s = index_schedule n v)"
proof -
  let ?succs = "map (index_schedule n) [0..<n]"
  have "0 < length ?succs" "\<forall>xs \<in> set ?succs. \<forall>x \<in> set xs. x < length ?succs"
    using assms by (auto simp: index_schedule_set)
  from walk_total [OF this] obtain s where s: "(walk ?succs 0 :: ('e, _) res) = Ok s" "s \<noteq> []" "hd s = 0"
    "set s \<subseteq> {0..<n}" "nexts (last s) s = ?succs ! last s" "\<forall>v < n. prefix (nexts v s) (?succs ! v)"
    by auto
  have queues: "along_queues n s" using s(4,6) by (simp add: along_queues_def)
  have last: "last s < n" using s(2,4) last_in_set by fastforce
  have full: "nexts (last s) s = index_schedule n (last s)" using s(5) last by simp
  have "last s = 0"
  proof (rule ccontr)
    assume "last s \<noteq> 0"
    then have "count_list (tl s) (last s) = Suc (n - 1)"
      using entered_left [OF s(2), of "last s"] s(3) full index_schedule_length [OF last] by (simp split: if_splits)
    with entered_by(1) [OF queues last] show False by simp
  qed
  moreover have "nexts v s = index_schedule n v" if "v < n" for v
    using closed_walk_full [OF queues s(2,3) \<open>last s = 0\<close>] full \<open>last s = 0\<close> that by simp
  ultimately show ?thesis using s(1-3) queues by blast
qed

section \<open>The fair schedule\<close>

lemma edges_closed:
  assumes "s \<noteq> []" "hd s = last s" "butlast s \<noteq> []"
  shows "edges s = zip (butlast s) (rotate1 (butlast s))"
proof -
  obtain x xs where b: "butlast s = x # xs" using assms(3) by (cases "butlast s") auto
  then have "s = (x # xs) @ [last s]" using assms(1) by (metis append_butlast_last_id)
  moreover have "last s = x" using assms b by (metis append_butlast_last_id hd_append2 list.sel(1))
  ultimately show ?thesis by (simp add: edges_def b)
qed

lemma edges_of_queues:
  assumes "along_queues n s" "\<forall>v < n. nexts v s = index_schedule n v"
  shows "set (edges s) = {(i, j). i < n \<and> j < n \<and> i \<noteq> j}" "length (edges s) = n * (n - 1)"
proof -
  have "(i, j) \<in> set (edges s) \<longleftrightarrow> j \<in> set (nexts i s)" for i j by (force simp: nexts_def)
  moreover have "i < n" if "(i, j) \<in> set (edges s)" for i j
    using that assms(1) set_zip_leftD in_set_butlastD by (fastforce simp: edges_def along_queues_def)
  moreover have "j \<in> set (nexts i s) \<longleftrightarrow> j < n \<and> i \<noteq> j" if "i < n" for i j
    using assms(2) index_schedule_set [OF that] that by auto
  ultimately have "(i, j) \<in> set (edges s) \<longleftrightarrow> i < n \<and> j < n \<and> i \<noteq> j" for i j by blast
  then show "set (edges s) = {(i, j). i < n \<and> j < n \<and> i \<noteq> j}" by auto
  have "length (edges s) = length (butlast s)" by (simp add: edges_def)
  also have "\<dots> = (\<Sum>v<n. count_list (butlast s) v)"
    using assms(1) in_set_butlastD by (intro sum_count_set [symmetric]) (fastforce simp: along_queues_def)+
  also have "\<dots> = (\<Sum>v<n. n - 1)"
    using assms(2) by (intro sum.cong) (auto simp: length_nexts [symmetric] index_schedule_length)
  finally show "length (edges s) = n * (n - 1)" by simp
qed

lemma ordered_pairs_card: "card {(i, j). i < n \<and> j < n \<and> i \<noteq> j} = n * (n - 1)"
proof -
  have "{(i, j). i < n \<and> j < n \<and> i \<noteq> j} = (SIGMA i:{0..<n}. {0..<n} - {i})" by auto
  then show ?thesis by (simp add: card_SigmaI)
qed

lemma generate_schedule_walk:
  assumes "1 \<le> n"
  shows "\<exists>s. (generate_schedule n :: ('e, _) res) = Ok s \<and> length s = n * (n - 1) \<and> set s \<subseteq> {0..<n} \<and>
    (\<forall>i < n. count_list s i = n - 1) \<and> distinct (zip s (rotate1 s)) \<and>
    set (zip s (rotate1 s)) = {(i, j). i < n \<and> j < n \<and> i \<noteq> j}"
proof -
  obtain s where s: "(walk (map (index_schedule n) [0..<n]) 0 :: ('e, _) res) = Ok s" "s \<noteq> []" "hd s = 0" "last s = 0"
    "along_queues n s" "\<forall>v < n. nexts v s = index_schedule n v"
    using fair_walk [OF assms] by blast
  note edges = edges_of_queues [OF s(5,6)]
  have len: "length (butlast s) = n * (n - 1)" using edges(2) by (simp add: edges_def)
  have eq: "edges s = zip (butlast s) (rotate1 (butlast s))"
  proof (cases "butlast s = []")
    case False
    then show ?thesis using edges_closed [OF s(2)] s(3,4) by simp
  qed (simp add: edges_def)
  have "distinct (edges s)" by (rule card_distinct) (simp add: edges ordered_pairs_card)
  moreover have "count_list (butlast s) i = n - 1" if "i < n" for i
    using s(6) that index_schedule_length [OF that] by (simp add: length_nexts [symmetric])
  moreover have "set (butlast s) \<subseteq> {0..<n}" using s(5) in_set_butlastD by (fastforce simp: along_queues_def)
  moreover have "(generate_schedule n :: ('e, _) res) = Ok (butlast s)"
    using s(1-4) assms by (simp add: generate_schedule_def)
  ultimately show ?thesis using edges(1) len unfolding eq by blast
qed

section \<open>Every elector names members\<close>

lemma nonempty_rotation:
  assumes "xs \<noteq> []"
  shows "bind_r (rem_usize round (length xs)) (\<lambda>i. index_vec xs i) = Ok (xs ! (round mod length xs))"
  using assms by (simp add: rem_usize_def index_vec_def expect_def nth_opt_def)

lemma collect_ids_Ok: "collect_ids m is = Ok keys \<longleftrightarrow> map Some keys = map m is"
proof (induction "is" arbitrary: keys)
  case (Cons i "is")
  then show ?case by (cases keys) (auto simp: bind_r_Ok_iff)
qed auto

lemma id_map_member:
  assumes "id_map C i = Some pk"
  shows "\<exists>a. (pk, a) \<in> set (authorities C) \<and> a_id a = i"
  using map_of_SomeD [OF assms [unfolded id_map_def]] by auto

lemma simple_leader:
  fixes e :: simple_leader_elector
  assumes "(simple_new C :: ('e, _) res) = Ok e" "0 < committee_size C" "committee_size C < 2 ^ 32"
  shows "\<exists>pk a. simple_get_leader e round = (Ok pk :: ('e, _) res) \<and> (pk, a) \<in> set (authorities C) \<and> a_id a = round mod committee_size C"
proof -
  let ?n = "committee_size C"
  obtain ids where e: "e = \<lparr>se_node_ids = ids, se_n = ?n\<rparr>" and ids: "map Some ids = map (id_map C) [0..<?n]"
    using assms(1,3) by (auto simp: simple_new_def bind_r_Ok_iff collect_ids_Ok)
  have len: "length ids = ?n" using arg_cong [OF ids, of length] by simp
  have i: "round mod ?n < ?n" using assms(2) by simp
  have "id_map C (round mod ?n) = Some (ids ! (round mod ?n))"
    using arg_cong [OF ids, of "\<lambda>xs. xs ! (round mod ?n)"] i len by simp
  moreover have "simple_get_leader e round = (Ok (ids ! (round mod ?n)) :: ('e, _) res)"
    using assms(2) len by (simp add: e simple_get_leader_def rem_usize_def index_vec_def expect_def nth_opt_def)
  ultimately show ?thesis using id_map_member by blast
qed

text \<open>The failure schedules are rearrangements of the members.\<close>

lemma interleaved_mset:
  "mset (concat (map (\<lambda>i. xs ! i # f i) [0..<length xs])) = mset xs + mset (concat (map f [0..<length xs]))"
proof -
  have "mset (concat (map (\<lambda>i. xs ! i # f i) is)) = mset (map (\<lambda>i. xs ! i) is) + mset (concat (map f is))" for "is"
    by (induction "is") (simp_all add: ac_simps)
  from this [of "[0..<length xs]"] show ?thesis by (simp only: map_nth)
qed

lemma every_first:
  assumes "length ys \<le> m"
  shows "concat (map (\<lambda>i. if i < length ys then [ys ! i] else []) [0..<m]) = ys"
proof -
  have "[0..<m] = [0..<length ys] @ [length ys..<m]"
    using upt_add_eq_append [of 0 "length ys" "m - length ys"] assms by simp
  moreover have "concat (map (\<lambda>i. if i < length ys then [ys ! i] else []) [length ys..<m]) = []" by simp
  moreover have "concat (map (\<lambda>i. if i < length ys then [ys ! i] else []) [0..<k]) = take k ys" if "k \<le> length ys" for k
    using that by (induction k) (simp_all add: take_Suc_conv_app_nth)
  ultimately show ?thesis by simp
qed

lemma every_second:
  assumes "2 * length ys \<le> m"
  shows "concat (map (\<lambda>i. if i < length ys * 2 \<and> i mod 2 = 1 then [ys ! (i div 2)] else []) [0..<m]) = ys"
proof -
  let ?f = "\<lambda>i. if i < length ys * 2 \<and> i mod 2 = 1 then [ys ! (i div 2)] else []"
  have "[0..<m] = [0..<2 * length ys] @ [2 * length ys..<m]"
    using upt_add_eq_append [of 0 "2 * length ys" "m - 2 * length ys"] assms by simp
  moreover have "concat (map ?f [2 * length ys..<m]) = []" by simp
  moreover have "concat (map ?f [0..<2 * k]) = take k ys" if "k \<le> length ys" for k
    using that by (induction k) (simp_all add: take_Suc_conv_app_nth)
  ultimately show ?thesis by simp
qed

lemma honest_and_byzantine: "mset (get_honest_ids C) + mset (get_byzantine_ids C) = mset (get_public_keys C)"
proof -
  have "mset (map fst (filter (\<lambda>(_, a). is_honest a) xs)) + mset (map fst (filter (\<lambda>(_, a). \<not> is_honest a) xs)) = mset (map fst xs)"
    for xs :: "(public_key \<times> 'a authority) list"
    by (induction xs) auto
  then show ?thesis by (simp only: get_honest_ids_def get_byzantine_ids_def get_public_keys_def)
qed

lemma failure_schedule_members:
  assumes "failure_new C scenario = Ok schedule"
  shows "mset schedule = mset (get_public_keys C)"
proof (cases scenario)
  case BEST
  then show ?thesis using assms by (auto simp: failure_new_def generate_best_schedule_def honest_and_byzantine)
next
  case MID
  let ?b = "get_byzantine_ids C" and ?h = "get_honest_ids C"
  have "length ?b \<le> length ?h" "schedule = concat (map (\<lambda>i. ?h ! i # (if i < length ?b then [?b ! i] else [])) [0..<length ?h])"
    using assms MID by (auto simp: failure_new_def generate_mid_schedule_def Let_def if_distrib split: if_splits cong: if_cong)
  then show ?thesis by (simp only: interleaved_mset every_first honest_and_byzantine)
next
  case WORST
  let ?b = "get_byzantine_ids C" and ?h = "get_honest_ids C"
  have "2 * length ?b \<le> length ?h"
    "schedule = concat (map (\<lambda>i. ?h ! i # (if i < length ?b * 2 \<and> i mod 2 = 1 then [?b ! (i div 2)] else [])) [0..<length ?h])"
    using assms WORST by (auto simp: failure_new_def generate_worst_schedule_def Let_def if_distrib split: if_splits cong: if_cong)
  then show ?thesis by (simp only: interleaved_mset every_second honest_and_byzantine)
qed

end
