(* ===== verification/Leader_Wait.thy ===== *)
theory Leader_Wait
  imports Leader_Proofs
begin

text \<open>
  How long a member waits in the fair succession schedule (src/hydrangea/src/leader.rs,
  \<^verbatim>\<open>generate_schedule\<close>). A comment in the code's test says that nobody waits for more
  than \<open>3 n - 2\<close> rounds for sizes up to 200 and leaves open why, and whether it holds for all
  sizes. It does. The schedule is a rotor walk: the \<open>k\<close>-th time a member leads it is succeeded by
  the member \<open>k\<close> places on. The walk goes through phases; in phase \<open>p\<close> every member leads for
  the \<open>(p + 1)\<close>-st time. With \<open>g\<close> the greatest common divisor of \<open>p + 1\<close> and \<open>n\<close>, the members
  fall into \<open>g\<close> classes modulo \<open>g\<close>, each of which is run through in steps of \<open>p + 1\<close>; back at the
  member where the class was entered, one step of \<open>p + 2\<close> leads into the next class. These
  \<open>g\<close> extra steps are the first steps of the next phase. This gives the member of every round in
  closed form, and the bound follows from the size of the common divisors of neighbouring
  phases.
\<close>

section \<open>The rotor walk\<close>

primrec rotor :: "nat \<Rightarrow> nat \<Rightarrow> (nat \<Rightarrow> nat) \<times> nat" where
  "rotor n 0 = (\<lambda>_. 0, 0)"
| "rotor n (Suc t) = (case rotor n t of (c, x) \<Rightarrow> (c(x := Suc (c x)), (x + Suc (c x)) mod n))"

definition visits :: "nat \<Rightarrow> nat \<Rightarrow> nat \<Rightarrow> nat" where
  "visits n t = fst (rotor n t)"

definition leader_at :: "nat \<Rightarrow> nat \<Rightarrow> nat" where
  "leader_at n t = snd (rotor n t)"

lemma rotor_Suc:
  "visits n (Suc t) = (visits n t)(leader_at n t := Suc (visits n t (leader_at n t)))"
  "leader_at n (Suc t) = (leader_at n t + Suc (visits n t (leader_at n t))) mod n"
  by (simp_all add: visits_def leader_at_def split: prod.split)

lemma rotor_0: "visits n 0 v = 0" "leader_at n 0 = 0"
  by (simp_all add: visits_def leader_at_def)

text \<open>The successor taken at a position of a walk is the one numbered by the visits so far.\<close>

lemma nexts_nth:
  "Suc t < length s \<Longrightarrow> nexts (s ! t) s ! count_list (take t s) (s ! t) = s ! Suc t \<and>
   count_list (take t s) (s ! t) < length (nexts (s ! t) s)"
proof (induction s arbitrary: t)
  case (Cons l s)
  then have "s \<noteq> []" by auto
  show ?case
  proof (cases t)
    case 0
    with \<open>s \<noteq> []\<close> show ?thesis by (simp add: nexts_Cons hd_conv_nth)
  next
    case (Suc u)
    with Cons.IH [of u] Cons.prems \<open>s \<noteq> []\<close> show ?thesis by (auto simp: nexts_Cons)
  qed
qed simp

lemma walk_is_rotor:
  assumes "s \<noteq> []" "hd s = 0" "set s \<subseteq> {0..<n}" "\<forall>v < n. nexts v s = index_schedule n v" "t < length s"
  shows "s ! t = leader_at n t \<and> (\<forall>v < n. visits n t v = count_list (take t s) v)"
  using assms(5)
proof (induction t)
  case 0
  with assms(1,2) show ?case by (simp add: rotor_0 hd_conv_nth)
next
  case (Suc t)
  let ?v = "s ! t"
  let ?c = "count_list (take t s) ?v"
  have v: "?v < n" using assms(3) Suc.prems by (meson Suc_lessD atLeastLessThan_iff nth_mem subsetD)
  have "index_schedule n ?v ! ?c = s ! Suc t" "?c < length (index_schedule n ?v)"
    using nexts_nth [OF Suc.prems] assms(4) v by auto
  then have "s ! Suc t = (?v + Suc ?c) mod n" using v by (simp add: index_schedule_map)
  moreover have "take (Suc t) s = take t s @ [?v]" using Suc.prems by (simp add: take_Suc_conv_app_nth)
  ultimately show ?case using Suc v by (auto simp: rotor_Suc)
qed

lemma generate_schedule_rotor:
  assumes "1 \<le> n"
  shows "\<exists>s. (generate_schedule n :: ('e, _) res) = Ok s \<and> length s = n * (n - 1) \<and>
    (\<forall>t < length s. s ! t = leader_at n t)"
proof -
  obtain s where s: "(walk (map (index_schedule n) [0..<n]) 0 :: ('e, _) res) = Ok s" "s \<noteq> []" "hd s = 0" "last s = 0"
    "along_queues n s" "\<forall>v < n. nexts v s = index_schedule n v"
    using fair_walk [OF assms] by blast
  have "set s \<subseteq> {0..<n}" using s(5) by (simp add: along_queues_def)
  from walk_is_rotor [OF s(2,3) this s(6)] have "butlast s ! t = leader_at n t" if "t < length (butlast s)" for t
    using that by (simp add: nth_butlast)
  moreover have "length (butlast s) = n * (n - 1)" using edges_of_queues(2) [OF s(5,6)] by (simp add: edges_def)
  moreover have "(generate_schedule n :: ('e, _) res) = Ok (butlast s)"
    using s(1-4) assms by (simp add: generate_schedule_def)
  ultimately show ?thesis by blast
qed

section \<open>Classes and steps\<close>

definition classes :: "nat \<Rightarrow> nat \<Rightarrow> nat" where
  "classes n p = gcd (Suc p) n"

definition class_size :: "nat \<Rightarrow> nat \<Rightarrow> nat" where
  "class_size n p = n div classes n p"

definition node :: "nat \<Rightarrow> nat \<Rightarrow> nat \<Rightarrow> nat \<Rightarrow> nat" where
  "node n p j i = (j * (p + 2) + i * (p + 1)) mod n"

lemma classes_pos: "0 < n \<Longrightarrow> 0 < classes n p"
  by (simp add: classes_def)

lemma classes_dvd: "classes n p dvd n" "classes n p dvd Suc p"
  by (simp_all add: classes_def)

lemma classes_size: "classes n p * class_size n p = n"
  by (simp add: class_size_def classes_dvd)

lemma class_size_pos: "0 < n \<Longrightarrow> 0 < class_size n p"
  using classes_size [of n p] by (metis mult_is_0 neq0_conv)

lemma node_less: "0 < n \<Longrightarrow> node n p j i < n"
  by (simp add: node_def)

lemma node_mod: "node n p j i mod classes n p = j mod classes n p"
proof -
  have "node n p j i mod classes n p = (j + (j + i) * Suc p) mod classes n p"
    by (simp add: node_def mod_mod_cancel classes_dvd algebra_simps)
  also have "\<dots> = j mod classes n p"
    using classes_dvd(2) [of n p] by (metis dvd_imp_mod_0 dvd_mult mod_add_right_eq add_0_right)
  finally show ?thesis .
qed

lemma node_back: "node n p j (class_size n p) = node n p j 0"
proof -
  obtain q where q: "Suc p = classes n p * q" using classes_dvd(2) [of n p] unfolding dvd_def by blast
  have "class_size n p * (p + 1) = n * q"
    using q classes_size [of n p] by (metis Suc_eq_plus1 mult.assoc mult.commute)
  then show ?thesis by (simp add: node_def)
qed

lemma node_inj:
  assumes "0 < n" "node n p j i = node n p j i'" "i < class_size n p" "i' < class_size n p"
  shows "i = i'"
proof -
  have main: "i = i'" if "i \<le> i'" "node n p j i = node n p j i'" "i' < class_size n p" for i i'
  proof -
    obtain q where q: "Suc p = classes n p * q" using classes_dvd(2) [of n p] unfolding dvd_def by blast
    have "n dvd (i' - i) * Suc p"
    proof -
      have "i * Suc p \<le> i' * Suc p" using that(1) by (rule mult_le_mono1)
      then have "j * (p + 2) + i * Suc p \<le> j * (p + 2) + i' * Suc p" by simp
      moreover have "(j * (p + 2) + i' * Suc p) mod n = (j * (p + 2) + i * Suc p) mod n"
        using that(2) [symmetric] unfolding node_def Suc_eq_plus1 .
      ultimately have "n dvd j * (p + 2) + i' * Suc p - (j * (p + 2) + i * Suc p)"
        by (rule mod_eq_dvd_iff_nat [THEN iffD1])
      then show ?thesis by (simp only: add_diff_cancel_left diff_mult_distrib)
    qed
    then have "classes n p * class_size n p dvd classes n p * ((i' - i) * q)"
      by (simp add: classes_size q mult.left_commute)
    then have "class_size n p dvd (i' - i) * q" using classes_pos [OF assms(1), of p] by simp
    moreover have "coprime (class_size n p) q"
    proof -
      have "gcd (classes n p * q) (classes n p * class_size n p) = classes n p"
        unfolding q [symmetric] classes_size by (simp add: classes_def)
      then have "classes n p * gcd q (class_size n p) = classes n p" by (simp add: gcd_mult_distrib_nat)
      then have "gcd q (class_size n p) = 1" using classes_pos [OF assms(1), of p] by simp
      then show ?thesis by (simp add: coprime_iff_gcd_eq_1 gcd.commute)
    qed
    ultimately have "class_size n p dvd i' - i" by (simp add: coprime_dvd_mult_left_iff)
    with that show ?thesis using dvd_imp_le [of "class_size n p" "i' - i"] by (cases "i' - i = 0") auto
  qed
  from main [of i i'] main [of i' i] assms(2-4) show ?thesis by (cases "i \<le> i'") auto
qed

text \<open>A class is run through completely, each member once.\<close>

lemma class_run:
  assumes "0 < n" "j < classes n p"
  shows "node n p j ` {..<class_size n p} = {v. v < n \<and> v mod classes n p = j}"
proof (rule card_subset_eq)
  let ?C = "{v. v < n \<and> v mod classes n p = j}"
  show "finite ?C" by simp
  show "node n p j ` {..<class_size n p} \<subseteq> ?C"
    using assms by (auto simp: node_less node_mod)
  have "?C \<subseteq> (\<lambda>i. j + i * classes n p) ` {..<class_size n p}"
  proof
    fix v assume v: "v \<in> ?C"
    then have j: "v mod classes n p = j" by simp
    have "v = v mod classes n p + v div classes n p * classes n p"
      by (rule mod_div_mult_eq [symmetric])
    then have "v = j + v div classes n p * classes n p" unfolding j .
    moreover have "v div classes n p < class_size n p"
      using v classes_pos [OF assms(1), of p] classes_size [of n p]
      by (simp add: div_less_iff_less_mult mult.commute)
    ultimately show "v \<in> (\<lambda>i. j + i * classes n p) ` {..<class_size n p}" by blast
  qed
  then have "card ?C \<le> class_size n p"
    using surj_card_le [of "{..<class_size n p}" ?C] by simp
  moreover have "card (node n p j ` {..<class_size n p}) = class_size n p"
    using node_inj [OF assms(1)] by (subst card_image) (auto simp: inj_on_def)
  moreover have "card (node n p j ` {..<class_size n p}) \<le> card ?C"
    using assms by (intro card_mono) (auto simp: node_less node_mod)
  ultimately show "card (node n p j ` {..<class_size n p}) = card ?C" by simp
qed


section \<open>The member of every round\<close>

definition slot :: "nat \<Rightarrow> nat \<Rightarrow> nat \<Rightarrow> nat \<Rightarrow> nat" where
  "slot n p j i = p * n + j * (class_size n p + 1) + i"

text \<open>The steps of phase \<open>p\<close> that phase \<open>p - 1\<close> has taken between its classes.\<close>

primrec pre :: "nat \<Rightarrow> nat \<Rightarrow> nat" where
  "pre n 0 = 0"
| "pre n (Suc p) = classes n p"

definition turn :: "nat \<Rightarrow> nat \<Rightarrow> nat \<Rightarrow> nat \<Rightarrow> bool" where
  "turn n p j i \<longleftrightarrow> j < classes n p \<and> i \<le> class_size n p \<and> (j = 0 \<longrightarrow> pre n p \<le> i)"

definition had_turn :: "nat \<Rightarrow> nat \<Rightarrow> nat \<Rightarrow> nat \<Rightarrow> nat \<Rightarrow> bool" where
  "had_turn n p j i v \<longleftrightarrow> v mod classes n p < j \<or> v \<in> node n p j ` {..<i}"

definition was_entry :: "nat \<Rightarrow> nat \<Rightarrow> nat \<Rightarrow> nat \<Rightarrow> bool" where
  "was_entry n p j v \<longleftrightarrow> v \<in> (\<lambda>j. node n p j 0) ` {..<j}"

definition at_slot :: "nat \<Rightarrow> nat \<Rightarrow> nat \<Rightarrow> nat \<Rightarrow> bool" where
  "at_slot n p j i \<longleftrightarrow> leader_at n (slot n p j i) = node n p j i \<and>
     (\<forall>v < n. visits n (slot n p j i) v = p + of_bool (had_turn n p j i v) + of_bool (was_entry n p j v))"

lemma entry_not_of_class:
  assumes "j < classes n p"
  shows "\<not> was_entry n p j (node n p j i)"
proof
  assume "was_entry n p j (node n p j i)"
  then obtain j' where "j' < j" "node n p j i = node n p j' 0" by (auto simp: was_entry_def)
  then have "j mod classes n p = j' mod classes n p" by (metis node_mod)
  with \<open>j' < j\<close> assms show False by simp
qed

lemma at_slot_inside:
  assumes "0 < n" "j < classes n p" "i < class_size n p" "at_slot n p j i"
  shows "at_slot n p j (Suc i)"
proof -
  let ?x = "node n p j i"
  have fresh: "\<not> had_turn n p j i ?x"
    using node_inj [OF assms(1)] assms(2,3) by (fastforce simp: had_turn_def node_mod)
  have "visits n (slot n p j i) ?x = p"
    using assms(1,4) fresh entry_not_of_class [OF assms(2)] by (simp add: at_slot_def node_less)
  moreover have "slot n p j (Suc i) = Suc (slot n p j i)" by (simp add: slot_def)
  moreover have "(?x + Suc p) mod n = node n p j (Suc i)"
    by (simp only: node_def mod_add_left_eq) (simp add: algebra_simps)
  moreover have "had_turn n p j (Suc i) v \<longleftrightarrow> v = ?x \<or> had_turn n p j i v" for v
    by (auto simp: had_turn_def lessThan_Suc)
  ultimately show ?thesis
    using assms(4) fresh entry_not_of_class [OF assms(2)] by (auto simp: at_slot_def rotor_Suc)
qed

lemma at_slot_between:
  assumes "0 < n" "j < classes n p" "at_slot n p j (class_size n p)"
  shows "at_slot n p (Suc j) 0"
proof -
  let ?x = "node n p j 0" and ?m = "class_size n p"
  have run: "v \<in> node n p j ` {..<?m} \<longleftrightarrow> v mod classes n p = j" if "v < n" for v
    using class_run [OF assms(1,2)] that by auto
  have had: "had_turn n p j ?m ?x" using assms by (simp add: had_turn_def run node_less node_mod)
  have "visits n (slot n p j ?m) ?x = Suc p"
    using assms(1,3) had entry_not_of_class [OF assms(2)] by (simp add: at_slot_def node_less)
  moreover have "slot n p (Suc j) 0 = Suc (slot n p j ?m)" by (simp add: slot_def)
  moreover have "(?x + Suc (Suc p)) mod n = node n p (Suc j) 0"
    by (simp only: node_def mod_add_left_eq) (simp add: algebra_simps)
  moreover have "had_turn n p (Suc j) 0 v \<longleftrightarrow> had_turn n p j ?m v" if "v < n" for v
    using run [OF that] by (auto simp: had_turn_def)
  moreover have "was_entry n p (Suc j) v \<longleftrightarrow> v = ?x \<or> was_entry n p j v" for v
    by (auto simp: was_entry_def lessThan_Suc)
  ultimately show ?thesis
    using assms(3) had entry_not_of_class [OF assms(2)] by (auto simp: at_slot_def rotor_Suc node_back)
qed

lemma slot_next: "slot n p (classes n p) 0 = slot n (Suc p) 0 (classes n p)"
  using classes_size [of n p] by (simp add: slot_def algebra_simps)

lemma at_slot_next:
  assumes "0 < n" "at_slot n p (classes n p) 0"
  shows "at_slot n (Suc p) 0 (classes n p)"
proof -
  note slot_next [of n p]
  moreover have "node n (Suc p) 0 i = node n p i 0" for i by (simp add: node_def)
  moreover have "had_turn n p (classes n p) 0 v" for v
    using classes_pos [OF assms(1)] by (simp add: had_turn_def)
  ultimately show ?thesis using assms(2) by (simp add: at_slot_def had_turn_def was_entry_def)
qed

text \<open>Neighbouring common divisors are coprime, and those of phases two apart nearly so.\<close>

lemma classes_neighbours: "0 < n \<Longrightarrow> classes n p \<le> class_size n (Suc p)"
proof -
  assume n: "0 < n"
  have "coprime (classes n p) (classes n (Suc p))"
    using coprime_divisors [OF classes_dvd(2) classes_dvd(2), of p "Suc p" n n] by simp
  then have "classes n p * classes n (Suc p) dvd n" by (simp add: divides_mult classes_dvd)
  then have "classes n p dvd class_size n (Suc p)"
    using n by (simp add: class_size_def dvd_div_iff_mult classes_pos classes_dvd)
  then show ?thesis using class_size_pos [OF n] by (rule dvd_imp_le)
qed

lemma classes_two_apart: "0 < n \<Longrightarrow> classes n (Suc (Suc p)) \<le> 2 * class_size n p"
proof -
  assume n: "0 < n"
  let ?a = "classes n p" and ?b = "classes n (Suc (Suc p))"
  have "gcd ?a ?b dvd Suc (Suc (Suc p)) - Suc p"
    by (meson classes_dvd(2) dvd_diff_nat dvd_trans gcd_dvd1 gcd_dvd2)
  then have "gcd ?a ?b \<le> 2" by (simp add: dvd_imp_le)
  moreover have "lcm ?a ?b \<le> n" using n by (intro dvd_imp_le lcm_least classes_dvd)
  ultimately have "?a * ?b \<le> 2 * n" unfolding prod_gcd_lcm_nat [of ?a ?b] by (rule mult_le_mono)
  then have "?a * ?b \<le> ?a * (2 * class_size n p)" using classes_size [of n p] by (simp only: mult.left_commute)
  then show ?thesis using classes_pos [OF n, of p] by (metis mult_le_cancel1)
qed

lemma pre_le: "0 < n \<Longrightarrow> pre n p \<le> class_size n p"
  by (cases p) (simp_all add: classes_neighbours)

lemma at_slot_turn:
  assumes "0 < n"
  shows "turn n p j i \<Longrightarrow> at_slot n p j i"
proof -
  have run: "at_slot n p j (a + d)" if "j < classes n p" "a + d \<le> class_size n p" "at_slot n p j a" for p j a d
    using that by (induction d) (auto intro: at_slot_inside [OF assms])
  have cls: "at_slot n p j 0" if "0 < j" "j \<le> classes n p" "at_slot n p 0 (pre n p)" for p j
    using that(1,2)
  proof (induction j)
    case (Suc j)
    have "at_slot n p j (class_size n p)"
    proof (cases j)
      case 0
      then show ?thesis
        using run [of 0 p "pre n p" "class_size n p - pre n p"] pre_le [OF assms, of p] classes_pos [OF assms, of p] that(3)
        by simp
    next
      case (Suc k)
      then show ?thesis using Suc.IH Suc.prems run [of j p 0 "class_size n p"] by simp
    qed
    then show ?case using Suc.prems at_slot_between [OF assms] by simp
  qed simp
  have start: "at_slot n p 0 (pre n p)" for p
  proof (induction p)
    case 0
    show ?case by (simp add: at_slot_def slot_def node_def had_turn_def was_entry_def rotor_0)
  next
    case (Suc p)
    then show ?case using cls [of "classes n p" p] classes_pos [OF assms, of p] at_slot_next [OF assms, of p] by simp
  qed
  assume t: "turn n p j i"
  show "at_slot n p j i"
  proof (cases "j = 0")
    case True
    then show ?thesis using t run [of 0 p "pre n p" "i - pre n p"] start by (simp add: turn_def)
  next
    case False
    then show ?thesis using t run [of j p 0 i] cls start by (simp add: turn_def)
  qed
qed

lemma turn_leader: "\<lbrakk>0 < n; turn n p j i\<rbrakk> \<Longrightarrow> leader_at n (slot n p j i) = node n p j i"
  using at_slot_turn by (simp add: at_slot_def)

lemma every_round_a_turn:
  assumes "0 < n"
  shows "\<exists>p j i. turn n p j i \<and> t = slot n p j i"
proof (induction t)
  case 0
  have "turn n 0 0 0 \<and> 0 = slot n 0 0 0" using assms by (simp add: turn_def slot_def classes_pos)
  then show ?case by blast
next
  case (Suc t)
  then obtain p j i where t: "turn n p j i" "t = slot n p j i" by blast
  consider "i < class_size n p" | "i = class_size n p" "Suc j < classes n p"
    | "i = class_size n p" "Suc j = classes n p"
    using t(1) by (fastforce simp: turn_def)
  then show ?case
  proof cases
    case 1
    then have "turn n p j (Suc i) \<and> Suc t = slot n p j (Suc i)" using t by (auto simp: turn_def slot_def)
    then show ?thesis by blast
  next
    case 2
    then have "turn n p (Suc j) 0 \<and> Suc t = slot n p (Suc j) 0" using t by (simp add: turn_def slot_def)
    then show ?thesis by blast
  next
    case 3
    have "Suc t = slot n p (Suc j) 0" using 3(1) t(2) by (simp add: slot_def)
    also have "\<dots> = slot n (Suc p) 0 (classes n p)" unfolding 3(2) by (rule slot_next)
    finally have "turn n (Suc p) 0 (classes n p) \<and> Suc t = slot n (Suc p) 0 (classes n p)"
      using classes_neighbours [OF assms] classes_pos [OF assms] by (simp add: turn_def)
    then show ?thesis by blast
  qed
qed


text \<open>Every member has its place in every phase, and the last place of a phase is early enough.\<close>

lemma place_in_phase:
  assumes "0 < n" "v < n"
  shows "\<exists>i < class_size n p. v = node n p (v mod classes n p) i"
  using class_run [OF assms(1), of "v mod classes n p" p] assms classes_pos [OF assms(1), of p] by auto

lemma slot_last:
  assumes "j < classes n p" "i \<le> class_size n p"
  shows "p * n \<le> slot n p j i" "slot n p j i + 1 \<le> Suc p * n + classes n p + i - class_size n p"
proof -
  have "Suc j * (class_size n p + 1) \<le> classes n p * (class_size n p + 1)"
    using assms(1) by (intro mult_le_mono1) simp
  also have "\<dots> = n + classes n p" using classes_size [of n p] by (simp add: algebra_simps)
  finally show "slot n p j i + 1 \<le> Suc p * n + classes n p + i - class_size n p"
    using assms(2) by (simp add: slot_def)
qed (simp add: slot_def)

section \<open>The wait\<close>

lemma classes_less: "Suc p < n \<Longrightarrow> classes n p < n"
  by (metis classes_dvd(2) dvd_imp_le le_less_trans zero_less_Suc)

text \<open>
  A member met inside its class is met again in the next phase, or at the end of the class when
  it was its entry.
\<close>

lemma wait_inside:
  assumes "p + 2 < n" "turn n p j i" "i < class_size n p"
  shows "\<exists>u. slot n p j i < u \<and> u \<le> slot n p j i + (3 * n - 3) \<and> leader_at n u = node n p j i"
proof -
  have n: "0 < n" using assms(1) by simp
  have j: "j < classes n p" using assms(2) by (simp add: turn_def)
  let ?v = "node n p j i" and ?q = "Suc p"
  let ?j = "?v mod classes n ?q"
  obtain i' where i': "i' < class_size n ?q" "?v = node n ?q ?j i'"
    using place_in_phase [OF n node_less [OF n]] by blast
  have j': "?j < classes n ?q" using classes_pos [OF n] by simp
  show ?thesis
  proof (cases "?j = 0 \<and> i' < classes n p")
    case True
    then have "?v = node n p i' 0" using i'(2) by (simp add: node_def)
    moreover from this have "j = i'" using node_mod [of n p j i] node_mod [of n p i' 0] j True by simp
    ultimately have "leader_at n (slot n p j (class_size n p)) = ?v"
      using turn_leader [OF n, of p j "class_size n p"] assms(2) pre_le [OF n, of p] by (simp add: turn_def node_back)
    moreover have "class_size n p \<le> n" by (simp add: class_size_def)
    ultimately show ?thesis
      using assms(1,3) by (intro exI [of _ "slot n p j (class_size n p)"]) (auto simp: slot_def)
  next
    case False
    then have "turn n ?q ?j i'" using i'(1) j' by (auto simp: turn_def)
    then have "leader_at n (slot n ?q ?j i') = ?v" using turn_leader [OF n] i'(2) by metis
    moreover have "Suc p * n + classes n p \<le> slot n ?q ?j i'"
    proof (cases "?j = 0")
      case True
      with False show ?thesis by (simp add: slot_def)
    next
      case nz: False
      then have "1 * (class_size n ?q + 1) \<le> ?j * (class_size n ?q + 1)" by (intro mult_le_mono1) simp
      then show ?thesis using classes_neighbours [OF n, of p] by (simp add: slot_def)
    qed
    moreover note slot_last [of j n p i] slot_last [of ?j n ?q i'] classes_less [of ?q n]
    ultimately show ?thesis using assms i'(1) j j' by (intro exI [of _ "slot n ?q ?j i'"]) auto
  qed
qed

text \<open>
  The entry of a class, met again at the end of the class, has used up its place in the next
  phase; it is met in the phase after that, or at the end of a class of the next phase.
\<close>

lemma wait_entry:
  assumes "p + 2 < n" "turn n p j (class_size n p)"
  shows "\<exists>u. slot n p j (class_size n p) < u \<and> u \<le> slot n p j (class_size n p) + (3 * n - 3) \<and>
    leader_at n u = node n p j 0"
proof -
  have n: "0 < n" using assms(1) by simp
  have j: "j < classes n p" using assms(2) by (simp add: turn_def)
  let ?v = "node n p j 0" and ?q = "Suc p" and ?r = "Suc (Suc p)" and ?t = "slot n p j (class_size n p)"
  let ?j = "?v mod classes n ?r"
  obtain i' where i': "i' < class_size n ?r" "?v = node n ?r ?j i'"
    using place_in_phase [OF n node_less [OF n]] by blast
  have j': "?j < classes n ?r" using classes_pos [OF n] by simp
  have t: "?t + 1 \<le> Suc p * n + classes n p" using slot_last [OF j, of "class_size n p"] by simp
  show ?thesis
  proof (cases "?j = 0 \<and> i' < classes n ?q")
    case True
    then have v: "?v = node n ?q i' (class_size n ?q)" using i'(2) by (simp add: node_back) (simp add: node_def)
    let ?u = "slot n ?q i' (class_size n ?q)"
    have "leader_at n ?u = ?v"
      unfolding v using turn_leader [OF n, of ?q i' "class_size n ?q"] True classes_neighbours [OF n, of p]
      by (simp add: turn_def)
    moreover have "?t < ?u" using t classes_neighbours [OF n, of p] by (simp add: slot_def)
    moreover have "?u + 1 \<le> Suc ?q * n + classes n ?q" using slot_last [of i' n ?q "class_size n ?q"] True by simp
    moreover have "p * n + class_size n p \<le> ?t" by (simp add: slot_def)
    ultimately show ?thesis
      using assms(1) classes_less [of ?q n] class_size_pos [OF n, of p] by (intro exI [of _ ?u]) auto
  next
    case False
    let ?u = "slot n ?r ?j i'"
    have "turn n ?r ?j i'" using False i'(1) j' by (auto simp: turn_def)
    then have "leader_at n ?u = ?v" using turn_leader [OF n] i'(2) by metis
    moreover have "?t < ?u"
    proof -
      have "classes n p \<le> n" using n by (intro dvd_imp_le classes_dvd)
      then show ?thesis using t slot_last(1) [OF j', of i'] i'(1) by simp
    qed
    moreover have "0 < j"
    proof (rule ccontr)
      assume "\<not> 0 < j"
      then have "?v = node n ?r 0 0" by (simp add: node_def)
      moreover from this have "?j = 0" using node_mod [of n ?r 0 0] by simp
      ultimately have "i' = 0" using node_inj [OF n, of ?r 0 0 i'] i' class_size_pos [OF n] by simp
      with False \<open>?j = 0\<close> show False using classes_pos [OF n] by simp
    qed
    then have "1 * (class_size n p + 1) \<le> j * (class_size n p + 1)" by (intro mult_le_mono1) simp
    then have "p * n + 2 * class_size n p + 1 \<le> ?t" by (simp add: slot_def)
    moreover note slot_last(2) [OF j', of i'] classes_two_apart [OF n, of p]
    ultimately show ?thesis using i'(1) assms(1) by (intro exI [of _ ?u]) auto
  qed
qed

lemma rotor_wait:
  assumes "0 < n" "t + (3 * n - 2) \<le> n * (n - 1)"
  shows "\<exists>u. t < u \<and> u < t + (3 * n - 2) \<and> leader_at n u = leader_at n t"
proof -
  obtain p j i where t: "turn n p j i" "t = slot n p j i" using every_round_a_turn [OF assms(1)] by blast
  have "p + 2 < n"
  proof (rule ccontr)
    assume "\<not> p + 2 < n"
    then have "(n - 2) * n \<le> p * n" by (intro mult_le_mono1) simp
    moreover have "p * n \<le> t" using t by (simp add: slot_def)
    ultimately have "(n - 2) * n + (3 * n - 2) \<le> n * (n - 1)" using assms(2) by linarith
    then show False using assms(1) by (cases n; cases "n - 1") (auto simp: algebra_simps)
  qed
  then have "\<exists>u. t < u \<and> u \<le> t + (3 * n - 3) \<and> leader_at n u = node n p j i"
    using t wait_inside wait_entry node_back by (cases "i < class_size n p") (auto simp: turn_def)
  moreover have "leader_at n t = node n p j i" using t turn_leader [OF assms(1)] by simp
  ultimately obtain u where "t < u" "u \<le> t + (3 * n - 3)" "leader_at n u = leader_at n t" by auto
  with \<open>p + 2 < n\<close> show ?thesis by (intro exI [of _ u]) auto
qed

text \<open>In the schedule itself: the window of \<open>3 n - 2\<close> rounds has its first leader again.\<close>

lemma count_list_again:
  assumes "a < b" "b < length xs" "xs ! a = xs ! b"
  shows "2 \<le> count_list xs (xs ! a)"
proof -
  have "1 \<le> count_list (take b xs) (xs ! a)"
    using assms nth_mem [of a "take b xs"] by (simp add: Suc_le_eq count_list_0_iff neq0_conv [symmetric] del: neq0_conv)
  moreover have "1 \<le> count_list (drop b xs) (xs ! a)"
    using assms by (simp add: Cons_nth_drop_Suc [symmetric])
  ultimately have "2 \<le> count_list (take b xs @ drop b xs) (xs ! a)" unfolding count_list_append by linarith
  then show ?thesis by simp
qed

lemma generate_schedule_wait:
  assumes "(generate_schedule n :: ('e, _) res) = Ok s" "0 < n" "t + (3 * n - 2) \<le> length s"
  shows "2 \<le> count_list (take (3 * n - 2) (drop t s)) (s ! t)"
proof -
  let ?w = "take (3 * n - 2) (drop t s)"
  have s: "length s = n * (n - 1)" "\<forall>t < length s. s ! t = leader_at n t"
    using generate_schedule_rotor [where ?'e = 'e, of n] assms(1,2) by (auto simp: Suc_le_eq)
  obtain u where u: "t < u" "u < t + (3 * n - 2)" "leader_at n u = leader_at n t"
    using rotor_wait [OF assms(2)] assms(3) s(1) by auto
  have "?w ! (u - t) = ?w ! 0" "?w ! 0 = s ! t" using u s(2) assms(3) by simp_all
  then show ?thesis using count_list_again [of 0 "u - t" ?w] u assms(3) by simp
qed

text \<open>The code's own fairness test passes for every size, not only for the sizes it is run on.\<close>

lemma fairness_test_passes:
  assumes "1 \<le> n"
  shows "test_generate_schedule_fairness n = (Ok () :: ('e, unit) res)"
proof -
  obtain s where s: "(generate_schedule n :: ('e, _) res) = Ok s" "length s = n * (n - 1)" "\<forall>i < n. count_list s i = n - 1"
    using generate_schedule_walk [OF assms, where ?'e = 'e] by auto
  have "2 \<le> count_list (take (3 * n - 2) (drop t s)) (hd (take (3 * n - 2) (drop t s)))"
    if "t + 3 * n - 2 \<le> length s" for t
  proof -
    have "t + (3 * n - 2) \<le> length s" "0 < 3 * n - 2" using that assms by simp_all
    then have "hd (take (3 * n - 2) (drop t s)) = s ! t" by (simp add: hd_drop_conv_nth)
    then show ?thesis using generate_schedule_wait [OF s(1)] \<open>t + (3 * n - 2) \<le> length s\<close> assms by simp
  qed
  then show ?thesis using assms s unfolding test_generate_schedule_fairness_def
    by (auto simp: bind_r_def dest!: set_takeWhileD)
qed

end
