(* ===== verification/Leader_Properties.thy ===== *)
theory Leader_Properties
  imports Leader_Wait Instance
begin

text \<open>
  Properties of leader election: the fair succession is fair, the failure schedules rotate
  through the members, and every round has a leader in the committee.
\<close>

text \<open>
  C37. The fair succession schedule does what its comment promises, for every committee size:
  it has \<open>n (n - 1)\<close> rounds, every member leads \<open>n - 1\<close> of them, and, the schedule being
  repeated, every ordered pair of distinct members is a leader and its successor exactly once.
  Moreover the leader of a round leads again within a window of \<open>3 n - 2\<close> rounds that starts with
  this round and lies in the schedule: the bound that the code tests for sizes below 200 and
  leaves open for the others.
\<close>

theorem fair_schedule_is_fair:
  assumes "0 < n"
  shows "\<exists>s. (generate_schedule n :: ('e, _) res) = Ok s \<and> length s = n * (n - 1) \<and>
    (\<forall>i < n. count_list s i = n - 1) \<and> distinct (zip s (rotate1 s)) \<and>
    set (zip s (rotate1 s)) = {(i, j). i < n \<and> j < n \<and> i \<noteq> j} \<and>
    (\<forall>t. t + (3 * n - 2) \<le> length s \<longrightarrow> 2 \<le> count_list (take (3 * n - 2) (drop t s)) (s ! t))"
  using generate_schedule_walk [where ?'e = 'e, of n] generate_schedule_wait [where ?'e = 'e, of n] assms
  by (auto simp: Suc_le_eq)

theorem fair_schedule_is_fair_witness:
  "(generate_schedule 4 :: (unit, _) res) = Ok [0, 1, 2, 3, 0, 2, 0, 3, 1, 3, 2, 1] \<and>
   count_list [0, 1, 2, 3, 0, 2, 0, 3, 1, 3, 2, 1 :: nat] 2 = 3 \<and>
   2 \<le> count_list (take 10 (drop 2 [0, 1, 2, 3, 0, 2, 0, 3, 1, 3, 2, 1 :: nat])) 2"
proof -
  have schedule: "(generate_schedule 4 :: (unit, _) res) = Ok [0, 1, 2, 3, 0, 2, 0, 3, 1, 3, 2, 1]" by code_simp
  obtain s where s: "(generate_schedule 4 :: (unit, _) res) = Ok s" "\<forall>i < 4. count_list s i = 3"
      "\<forall>t. t + 10 \<le> length s \<longrightarrow> 2 \<le> count_list (take 10 (drop t s)) (s ! t)"
    using fair_schedule_is_fair [where ?'e = unit, of 4] by auto
  with schedule have run: "s = [0, 1, 2, 3, 0, 2, 0, 3, 1, 3, 2, 1]" by simp
  have "count_list s 2 = 3" "2 \<le> count_list (take 10 (drop 2 s)) (s ! 2)"
    using s(2) s(3) [rule_format, of 2] by (simp_all add: run)
  then show ?thesis unfolding run using schedule by simp
qed

text \<open>
  In each of the three failure simulations every member, honest or not, leads exactly one
  round of every cycle of as many rounds as there are members.
\<close>

lemma failure_schedules_rotate:
  assumes "(failure_new C scenario :: ('e, _) res) = Ok schedule"
  shows "mset (map (failure_get_leader schedule) [k * committee_size C..<Suc k * committee_size C]) =
    (mset (map Ok (get_public_keys C)) :: ('f, public_key) res multiset)"
proof -
  have perm: "mset schedule = mset (get_public_keys C)" by (rule failure_schedule_members [OF assms])
  let ?n = "committee_size C"
  have n: "?n = length schedule" using mset_eq_length [OF perm] by (simp add: committee_size_def get_public_keys_def)
  have "map (failure_get_leader schedule) [k * ?n..<Suc k * ?n] = (map Ok schedule :: ('f, public_key) res list)"
    by (rule nth_equalityI)
      (auto simp: n failure_get_leader_def rem_usize_def index_vec_def expect_def nth_opt_def)
  then show ?thesis using perm by (metis mset_map)
qed




text \<open>
  With a single member the fair succession is empty, and asking it for a leader divides by zero.
\<close>

lemma fair_single_member_panics:
  assumes "committee_size C = 1" "(fair_new C :: ('e, _) res) = Ok e"
  shows "fair_get_leader e round = Panic ''attempt to calculate the remainder with a divisor of zero''"
proof -
  obtain s where "(generate_schedule 1 :: ('e, _) res) = Ok s" "s = []"
    using generate_schedule_walk [where ?'e = 'e, of 1] by auto
  then show ?thesis using assms by (auto simp: fair_new_def fair_get_leader_def rem_usize_def)
qed

section \<open>Instances\<close>


end
