(* ===== verification/Primary_Core.thy ===== *)
theory Primary_Core
  imports Primary_Messages Store Tasks
begin

text \<open>
  The mempool side of a node: the votes aggregator (src/primary/src/aggregators.rs) and the
  core task of the primary (src/primary/src/core.rs), which stores and votes on headers,
  assembles certificates for its own headers and hands certificates to the consensus. The
  task's methods are handlers over the record \<open>pcore\<close>; messages, channel sends and jobs
  for the thread pool are appended to \<open>pc_trace\<close>.
\<close>

section \<open>Votes aggregator\<close>

record ('pk, 's) votes_aggregator =
  va_weight :: stake
  va_votes :: "('pk \<times> 's) list"
  va_used :: "public_key set"
  va_agg_sign :: 's
  va_pk_bit_vec :: u128
  va_is_qc_sent :: bool

definition votes_aggregator_new :: "('pk, 's) runtime \<Rightarrow> ('pk, 's) votes_aggregator" where
  "votes_aggregator_new E = \<lparr>va_weight = 0, va_votes = [], va_used = {}, va_agg_sign = bls_default E,
     va_pk_bit_vec = 0, va_is_qc_sent = False\<rparr>"

text \<open>Adding the signature and setting the bit of the voter; the shift is taken modulo 128.\<close>

definition va_count ::
  "'pk::linorder committee \<Rightarrow> 's::ab_group_add pvote \<Rightarrow> 'pk \<Rightarrow>
   (('pk, 's) votes_aggregator, dag_error, unit) handler" where
  "va_count C vote key =
     then_m (modify_m (\<lambda>a. a\<lparr>va_agg_sign :=
         (if length (va_votes a) = 1 then pv_signature vote
          else if 2 \<le> length (va_votes a) then aggregate_sign (va_agg_sign a) (pv_signature vote)
          else va_agg_sign a)\<rparr>)) (
     bind_m (gets_m (\<lambda>a. 1 \<le> length (va_votes a))) (\<lambda>some.
     when_m some (
       bind_m (lift_m (expect ''called Result::unwrap() on an Err value''
           (binary_search (sorted_keys C) key))) (\<lambda>i.
       modify_m (\<lambda>a. a\<lparr>va_pk_bit_vec := va_pk_bit_vec a OR push_bit (i mod 128) 1\<rparr>)))))"

definition va_append ::
  "('pk::linorder, 's::ab_group_add) runtime \<Rightarrow> ('tx \<Rightarrow> u8 list) \<Rightarrow> 's pvote \<Rightarrow> 'pk committee \<Rightarrow> 'tx header \<Rightarrow>
   (('pk, 's) votes_aggregator, dag_error, 's certificate option) handler" where
  "va_append E bcs vote C header =
     bind_m (lift_m (get_bls_public_g2 C (pv_author vote))) (\<lambda>author_bls_g2.
     bind_m (gets_m (\<lambda>a. pv_author vote \<notin> va_used a)) (\<lambda>fresh.
     then_m (lift_m (ensure fresh (DagAuthorityReuse (pv_author vote)))) (
     then_m (modify_m (\<lambda>a. a\<lparr>va_used := insert (pv_author vote) (va_used a),
         va_votes := va_votes a @ [(author_bls_g2, pv_signature vote)],
         va_weight := add32 (va_weight a) (stake_of C (pv_author vote))\<rparr>)) (
     bind_m (gets_m va_is_qc_sent) (\<lambda>sent.
     if \<not> sent then
       then_m (lift_m (pvote_verify C vote)) (
       then_m (va_count C vote author_bls_g2) (
       bind_m (gets_m va_weight) (\<lambda>weight.
       if validity_threshold C \<le> weight then
         then_m (modify_m (\<lambda>a. a\<lparr>va_weight := 0, va_is_qc_sent := True\<rparr>))
           (gets_m (\<lambda>a. Some \<lparr>cert_id = header_digest E bcs header, cert_round = h_round header,
              cert_origin = h_author header, cert_votes = (va_pk_bit_vec a, va_agg_sign a)\<rparr>))
       else ret None)))
     else ret None)))))"

section \<open>State of the core\<close>

datatype ('s, 'tx) primary_message =
  PmHeader "'tx header"
| PmVote "'s pvote"
| PmCertificate "'s certificate"
| PmVerifiedCertificate "'s certificate"
| PmCertificatesRequest "digest list" public_key

datatype ('s, 'tx) pcore_effect =
  PBroadcast "socket_addr list" "('s, 'tx) primary_message"
| PSend socket_addr "('s, 'tx) primary_message"
| PToConsensus "'s certificate"
| PVerifyJob "'s certificate"
| PStored key val
| PStoreAnswer nat store_reply

record ('pk, 's, 'tx, 'db) pcore =
  pc_name :: public_key
  pc_committee :: "'pk committee"
  pc_store :: "'db store"
  pc_consensus_round :: u64
  pc_gc_depth :: u64
  pc_gc_round :: u64
  pc_last_voted :: "u64 \<rightharpoonup> public_key set"
  pc_cancel_handlers :: "u64 \<rightharpoonup> (socket_addr \<times> ('s, 'tx) primary_message) list"
  processing_headers :: "digest \<rightharpoonup> 'tx header"
  processing_vote_aggregators :: "digest \<rightharpoonup> ('pk, 's) votes_aggregator"
  pc_trace :: "('s, 'tx) pcore_effect list"

text \<open>The environment: cryptography, database and the encodings of the stored values.\<close>

record ('pk, 's, 'tx, 'db) primary_env =
  pe_runtime :: "('pk, 's) runtime"
  pe_rocksdb :: "'db rocksdb"
  pe_bcs :: "'tx \<Rightarrow> u8 list"
  pe_ser_header :: "'tx header \<Rightarrow> val"
  pe_ser_certificate :: "'s certificate \<Rightarrow> val"

type_synonym ('pk, 's, 'tx, 'db, 'a) pcore_handler = "(('pk, 's, 'tx, 'db) pcore, dag_error, 'a) handler"

definition pcore_new :: "public_key \<Rightarrow> 'pk committee \<Rightarrow> 'db store \<Rightarrow> u64 \<Rightarrow> ('pk, 's, 'tx, 'db) pcore" where
  "pcore_new name C st gc_depth = \<lparr>pc_name = name, pc_committee = C, pc_store = st,
     pc_consensus_round = 0, pc_gc_depth = gc_depth, pc_gc_round = 0, pc_last_voted = Map.empty,
     pc_cancel_handlers = Map.empty, processing_headers = Map.empty,
     processing_vote_aggregators = Map.empty, pc_trace = []\<rparr>"

definition pc_emit :: "('s, 'tx) pcore_effect \<Rightarrow> ('pk, 's, 'tx, 'db, unit) pcore_handler" where
  "pc_emit e = modify_m (\<lambda>s. s\<lparr>pc_trace := pc_trace s @ [e]\<rparr>)"

text \<open>\<^verbatim>\<open>store.write\<close>; the write, and the waiters it wakes, are also recorded in the trace.\<close>

definition pc_write :: "('pk, 's, 'tx, 'db) primary_env \<Rightarrow> key \<Rightarrow> val \<Rightarrow> ('pk, 's, 'tx, 'db, unit) pcore_handler" where
  "pc_write env k v = modify_m (\<lambda>s.
     let (replies, st) = store_write (pe_rocksdb env) k v (pc_store s)
     in s\<lparr>pc_store := st,
          pc_trace := pc_trace s @ [PStored k v] @ map (\<lambda>(ch, r). PStoreAnswer ch r) replies\<rparr>)"

text \<open>\<^verbatim>\<open>cancel_handlers.entry(round).or_insert_with(Vec::new).extend(handlers)\<close>.\<close>

definition keep_handlers ::
  "u64 \<Rightarrow> (socket_addr \<times> ('s, 'tx) primary_message) list \<Rightarrow> ('pk, 's, 'tx, 'db, unit) pcore_handler" where
  "keep_handlers round handlers = modify_m (\<lambda>s. s\<lparr>pc_cancel_handlers := (pc_cancel_handlers s)
     (round \<mapsto> (case pc_cancel_handlers s round of None \<Rightarrow> [] | Some hs \<Rightarrow> hs) @ handlers)\<rparr>)"

text \<open>The reliable broadcast to the other primaries, whose cancel handlers are kept under the round.\<close>

definition broadcast_primaries ::
  "u64 \<Rightarrow> ('s, 'tx) primary_message \<Rightarrow> ('pk, 's, 'tx, 'db, unit) pcore_handler" where
  "broadcast_primaries round m =
     bind_m (gets_m (\<lambda>s. map (\<lambda>(_, x). primary_to_primary x) (others_primaries (pc_committee s) (pc_name s))))
       (\<lambda>addresses.
     then_m (pc_emit (PBroadcast addresses m)) (keep_handlers round (map (\<lambda>a. (a, m)) addresses)))"

section \<open>Processing\<close>

definition process_certificate ::
  "('pk, 's, 'tx, 'db) primary_env \<Rightarrow> 's certificate \<Rightarrow> ('pk, 's, 'tx, 'db, unit) pcore_handler" where
  "process_certificate env certificate =
     then_m (pc_write env (to_vec (certificate_digest (pe_runtime env) certificate)) (pe_ser_certificate env certificate))
       (pc_emit (PToConsensus certificate))"

text \<open>\<^verbatim>\<open>m.await.expect(msg)\<close>.\<close>

definition expect_m :: "string \<Rightarrow> ('st, 'e, 'a) handler \<Rightarrow> ('st, 'e, 'a) handler" where
  "expect_m msg m = (\<lambda>s. case m s of (Err _, s') \<Rightarrow> (Panic msg, s') | r \<Rightarrow> r)"

text \<open>Running a method of the aggregator that the map holds for \<open>d\<close>.\<close>

definition on_votes_aggregator ::
  "digest \<Rightarrow> ('pk, 's) votes_aggregator \<Rightarrow> (('pk, 's) votes_aggregator, dag_error, 'a) handler \<Rightarrow>
   ('pk, 's, 'tx, 'db, 'a) pcore_handler" where
  "on_votes_aggregator d a m = (\<lambda>s. case m a of (r, a') \<Rightarrow>
     (r, s\<lparr>processing_vote_aggregators := (processing_vote_aggregators s)(d \<mapsto> a')\<rparr>))"

definition process_vote ::
  "('pk::linorder, 's::ab_group_add, 'tx, 'db) primary_env \<Rightarrow> 's pvote \<Rightarrow> ('pk, 's, 'tx, 'db, unit) pcore_handler" where
  "process_vote env vote =
     bind_m (gets_m id) (\<lambda>s.
     case (processing_headers s (pv_id vote), processing_vote_aggregators s (pv_id vote)) of
       (Some header, Some vote_aggregator) \<Rightarrow>
         bind_m (on_votes_aggregator (pv_id vote) vote_aggregator
             (va_append (pe_runtime env) (pe_bcs env) vote (pc_committee s) header)) (\<lambda>maybe_certificate.
         case maybe_certificate of
           None \<Rightarrow> ret ()
         | Some certificate \<Rightarrow>
             then_m (broadcast_primaries (cert_round certificate) (PmCertificate certificate)) (
             then_m (modify_m (\<lambda>s. s\<lparr>processing_headers := (processing_headers s)(pv_id vote := None),
                 processing_vote_aggregators := (processing_vote_aggregators s)(pv_id vote := None)\<rparr>))
             (expect_m ''Failed to process valid certificate'' (process_certificate env certificate))))
     | _ \<Rightarrow> ret ())"

definition process_header ::
  "('pk::linorder, 's::ab_group_add, 'tx, 'db) primary_env \<Rightarrow> 'tx header \<Rightarrow> ('pk, 's, 'tx, 'db, unit) pcore_handler" where
  "process_header env header =
     then_m (pc_write env (to_vec (h_id header)) (pe_ser_header env header)) (
     bind_m (gets_m id) (\<lambda>s.
     let vote = pvote_new (pe_runtime env) header (pc_name s) in
     if pv_origin vote = pc_name s
     then expect_m ''Failed to process our own vote'' (process_vote env vote)
     else case committee_primary (pc_committee s) (h_author header) of
       Ok x \<Rightarrow>
         then_m (pc_emit (PSend (primary_to_primary x) (PmVote vote)))
           (keep_handlers (h_round header) [(primary_to_primary x, PmVote vote)])
     | _ \<Rightarrow> panic ''Author of valid header is not in the committee''))"

definition process_own_header ::
  "('pk::linorder, 's::ab_group_add, 'tx, 'db) primary_env \<Rightarrow> 'tx header \<Rightarrow> ('pk, 's, 'tx, 'db, unit) pcore_handler" where
  "process_own_header env header =
     then_m (modify_m (\<lambda>s. s\<lparr>
         processing_headers := (if processing_headers s (h_id header) = None
           then (processing_headers s)(h_id header \<mapsto> header) else processing_headers s),
         processing_vote_aggregators := (if processing_vote_aggregators s (h_id header) = None
           then (processing_vote_aggregators s)(h_id header \<mapsto> votes_aggregator_new (pe_runtime env))
           else processing_vote_aggregators s)\<rparr>)) (
     then_m (broadcast_primaries (h_round header) (PmHeader header))
       (process_header env header))"

section \<open>Sanity checks\<close>

definition sanitize_header ::
  "('pk, 's, 'tx, 'db) primary_env \<Rightarrow> 'tx header \<Rightarrow> ('pk, 's, 'tx, 'db, unit) pcore_handler" where
  "sanitize_header env header =
     bind_m (gets_m id) (\<lambda>s.
     then_m (lift_m (ensure (pc_gc_round s \<le> h_round header) (HeaderTooOld (h_id header) (h_round header))))
       (lift_m (header_verify (pe_runtime env) (pe_bcs env) (pc_committee s) header)))"

definition sanitize_vote :: "'s pvote \<Rightarrow> ('pk, 's, 'tx, 'db, unit) pcore_handler" where
  "sanitize_vote vote =
     bind_m (gets_m (\<lambda>s. processing_headers s (pv_id vote))) (\<lambda>found.
     case found of
       Some header \<Rightarrow>
         lift_m (ensure (pv_id vote = h_id header \<and> pv_origin vote = h_author header \<and> pv_round vote = h_round header)
           (UnexpectedVote (pv_id vote)))
     | None \<Rightarrow> ret ())"

text \<open>
  The job that is put on the thread pool: it verifies the certificate, drops the result and
  sends the certificate back to the core; a panic in the verification ends the job.
\<close>

definition verify_job ::
  "('pk::ab_group_add, 's) runtime \<Rightarrow> 'pk committee \<Rightarrow> 's certificate \<Rightarrow> ('s, 'tx) primary_message list" where
  "verify_job E C certificate =
     (case certificate_verify E C certificate of
        Panic _ \<Rightarrow> []
      | Diverge \<Rightarrow> []
      | _ \<Rightarrow> [PmVerifiedCertificate certificate])"

definition psanitize_certificate ::
  "('pk, 's, 'tx, 'db) primary_env \<Rightarrow> 's certificate \<Rightarrow> ('pk, 's, 'tx, 'db, unit) pcore_handler" where
  "psanitize_certificate env certificate =
     bind_m (gets_m pc_gc_round) (\<lambda>gc_round.
     then_m (lift_m (ensure (gc_round \<le> cert_round certificate)
         (CertificateTooOld (certificate_digest (pe_runtime env) certificate) (cert_round certificate))))
       (pc_emit (PVerifyJob certificate)))"

section \<open>The event loop\<close>

text \<open>The branches of \<^verbatim>\<open>select!\<close>; \<open>CommitSeen\<close> is the garbage collector writing the shared round.\<close>

datatype ('s, 'tx) pcore_event =
  RxPrimaries "('s, 'tx) primary_message"
| RxHeaderWaiter "'tx header"
| RxCertificateWaiter "'s certificate"
| RxHeader "'tx header"
| CommitSeen u64

definition pcore_dispatch ::
  "('pk::linorder, 's::ab_group_add, 'tx, 'db) primary_env \<Rightarrow> ('s, 'tx) primary_message \<Rightarrow>
   ('pk, 's, 'tx, 'db, unit) pcore_handler" where
  "pcore_dispatch env message =
     (case message of
        PmHeader header \<Rightarrow> then_m (sanitize_header env header) (process_header env header)
      | PmVote vote \<Rightarrow> then_m (sanitize_vote vote) (process_vote env vote)
      | PmCertificate certificate \<Rightarrow> psanitize_certificate env certificate
      | PmVerifiedCertificate certificate \<Rightarrow> process_certificate env certificate
      | PmCertificatesRequest _ _ \<Rightarrow> panic ''Unexpected core message'')"

definition pcore_select ::
  "('pk::linorder, 's::ab_group_add, 'tx, 'db) primary_env \<Rightarrow> ('s, 'tx) pcore_event \<Rightarrow>
   ('pk, 's, 'tx, 'db, unit) pcore_handler" where
  "pcore_select env ev =
     (case ev of
        RxPrimaries message \<Rightarrow> pcore_dispatch env message
      | RxHeaderWaiter header \<Rightarrow> process_header env header
      | RxCertificateWaiter certificate \<Rightarrow> process_certificate env certificate
      | RxHeader header \<Rightarrow> process_own_header env header
      | CommitSeen round \<Rightarrow> modify_m (\<lambda>s. s\<lparr>pc_consensus_round := round\<rparr>))"

definition pcore_cleanup :: "('pk, 's, 'tx, 'db) pcore \<Rightarrow> ('pk, 's, 'tx, 'db) pcore" where
  "pcore_cleanup s =
     (if pc_consensus_round s > pc_gc_depth s then
        let gc_round = sub64 (pc_consensus_round s) (pc_gc_depth s) in
        s\<lparr>pc_last_voted := retain (\<lambda>k _. k \<ge> gc_round) (pc_last_voted s),
          pc_cancel_handlers := retain (\<lambda>k _. k \<ge> gc_round) (pc_cancel_handlers s),
          pc_gc_round := gc_round\<rparr>
      else s)"

text \<open>
  An error is logged, a storage error kills the node, and the cleanup follows; a write of the
  shared round is not a turn of the loop, it is seen by the next cleanup.
\<close>

definition pcore_after :: "('s, 'tx) pcore_event \<Rightarrow> ('pk, 's, 'tx, 'db) pcore \<Rightarrow> ('pk, 's, 'tx, 'db) pcore" where
  "pcore_after ev s = (case ev of CommitSeen _ \<Rightarrow> s | _ \<Rightarrow> pcore_cleanup s)"

definition pcore_turn ::
  "('pk::linorder, 's::ab_group_add, 'tx, 'db) primary_env \<Rightarrow> ('s, 'tx) pcore_event \<Rightarrow>
   ('pk, 's, 'tx, 'db, unit) pcore_handler" where
  "pcore_turn env ev = (\<lambda>s.
     case pcore_select env ev s of
       (Ok _, s') \<Rightarrow> (Ok (), pcore_after ev s')
     | (Err DagStoreError, s') \<Rightarrow> (Panic ''Storage failure: killing node.'', s')
     | (Err _, s') \<Rightarrow> (Ok (), pcore_after ev s')
     | (Panic msg, s') \<Rightarrow> (Panic msg, s')
     | (Diverge, s') \<Rightarrow> (Diverge, s'))"

fun pcore_run ::
  "('pk::linorder, 's::ab_group_add, 'tx, 'db) primary_env \<Rightarrow> ('s, 'tx) pcore_event list \<Rightarrow>
   ('pk, 's, 'tx, 'db) pcore \<Rightarrow> ('pk, 's, 'tx, 'db) pcore" where
  "pcore_run env [] s = s"
| "pcore_run env (ev # evs) s =
     (case pcore_turn env ev s of
        (Ok _, s') \<Rightarrow> pcore_run env evs s'
      | (_, s') \<Rightarrow> s')"

end
