(* ===== verification/Component_Properties.thy ===== *)
theory Component_Properties
  imports Aggregator_Proofs Proposer Synchronizer Committer Primary_Core Instance "HOL-Library.Sublist"
begin

text \<open>
  Properties of single components of the consensus and of pairs of them: thresholds, the
  aggregators, the BLS key shortcut, the store, the proposer, the synchronizer, and headers on
  their way from the mempool to the committer.
\<close>

section \<open>Thresholds\<close>

text \<open>
  C22. The thresholds of a committee of \<open>n = 3f + 2c + k + 1\<close> members are those of the
  protocol, without overflow: two quorums, and a slow commit and a view change, share more than
  \<open>f\<close> stake; a fast commit and a view change share at least \<open>f + 1\<close> beyond the \<open>f\<close> that
  may lie; and the members left after \<open>f\<close> Byzantine and \<open>c\<close> crashed ones can still form
  quorums and view changes.
\<close>

theorem thresholds_intersect:
  assumes "committee_new auths n f c k = Ok C" "resilient n f c k"
  shows "quorum_threshold C = 2 * f + c + 1 + (k + 1) div 2 \<and> slow_commit_threshold C = 2 * f + c + 1 \<and>
    fast_commit_quorum_threshold C = n - (c + k) div 2 \<and> view_change_threshold C = 2 * f + c + k + 1 \<and>
    n + f < 2 * quorum_threshold C \<and> n + f < slow_commit_threshold C + view_change_threshold C \<and>
    n + f + (f + 1) \<le> fast_commit_quorum_threshold C + view_change_threshold C \<and>
    quorum_threshold C \<le> n - f - c \<and> view_change_threshold C = n - f - c"
  using committee_new_thresholds(7-10) [OF assms] assms(2) by (auto simp: resilient_def)

section \<open>Aggregators\<close>

definition qcm_feed ::
  "('pk::{linorder, ab_group_add}, 's::ab_group_add) runtime \<Rightarrow> 'pk committee \<Rightarrow> ('s vote \<times> bool) list \<Rightarrow> ('pk, 's) qc_maker" where
  "qcm_feed E C votes = fold (\<lambda>(v, chk) m. snd (qcm_append E C v chk m)) votes (qc_maker_new E (cm_n C))"

lemma qcm_feed_inv:
  assumes "committee_wf C"
  shows "qcm_inv C (qcm_feed E C votes)"
proof -
  have "qcm_inv C m \<Longrightarrow> qcm_inv C (fold (\<lambda>(v, chk) m. snd (qcm_append E C v chk m)) votes m)" for m
    by (induction votes arbitrary: m) (auto simp: qcm_append_inv [OF assms])
  then show ?thesis unfolding qcm_feed_def using qcm_inv_new [OF assms] by blast
qed

text \<open>
  C23. Whatever votes a QC maker was fed, a certificate it produces is for the block, kind and
  round of the vote that completed it, passes the check every receiver runs, and its bit vector
  names signers whose stake is the threshold of its kind.
\<close>

theorem qc_maker_certifies_quorum:
  assumes "committee_wf C" "fst (qcm_append E C vote chk (qcm_feed E C votes)) = Ok (Some q)"
  shows "qc_blk_hash q = v_blk_hash vote \<and> qc_kind q = v_kind vote \<and> qc_round q = v_round vote \<and>
    qc_is_well_formed E C q = Ok () \<and> sum (stake_of C) (signers C q) = certified_stake C q"
  using qcm_append_certificate [OF assms(1) qcm_feed_inv [OF assms(1)] assms(2)] by simp

definition tcm_feed ::
  "('pk::{linorder, ab_group_add}, 's::ab_group_add) runtime \<Rightarrow> 'pk committee \<Rightarrow> 's timeout list \<Rightarrow> 's tc_maker" where
  "tcm_feed E C timeouts = fold (\<lambda>t m. snd (tcm_append E C t m)) timeouts (tc_maker_new E)"

lemma tcm_feed_inv:
  assumes "committee_wf C" "\<forall>t \<in> set timeouts. t_round t = r"
  shows "tcm_inv E C r (tcm_feed E C timeouts)"
proof -
  have "tcm_inv E C r m \<Longrightarrow> tcm_inv E C r (fold (\<lambda>t m. snd (tcm_append E C t m)) timeouts m)" for m
    using assms(2) tcm_append_inv [OF assms(1), of E]
    by (induction timeouts arbitrary: m) auto
  then show ?thesis unfolding tcm_feed_def using tcm_inv_new by blast
qed

text \<open>
  C24. A timeout certificate assembled from the timeouts of one round carries the view-change
  threshold of stake from distinct members and passes the check every receiver runs.
\<close>

theorem tc_maker_certifies_view_change:
  assumes "committee_wf C" "quorum_threshold C \<le> view_change_threshold C"
    "\<forall>t' \<in> set timeouts. t_round t' = t_round t"
    "fst (tcm_append E C t (tcm_feed E C timeouts)) = Ok (w, Some tc)"
  shows "tc_is_well_formed E C tc = Ok () \<and> tc_round tc = t_round t \<and>
    view_change_threshold C \<le> (\<Sum>v\<leftarrow>tc_votes tc. stake_of C (fst v))"
  using tcm_append_certificate [OF assms(1) tcm_feed_inv [OF assms(1,3)] assms(2,4)] by simp

section \<open>Keys\<close>

text \<open>
  C31. Subtracting the keys of the absent members from the key of the whole committee, as the
  certificate checks do, gives the same aggregate key as adding up those of the signers.
\<close>

theorem removing_is_combining:
  fixes keys :: "'pk::ab_group_add list"
  assumes "filter present [0..<length keys] \<noteq> []"
  shows "remove_pubkeys (sum_list keys) (filter (\<lambda>i. \<not> present i) [0..<length keys]) keys =
    (combine_key_from_ids (filter present [0..<length keys]) keys :: ('e, _) res)"
  by (rule remove_complement_is_combine [OF assms])

text \<open>
  C40. A quorum certificate is not checked for a quorum: one signed by a single member passes,
  whatever stake that member has.
\<close>

theorem lone_signer_certifies:
  fixes q :: "'s qc"
  assumes wf: "committee_wf C" and comb: "combined_pubkey C = sum_list (sorted_keys C)"
    and a: "authority_of C a = Some x"
    and len: "committee_size C \<le> 128 * length (fst (qc_votes q))"
    and bits: "\<forall>i < committee_size C. bit_at (fst (qc_votes q)) i \<longleftrightarrow> i \<noteq> signer_id C a"
    and sig: "bls_verify_batch E (digest_bytes (qc_digest E q)) (bls_pubkey_g2 x) (snd (qc_votes q))"
  shows "qc_is_well_formed E C q = Ok ()"
proof -
  let ?keys = "sorted_keys C" and ?i = "signer_id C a"
  have i: "?i < length ?keys" "?keys ! ?i = bls_pubkey_g2 x"
    using signer_id_key(2,3) [OF wf a] wf_sorted_keys(2) [OF wf] by simp_all
  have missing: "missing_ids C (fst (qc_votes q)) = (Ok (filter (\<lambda>i. \<not> i = ?i) [0..<length ?keys]) :: ('s consensus_error, _) res)"
    using bits wf_sorted_keys(2) [OF wf]
    by (auto simp: missing_ids_filter [OF len] bit_at_def intro!: filter_cong)
  have "[0..<length ?keys] = [0..<?i] @ ?i # [Suc ?i..<length ?keys]"
    using i(1) by (metis less_imp_add_positive upt_add_eq_append upt_conv_Cons zero_le)
  then have only: "filter (\<lambda>i. i = ?i) [0..<length ?keys] = [?i]" by simp
  have "remove_pubkeys (combined_pubkey C) (filter (\<lambda>i. \<not> i = ?i) [0..<length ?keys]) ?keys =
      (Ok (bls_pubkey_g2 x) :: ('s consensus_error, _) res)"
    unfolding comb by (subst remove_complement_is_combine) (use only i in \<open>simp_all add: combine_key_from_ids_sum\<close>)
  with missing sig show ?thesis by (simp add: qc_is_well_formed_def)
qed

section \<open>The store\<close>

text \<open>
  C32. No waiter is forgotten: after any commands each \<^verbatim>\<open>notify_read\<close> has been
  answered or still waits, and it waits only while its key has no value.
\<close>

theorem store_wakes_waiters:
  assumes "kv_laws D" "store_run D cs (store_new db) = (out, st)"
  shows "set (notified out) \<union> snd ` waiters st = set (notify_senders cs) \<and>
    (\<forall>k s. (k, s) \<in> waiters st \<longrightarrow> db_get D (st_db st) k = Inr None)"
proof -
  have "obligations_fresh D s \<Longrightarrow> obligations_fresh D (snd (store_run D cs s))" for s
  proof (induction cs arbitrary: s)
    case (Cons c cs)
    have "obligations_fresh D (snd (store_step D c s))" by (rule store_step_fresh [OF assms(1) Cons.prems])
    from Cons.IH [OF this] show ?case by (simp add: split_beta)
  qed simp
  moreover have "obligations_fresh D (store_new db)" "waiters (store_new db) = {}"
    by (simp_all add: obligations_fresh_def waiters_def store_new_def)
  ultimately have "obligations_fresh D st" "set (notified out) \<union> snd ` waiters st = set (notify_senders cs)"
    using assms(2) store_run_waiters [of D cs "store_new db"] by (metis snd_conv, simp)
  then show ?thesis by (auto simp: obligations_fresh_def waiters_def)
qed

section \<open>The proposer\<close>






section \<open>The synchronizer\<close>

text \<open>
  C35. A suspended block is not forgotten: in every run in which the store answers, a block
  kept for a missing digest has a waiter on that digest, and when the digest is stored the
  block goes back to the core and is no longer kept.
\<close>

theorem suspended_blocks_resume:
  assumes "y = task_run (sync_turn E name C) evs synchronizer_new" "sy_loopbacks y d = Some b"
  shows "d \<in> set (sy_waiting y) \<and> SyLoopback b \<in> set (fst (sync_on_stored d y)) \<and>
    sy_loopbacks (snd (sync_on_stored d y)) d = None"
proof -
  have "sync_ok synchronizer_new" by (simp add: sync_ok_def synchronizer_new_def)
  then have "sync_ok y" unfolding assms(1) by (rule synchronizing.inv_run)
  with assms(2) show ?thesis by (auto simp: sync_ok_def sync_on_stored_def Let_def)
qed

section \<open>From the mempool to the committer\<close>


section \<open>Instances\<close>

lemma quartet_wf: "committee_wf quartet"
  by code_simp

theorem thresholds_intersect_witness:
  "\<exists>C. (committee_new (authorities quartet) 4 1 0 0 :: (unit, _) res) = Ok C \<and> quorum_threshold C = 3 \<and>
     4 + 1 < 2 * quorum_threshold C"
proof -
  have new: "(committee_new (authorities quartet) 4 1 0 0 :: (unit, _) res) = Ok quartet" by code_simp
  have "resilient 4 1 0 0" by (simp add: resilient_def)
  from thresholds_intersect [OF new this] new show ?thesis by auto
qed

definition vote_of :: "public_key \<Rightarrow> int \<Rightarrow> int vote" where
  "vote_of name sig = \<lparr>v_author = name, v_blk_hash = Digest [10], v_kind = Normal, v_round = 1, v_signature = sig\<rparr>"

definition toy_votes :: "(int vote \<times> bool) list" where
  "toy_votes = [(vote_of me 7, False), (vote_of (PublicKey [2]) 8, False)]"

definition toy_quorum_qc :: "int qc" where
  "toy_quorum_qc = \<lparr>qc_blk_hash = Digest [10], qc_kind = Normal, qc_round = 1,
     qc_votes = ([340282366920938463463374607431768211448], 24), qc_fast_quorum = False\<rparr>"

lemma toy_sealed:
  "fst (qcm_append toy_runtime quartet (vote_of (PublicKey [3]) 9) True (qcm_feed toy_runtime quartet toy_votes)) = Ok (Some toy_quorum_qc)"
  by code_simp

theorem qc_maker_certifies_quorum_witness:
  "qc_is_well_formed toy_runtime quartet toy_quorum_qc = Ok () \<and>
   sum (stake_of quartet) (signers quartet toy_quorum_qc) = certified_stake quartet toy_quorum_qc"
  using qc_maker_certifies_quorum [OF quartet_wf toy_sealed] by blast

theorem removing_is_combining_witness:
  "(remove_pubkeys (sum_list [7, 8, 9 :: int]) [1] [7, 8, 9] :: (unit, _) res) = combine_key_from_ids [0, 2] [7, 8, 9]"
proof -
  have ids: "filter (\<lambda>i. i \<noteq> 1) [0..<length [7, 8, 9 :: int]] = [0, 2]" "filter (\<lambda>i. \<not> i \<noteq> 1) [0..<length [7, 8, 9 :: int]] = [1]"
    by code_simp+
  then have "filter (\<lambda>i. i \<noteq> 1) [0..<length [7, 8, 9 :: int]] \<noteq> []" by (simp only: list.distinct not_False_eq_True)
  from removing_is_combining [OF this, where ?'e = unit] show ?thesis by (simp only: ids)
qed

definition timeout_by :: "public_key \<Rightarrow> int timeout" where
  "timeout_by name = timeout_new toy_runtime (last_vote (toy_start name)) (qc_genesis toy_runtime) (wqc_genesis toy_runtime) 1 name"

definition toy_tc :: "int tc" where
  "toy_tc = \<lparr>tc_high_qc = qc_genesis toy_runtime, tc_high_wqc = wqc_genesis toy_runtime, tc_round = 1,
     tc_votes = map (\<lambda>name. (name, t_signature (timeout_by name), 0)) [me, PublicKey [2], PublicKey [3]]\<rparr>"

lemma toy_timed_out:
  "fst (tcm_append toy_runtime quartet (timeout_by (PublicKey [3]))
     (tcm_feed toy_runtime quartet [timeout_by me, timeout_by (PublicKey [2])])) = Ok (3, Some toy_tc)"
  by code_simp

theorem tc_maker_certifies_view_change_witness:
  "tc_is_well_formed toy_runtime quartet toy_tc = Ok () \<and> tc_round toy_tc = 1"
proof -
  have "quorum_threshold quartet \<le> view_change_threshold quartet" by code_simp
  moreover have "\<forall>t' \<in> set [timeout_by me, timeout_by (PublicKey [2])]. t_round t' = t_round (timeout_by (PublicKey [3]))"
    by (simp add: timeout_by_def timeout_new_def Let_def)
  ultimately show ?thesis
    using tc_maker_certifies_view_change [OF quartet_wf _ _ toy_timed_out] by (simp add: timeout_by_def timeout_new_def Let_def)
qed

theorem lone_signer_certifies_witness:
  "qc_is_well_formed toy_runtime quartet
     \<lparr>qc_blk_hash = Digest [10], qc_kind = Commit, qc_round = 1, qc_votes = ([13], 8), qc_fast_quorum = False\<rparr> = Ok () \<and>
   stake_of quartet (PublicKey [2]) < slow_commit_threshold quartet"
proof
  show "qc_is_well_formed toy_runtime quartet
     \<lparr>qc_blk_hash = Digest [10], qc_kind = Commit, qc_round = 1, qc_votes = ([13], 8), qc_fast_quorum = False\<rparr> = Ok ()"
  proof (rule lone_signer_certifies [OF quartet_wf])
    show "combined_pubkey quartet = sum_list (sorted_keys quartet)" by code_simp
    show "authority_of quartet (PublicKey [2]) = Some (toy_authority 2 1 8)" by code_simp
    have size: "committee_size quartet = 4" "signer_id quartet (PublicKey [2]) = 1" by code_simp+
    have "\<forall>i \<in> set [0..<4]. bit_at [13] i \<longleftrightarrow> i \<noteq> 1" by code_simp
    then show "\<forall>i < committee_size quartet. bit_at (fst (qc_votes \<lparr>qc_blk_hash = Digest [10], qc_kind = Commit, qc_round = 1,
        qc_votes = ([13], 8 :: int), qc_fast_quorum = False\<rparr>)) i \<longleftrightarrow> i \<noteq> signer_id quartet (PublicKey [2])"
      using size by simp
  qed (simp_all add: quartet_def committee_size_def toy_authority_def toy_runtime_def)
  show "stake_of quartet (PublicKey [2]) < slow_commit_threshold quartet" by code_simp
qed

lemma toy_db_laws: "kv_laws toy_db"
  by (simp add: kv_laws_def toy_db_def)

theorem store_wakes_waiters_witness:
  "store_run toy_db [NotifyRead [1] 0, NotifyRead [2] 1, Write [1] [9]] (store_new Map.empty) =
     ([(0, NotifyReply (Inr [9]))], \<lparr>st_db = [[1] \<mapsto> [9]], st_obligations = [[2] \<mapsto> [1]]\<rparr>) \<and>
   {0} \<union> snd ` waiters \<lparr>st_db = [[1 :: u8] \<mapsto> [9 :: u8]], st_obligations = [[2] \<mapsto> [1]]\<rparr> = {0, 1}"
proof -
  have run: "store_run toy_db [NotifyRead [1] 0, NotifyRead [2] 1, Write [1] [9]] (store_new Map.empty) =
     ([(0, NotifyReply (Inr [9]))], \<lparr>st_db = [[1] \<mapsto> [9]], st_obligations = [[2] \<mapsto> [1]]\<rparr>)"
    by (simp add: toy_db_def store_new_def Let_def fun_upd_twist fun_upd_idem)
  from store_wakes_waiters [OF toy_db_laws this] run show ?thesis by (simp add: notified_def notify_senders_def)
qed





theorem suspended_blocks_resume_witness:
  "SyLoopback toy_block1 \<in> set (fst (sync_on_stored (Digest [9])
     (task_run (sync_turn toy_runtime me quartet) [SyRequest 0 (Digest [9], PublicKey [2], Some toy_block1)] synchronizer_new)))"
proof -
  have "sy_loopbacks (task_run (sync_turn toy_runtime me quartet) [SyRequest 0 (Digest [9], PublicKey [2], Some toy_block1)] synchronizer_new)
      (Digest [9]) = Some toy_block1"
    by (simp add: sync_turn_def sync_on_request_state synchronizer_new_def)
  from suspended_blocks_resume [OF refl this] show ?thesis by blast
qed



end
