(* ===== verification/Weaknesses.thy ===== *)
theory Weaknesses
  imports Aggregator_Proofs Consensus
begin

text \<open>
  Behaviours of the code that its comments, or the role of the code, would not suggest. They
  are consequences of the definitions of the components.
\<close>

text \<open>
  The flag that makes a prepare certificate commit its block is not covered by the signature:
  setting it changes neither the digest nor the outcome of the check.
\<close>

lemma fast_flag_is_unsigned:
  "qc_digest E (q\<lparr>qc_fast_quorum := fast\<rparr>) = qc_digest E q"
  "qc_is_well_formed E C (q\<lparr>qc_fast_quorum := fast\<rparr>) = qc_is_well_formed E C q"
  by (simp_all add: qc_digest_def qc_is_well_formed_def)

text \<open>
  A frame that decodes to a message the core does not expect is passed on to the core and
  ends it.
\<close>

lemma verified_vote_panics:
  assumes "de bytes = Some (VerifiedVoteMsg vote)"
  shows "ci_tx_consensus (snd (consensus_dispatch de bytes i)) = ci_tx_consensus i @ [VerifiedVoteMsg vote]"
    "fst (core_turn env (now, RxMessage (VerifiedVoteMsg vote)) s) = Panic ''Unexpected protocol message''"
  using assms by (simp_all add: consensus_dispatch_def core_turn_def core_select_def dispatch_message_def monad_defs)

text \<open>A timeout certificate is never forwarded to the next leader.\<close>

lemma tc_is_not_forwarded: "c_trace (snd (send_to (TCMsg tc) recipient s)) = c_trace s"
  by (auto simp: send_to_def is_sendable_def consensus_address_def monad_defs split: res.split prod.split)

text \<open>A vote in the name of somebody outside the committee ends the core.\<close>

lemma add_vote_outside:
  assumes "v_author vote \<notin> members (ag_committee A)"
  shows "fst (add_normal_vote E vote A) = Panic ''called Option::unwrap() on a None value''"
    "fst (add_commit_vote E vote A) = Panic ''called Option::unwrap() on a None value''"
  by (simp_all add: add_normal_vote_def add_commit_vote_def qcm_append_outside [OF assms] Let_def)

lemma outsider_vote_panics:
  fixes env :: "('pk::{linorder, ab_group_add}, 's::ab_group_add, 'db) core_env"
  assumes "v_author vote \<notin> members (ag_committee (c_aggregator s))" "b_round (last_commit s) < v_round vote" "0 < ce_depth env"
  shows "fst (core_turn env (now, RxMessage (VoteMsg vote)) s) = Panic ''called Option::unwrap() on a None value''"
proof -
  obtain depth where d: "ce_depth env = Suc depth" using assms(3) by (cases "ce_depth env") auto
  have "fst (on_aggregator (case v_kind vote of
        Commit \<Rightarrow> add_commit_vote (ce_runtime env) vote | Normal \<Rightarrow> add_normal_vote (ce_runtime env) vote) s')
      = Panic ''called Option::unwrap() on a None value''" if "c_aggregator s' = c_aggregator s" for s' :: "('pk, 's, 'db) core"
    using add_vote_outside [of vote "c_aggregator s'" "ce_runtime env"] assms(1) that
    by (auto simp: on_aggregator_def split: vote_type.split prod.split)
  from this [of "s\<lparr>c_now := max now (c_now s)\<rparr>"] assms(2) show ?thesis
    by (auto simp: core_turn_def core_select_def dispatch_message_def handle_vote_def d handle_vote_step_def monad_defs
        split: vote_type.splits prod.splits res.splits)
qed

end
