(* ===== verification/Primary_Proofs.thy ===== *)
theory Primary_Proofs
  imports Primary_Core Signers
begin

text \<open>
  Correctness of the mempool core: the certificates its aggregator assembles, what it stores
  before it hands a certificate to the consensus, and what it does not check.
\<close>

section \<open>The aggregator\<close>

text \<open>The BLS key of a member, by its position among the sorted keys.\<close>

definition member_key :: "'pk::linorder committee \<Rightarrow> public_key \<Rightarrow> 'pk" where
  "member_key C a = sorted_keys C ! signer_id C a"

text \<open>A committee whose votes fit one 128-bit vector and whose members all have stake.\<close>

definition small_committee :: "'pk::linorder committee \<Rightarrow> bool" where
  "small_committee C \<longleftrightarrow> committee_wf C \<and> committee_size C \<le> 128 \<and> (\<forall>a \<in> members C. 0 < stake_of C a)"

definition va_inv :: "'pk::{linorder, ab_group_add} committee \<Rightarrow> ('pk, 's::ab_group_add) votes_aggregator \<Rightarrow> bool" where
  "va_inv C a \<longleftrightarrow>
     va_used a \<subseteq> members C \<and> length (va_votes a) = card (va_used a) \<and>
     (\<Sum>v\<leftarrow>va_votes a. fst v) = sum (member_key C) (va_used a) \<and>
     (\<not> va_is_qc_sent a \<longrightarrow>
        va_weight a = sum (stake_of C) (va_used a) \<and>
        (\<forall>i < committee_size C. bit (va_pk_bit_vec a) i \<longleftrightarrow> i \<in> signer_id C ` va_used a) \<and>
        (va_votes a \<noteq> [] \<longrightarrow> va_agg_sign a = (\<Sum>v\<leftarrow>va_votes a. snd v)))"

lemma va_inv_new: "va_inv C (votes_aggregator_new E)"
  by (simp add: va_inv_def votes_aggregator_new_def)

text \<open>The state after a vote was counted, before the threshold is looked at.\<close>

definition va_counted :: "'pk::linorder committee \<Rightarrow> 's::ab_group_add pvote \<Rightarrow> ('pk, 's) votes_aggregator \<Rightarrow> ('pk, 's) votes_aggregator" where
  "va_counted C vote a = a\<lparr>va_used := insert (pv_author vote) (va_used a),
     va_votes := va_votes a @ [(member_key C (pv_author vote), pv_signature vote)],
     va_weight := add32 (va_weight a) (stake_of C (pv_author vote)),
     va_agg_sign := (if va_votes a = [] then pv_signature vote else va_agg_sign a + pv_signature vote),
     va_pk_bit_vec := va_pk_bit_vec a OR push_bit (signer_id C (pv_author vote) mod 128) 1\<rparr>"

definition va_recorded :: "'pk::linorder committee \<Rightarrow> 's pvote \<Rightarrow> ('pk, 's) votes_aggregator \<Rightarrow> ('pk, 's) votes_aggregator" where
  "va_recorded C vote a = a\<lparr>va_used := insert (pv_author vote) (va_used a),
     va_votes := va_votes a @ [(member_key C (pv_author vote), pv_signature vote)],
     va_weight := add32 (va_weight a) (stake_of C (pv_author vote))\<rparr>"

definition va_certificate ::
  "('pk, 's) runtime \<Rightarrow> ('tx \<Rightarrow> u8 list) \<Rightarrow> 'tx header \<Rightarrow> ('pk, 's) votes_aggregator \<Rightarrow> 's certificate" where
  "va_certificate E bcs header a = \<lparr>cert_id = header_digest E bcs header, cert_round = h_round header,
     cert_origin = h_author header, cert_votes = (va_pk_bit_vec a, va_agg_sign a)\<rparr>"

lemma member_lookup:
  assumes "committee_wf C" "a \<in> members C"
  shows "get_bls_public_g2 C a = Ok (member_key C a)"
    "binary_search (sorted_keys C) (member_key C a) = Some (signer_id C a)"
    "signer_id C a < committee_size C"
proof -
  from member_authority_of [OF assms(2)] obtain x where x: "authority_of C a = Some x" ..
  note key = signer_id_key [OF assms(1) x]
  from key(3) have "member_key C a = bls_pubkey_g2 x" by (simp add: member_key_def)
  with key x show "get_bls_public_g2 C a = Ok (member_key C a)"
    "binary_search (sorted_keys C) (member_key C a) = Some (signer_id C a)"
    "signer_id C a < committee_size C"
    by (simp_all add: get_bls_public_g2_def)
qed

lemma va_append_eq:
  assumes "small_committee C" "pv_author vote \<in> members C"
  shows "va_append E bcs vote C header a =
    (if pv_author vote \<in> va_used a then (Err (DagAuthorityReuse (pv_author vote)), a)
     else if va_is_qc_sent a then (Ok None, va_recorded C vote a)
     else if validity_threshold C \<le> va_weight (va_counted C vote a)
       then (Ok (Some (va_certificate E bcs header (va_counted C vote a))),
             (va_counted C vote a)\<lparr>va_weight := 0, va_is_qc_sent := True\<rparr>)
     else (Ok None, va_counted C vote a))"
proof -
  have wf: "committee_wf C" and pos: "0 < stake_of C (pv_author vote)"
    using assms by (auto simp: small_committee_def)
  note key = member_lookup [OF wf assms(2)]
  have count: "va_count C vote (member_key C (pv_author vote)) (va_recorded C vote a) = (Ok (), va_counted C vote a)"
    by (auto simp: key va_count_def va_recorded_def va_counted_def monad_defs aggregate_sign_def
        expect_def Suc_le_eq split: res.split)
  have modify: "modify_m (\<lambda>a. a\<lparr>va_used := insert (pv_author vote) (va_used a),
         va_votes := va_votes a @ [(member_key C (pv_author vote), pv_signature vote)],
         va_weight := add32 (va_weight a) (stake_of C (pv_author vote))\<rparr>) a = (Ok (), va_recorded C vote a)"
    by (simp add: modify_m_def va_recorded_def)
  show ?thesis
  proof (cases "pv_author vote \<in> va_used a")
    case True
    then show ?thesis by (simp add: key va_append_def monad_defs)
  next
    case False
    then have "va_append E bcs vote C header a =
      (if va_is_qc_sent (va_recorded C vote a) then (Ok None, va_recorded C vote a)
       else bind_m (va_count C vote (member_key C (pv_author vote))) (\<lambda>_.
         bind_m (gets_m va_weight) (\<lambda>weight.
           if validity_threshold C \<le> weight then
             then_m (modify_m (\<lambda>a. a\<lparr>va_weight := 0, va_is_qc_sent := True\<rparr>))
               (gets_m (\<lambda>a. Some (va_certificate E bcs header a)))
           else ret None)) (va_recorded C vote a))"
      using pos unfolding va_append_def va_certificate_def [symmetric]
      by (simp add: key monad_defs pvote_verify_def va_recorded_def)
    also have "\<dots> = (if va_is_qc_sent a then (Ok None, va_recorded C vote a)
     else if validity_threshold C \<le> va_weight (va_counted C vote a)
       then (Ok (Some (va_certificate E bcs header (va_counted C vote a))),
             (va_counted C vote a)\<lparr>va_weight := 0, va_is_qc_sent := True\<rparr>)
     else (Ok None, va_counted C vote a))"
      using count by (simp add: monad_defs va_certificate_def) (simp add: va_recorded_def)
    finally show ?thesis using False by simp
  qed
qed

lemma va_inv_counted:
  assumes C: "small_committee C" and a: "va_inv C a" "\<not> va_is_qc_sent a"
    and v: "pv_author vote \<in> members C" "pv_author vote \<notin> va_used a"
  shows "va_inv C (va_counted C vote a)"
    "va_weight (va_counted C vote a) = sum (stake_of C) (insert (pv_author vote) (va_used a))"
proof -
  have wf: "committee_wf C" using C by (simp add: small_committee_def)
  have U: "va_used a \<subseteq> members C" and fin: "finite (va_used a)"
    using a(1) finite_subset [OF _ finite_members] by (auto simp: va_inv_def)
  have w: "sum (stake_of C) (insert (pv_author vote) (va_used a)) < 2 ^ 32"
    using U v wf by (intro wf_total_stake) auto
  then show weight: "va_weight (va_counted C vote a) = sum (stake_of C) (insert (pv_author vote) (va_used a))"
    using a v fin by (simp add: va_counted_def va_inv_def add.commute)
  have id: "signer_id C (pv_author vote) < 128"
    using member_lookup(3) [OF wf v(1)] C by (simp add: small_committee_def)
  have "bit (va_pk_bit_vec (va_counted C vote a)) i \<longleftrightarrow> i \<in> signer_id C ` insert (pv_author vote) (va_used a)"
    if "i < committee_size C" for i
    using that a id by (auto simp: va_counted_def va_inv_def bit_or_iff bit_single simp del: push_bit_of_1)
  with a v fin U weight show "va_inv C (va_counted C vote a)"
    by (auto simp: va_inv_def va_counted_def member_key_def algebra_simps)
qed

text \<open>The key under which the assembled certificate is checked.\<close>

lemma certificate_key:
  assumes C: "small_committee C" and a: "va_inv C a" "\<not> va_is_qc_sent a" "va_votes a \<noteq> []"
  shows "combine_key_from_ids (certificate_ids (va_pk_bit_vec a) (committee_size C)) (sorted_keys C) =
    Ok (\<Sum>v\<leftarrow>va_votes a. fst v)"
proof -
  have wf: "committee_wf C" and size: "committee_size C \<le> 128" using C by (simp_all add: small_committee_def)
  have U: "va_used a \<subseteq> members C" "va_used a \<noteq> {}" "finite (va_used a)"
    using a finite_subset [OF _ finite_members] by (auto simp: va_inv_def)
  let ?ids = "certificate_ids (va_pk_bit_vec a) (committee_size C)"
  have ids: "?ids = filter (\<lambda>i. i \<in> signer_id C ` va_used a) [0..<committee_size C]"
    unfolding certificate_ids_def using a size
    by (intro filter_cong) (auto simp: va_inv_def and_exp_eq_0_iff_not_bit)
  have set: "set ?ids = signer_id C ` va_used a"
    using ids U member_lookup(3) [OF wf] by auto
  have "combine_key_from_ids ?ids (sorted_keys C) = Ok (\<Sum>i\<leftarrow>?ids. sorted_keys C ! i)"
    using set U wf_sorted_keys(2) [OF wf] ids by (intro combine_key_from_ids_sum) (auto simp flip: set_empty)
  also have "(\<Sum>i\<leftarrow>?ids. sorted_keys C ! i) = (\<Sum>i\<in>signer_id C ` va_used a. sorted_keys C ! i)"
    using ids set by (subst sum_list_distinct_conv_sum_set) auto
  also have "\<dots> = sum (member_key C) (va_used a)"
    using signer_id_inj [OF wf] U by (subst sum.reindex) (auto simp: member_key_def inj_on_def)
  also have "\<dots> = (\<Sum>v\<leftarrow>va_votes a. fst v)" using a by (simp add: va_inv_def)
  finally show ?thesis .
qed

text \<open>
  What BLS aggregation relies on: the sum of signatures verifies under the sum of keys when
  each of them does.
\<close>

definition bls_additive :: "('pk::ab_group_add, 's::ab_group_add) runtime \<Rightarrow> bool" where
  "bls_additive E \<longleftrightarrow> (\<forall>m k1 s1 k2 s2. bls_verify_batch E m k1 s1 \<longrightarrow> bls_verify_batch E m k2 s2 \<longrightarrow>
     bls_verify_batch E m (k1 + k2) (s1 + s2))"

lemma bls_additive_sum:
  assumes "bls_additive E" "vs \<noteq> []" "\<forall>v \<in> set vs. bls_verify_batch E m (fst v) (snd v)"
  shows "bls_verify_batch E m (\<Sum>v\<leftarrow>vs. fst v) (\<Sum>v\<leftarrow>vs. snd v)"
  using assms(2,3)
proof (induction vs)
  case Nil
  then show ?case by simp
next
  case (Cons v vs)
  then show ?case using assms(1) by (cases "vs = []") (auto simp: bls_additive_def)
qed

lemma va_certificate_verifies:
  assumes "small_committee C" "va_inv C a" "\<not> va_is_qc_sent a" "va_votes a \<noteq> []" "bls_additive E"
    and "\<forall>v \<in> set (va_votes a). bls_verify_batch E
      (digest_bytes (certificate_digest E (va_certificate E bcs header a))) (fst v) (snd v)"
  shows "certificate_verify E C (va_certificate E bcs header a) = Ok ()"
proof -
  have "bls_verify_batch E (digest_bytes (certificate_digest E (va_certificate E bcs header a)))
      (\<Sum>v\<leftarrow>va_votes a. fst v) (va_agg_sign a)"
    using assms bls_additive_sum [OF assms(5,4,6)] by (simp add: va_inv_def)
  then show ?thesis
    unfolding certificate_verify_def by (simp add: certificate_key [OF assms(1-4)] va_certificate_def verify_batch_def)
qed

text \<open>The certificates that a sequence of votes on one header produces.\<close>

fun va_feed ::
  "('pk::linorder, 's::ab_group_add) runtime \<Rightarrow> ('tx \<Rightarrow> u8 list) \<Rightarrow> 'pk committee \<Rightarrow> 'tx header \<Rightarrow>
   's pvote list \<Rightarrow> ('pk, 's) votes_aggregator \<Rightarrow> 's certificate list" where
  "va_feed E bcs C header [] a = []"
| "va_feed E bcs C header (vote # votes) a =
     (case va_append E bcs vote C header a of
        (Ok (Some certificate), a') \<Rightarrow> certificate # va_feed E bcs C header votes a'
      | (_, a') \<Rightarrow> va_feed E bcs C header votes a')"

lemma va_feed_sent:
  assumes "small_committee C" "pv_author ` set votes \<subseteq> members C" "va_is_qc_sent a"
  shows "va_feed E bcs C header votes a = []"
  using assms(2,3)
proof (induction votes arbitrary: a)
  case Nil
  then show ?case by simp
next
  case (Cons v votes)
  then show ?case using va_append_eq [OF assms(1), of v E bcs header a]
    by (auto simp: va_recorded_def)
qed

lemma certificate_digest_va:
  "certificate_digest E (va_certificate E bcs header a) =
   hash32 E (digest_bytes (header_digest E bcs header) @ u64_to_le_bytes (h_round header) @ key_bytes (h_author header))"
  by (simp add: certificate_digest_def va_certificate_def)

lemma va_feed_certificate:
  assumes C: "small_committee C" and add: "bls_additive E"
    and mem: "pv_author ` set votes \<subseteq> members C"
    and d: "d = digest_bytes (certificate_digest E (va_certificate E bcs header a))"
    and valid: "\<forall>v \<in> set votes. bls_verify_batch E d (member_key C (pv_author v)) (pv_signature v)"
    and a: "va_inv C a" "\<not> va_is_qc_sent a"
      "\<forall>v \<in> set (va_votes a). bls_verify_batch E d (fst v) (snd v)"
      "sum (stake_of C) (va_used a) < validity_threshold C"
    and enough: "validity_threshold C \<le> sum (stake_of C) (va_used a \<union> pv_author ` set votes)"
  shows "\<exists>cert. va_feed E bcs C header votes a = [cert] \<and> certificate_verify E C cert = Ok () \<and>
    cert_id cert = header_digest E bcs header \<and> cert_round cert = h_round header \<and> cert_origin cert = h_author header"
  using mem d valid a enough
proof (induction votes arbitrary: a)
  case Nil
  then show ?case by simp
next
  case (Cons v votes)
  note app = va_append_eq [OF C, of v E bcs header a]
  have v: "pv_author v \<in> members C" using Cons.prems by simp
  show ?case
  proof (cases "pv_author v \<in> va_used a")
    case True
    then have "va_feed E bcs C header (v # votes) a = va_feed E bcs C header votes a"
      using app v by simp
    moreover have "insert (pv_author v) (va_used a) = va_used a" using True by auto
    ultimately show ?thesis using Cons.IH [of a] Cons.prems True by (auto simp: insert_absorb)
  next
    case False
    let ?a = "va_counted C v a"
    note inv = va_inv_counted [OF C Cons.prems(4,5) v False]
    have d': "d = digest_bytes (certificate_digest E (va_certificate E bcs header ?a))"
      using Cons.prems(2) by (simp add: certificate_digest_va)
    have val: "\<forall>w \<in> set (va_votes ?a). bls_verify_batch E d (fst w) (snd w)"
      using Cons.prems by (auto simp: va_counted_def)
    have ns: "\<not> va_is_qc_sent ?a" "va_votes ?a \<noteq> []" using Cons.prems by (simp_all add: va_counted_def)
    show ?thesis
    proof (cases "validity_threshold C \<le> va_weight ?a")
      case True
      then have "va_feed E bcs C header (v # votes) a =
          va_certificate E bcs header ?a # va_feed E bcs C header votes (?a\<lparr>va_weight := 0, va_is_qc_sent := True\<rparr>)"
        using app v False Cons.prems by simp
      also have "\<dots> = [va_certificate E bcs header ?a]"
        using Cons.prems by (simp add: va_feed_sent [OF C])
      finally have "va_feed E bcs C header (v # votes) a = [va_certificate E bcs header ?a]" .
      moreover have "certificate_verify E C (va_certificate E bcs header ?a) = Ok ()"
        by (rule va_certificate_verifies [OF C inv(1) ns add]) (use val d' in simp)
      ultimately show ?thesis by (auto simp: va_certificate_def)
    next
      case below: False
      then have "va_feed E bcs C header (v # votes) a = va_feed E bcs C header votes ?a"
        using app v False Cons.prems by simp
      moreover have "sum (stake_of C) (va_used ?a) < validity_threshold C"
        using below inv(2) by (simp add: va_counted_def)
      moreover have "validity_threshold C \<le> sum (stake_of C) (va_used ?a \<union> pv_author ` set votes)"
        using Cons.prems(8) by (simp add: va_counted_def)
      ultimately show ?thesis using Cons.IH [of ?a] Cons.prems inv(1) val d' ns by simp
    qed
  qed
qed

section \<open>What the core has stored\<close>

text \<open>
  Before a certificate goes to the consensus its encoding is written under its digest, and
  before a vote is sent the header it is for is written under the header's identifier.
\<close>

definition backed ::
  "('pk, 's, 'tx, 'db) primary_env \<Rightarrow> ('s, 'tx) pcore_effect set \<Rightarrow> ('s, 'tx) pcore_effect \<Rightarrow> bool" where
  "backed env before e =
     (case e of
        PToConsensus c \<Rightarrow>
          PStored (to_vec (certificate_digest (pe_runtime env) c)) (pe_ser_certificate env c) \<in> before
      | PSend _ (PmVote v) \<Rightarrow>
          (\<exists>h. pv_id v = h_id h \<and> PStored (to_vec (h_id h)) (pe_ser_header env h) \<in> before)
      | _ \<Rightarrow> True)"

fun stored_first ::
  "('pk, 's, 'tx, 'db) primary_env \<Rightarrow> ('s, 'tx) pcore_effect set \<Rightarrow> ('s, 'tx) pcore_effect list \<Rightarrow> bool" where
  "stored_first env before [] = True"
| "stored_first env before (e # es) \<longleftrightarrow> backed env before e \<and> stored_first env (insert e before) es"

lemma stored_first_append:
  "stored_first env before (xs @ ys) \<longleftrightarrow> stored_first env before xs \<and> stored_first env (before \<union> set xs) ys"
  by (induction xs arbitrary: before) auto

lemma backed_simps [simp]:
  "backed env before (PBroadcast as m)" "backed env before (PVerifyJob c)" "backed env before (PStored k v)"
  "backed env before (PStoreAnswer n r)"
  by (simp_all add: backed_def)

lemma stored_first_answers [simp]: "stored_first env before (map (\<lambda>(ch, r). PStoreAnswer ch r) rs)"
  by (induction rs arbitrary: before) auto

text \<open>Every stored key has a value, since no write removes one.\<close>

definition all_stored :: "('pk, 's, 'tx, 'db) primary_env \<Rightarrow> ('pk, 's, 'tx, 'db) pcore \<Rightarrow> bool" where
  "all_stored env s \<longleftrightarrow> (\<forall>k v. PStored k v \<in> set (pc_trace s) \<longrightarrow>
     (\<exists>w. store_read (pe_rocksdb env) k (pc_store s) = Inr (Some w)))"

definition store_grows :: "('pk, 's, 'tx, 'db) primary_env \<Rightarrow> ('pk, 's, 'tx, 'db) pcore \<Rightarrow> ('pk, 's, 'tx, 'db) pcore \<Rightarrow> bool" where
  "store_grows env s s' \<longleftrightarrow> kv_laws (pe_rocksdb env) \<longrightarrow>
     (stored_first env {} (pc_trace s) \<longrightarrow> stored_first env {} (pc_trace s')) \<and>
     (all_stored env s \<longrightarrow> all_stored env s')"

interpretation storing: evolution "store_grows env" for env
  by unfold_locales (auto simp: store_grows_def)

lemma pc_write_trace:
  "snd (pc_write env k v s) = s\<lparr>pc_store := snd (store_write (pe_rocksdb env) k v (pc_store s)),
     pc_trace := pc_trace s @ [PStored k v] @
       map (\<lambda>(ch, r). PStoreAnswer ch r) (fst (store_write (pe_rocksdb env) k v (pc_store s)))\<rparr>"
  "fst (pc_write env k v s) = Ok ()"
  by (simp_all add: pc_write_def modify_m_def split: prod.split)

lemma pc_write_ok: "fst (pc_write env k v s) = Ok ()"
  by (rule pc_write_trace)

lemma kv_write_present:
  assumes "kv_laws D" "store_read D k st = Inr (Some w)"
  shows "\<exists>w. store_read D k (snd (store_write D k' v st)) = Inr (Some w)"
proof (cases "k = k'")
  case True
  then show ?thesis using assms(1) by (simp add: kv_laws_def)
next
  case False
  with assms show ?thesis by (simp add: kv_laws_def)
qed

lemma pc_write_grows: "steps (store_grows env) (pc_write env k v)"
proof (rule stepsI)
  fix s :: "('a, 'b, 'c, 'd) pcore"
  let ?s = "snd (pc_write env k v s)"
  show "store_grows env s ?s"
    unfolding store_grows_def
  proof (intro impI conjI)
    assume "stored_first env {} (pc_trace s)"
    then show "stored_first env {} (pc_trace ?s)" by (simp add: pc_write_trace stored_first_append)
  next
    assume kv: "kv_laws (pe_rocksdb env)" and all: "all_stored env s"
    have "\<exists>w. store_read (pe_rocksdb env) k (pc_store ?s) = Inr (Some w)"
      using kv by (simp add: pc_write_trace kv_laws_def)
    moreover have "\<exists>w. store_read (pe_rocksdb env) k' (pc_store ?s) = Inr (Some w)"
      if "PStored k' v' \<in> set (pc_trace s)" for k' v'
      using all that kv_write_present [OF kv] unfolding all_stored_def pc_write_trace by auto
    ultimately show "all_stored env ?s"
      unfolding all_stored_def by (auto simp: pc_write_trace)
  qed
qed

text \<open>An effect that needs no backing, or has it.\<close>

lemma pc_emit_grows:
  "(stored_first env {} (pc_trace s) \<Longrightarrow> backed env (set (pc_trace s)) e) \<Longrightarrow> (\<And>k v. e \<noteq> PStored k v) \<Longrightarrow>
   steps_at (store_grows env) (pc_emit e) s"
  by (auto simp: steps_at_def store_grows_def pc_emit_def modify_m_def stored_first_append all_stored_def)

lemma pc_emit_free: "(\<And>s. backed env s e) \<Longrightarrow> (\<And>k v. e \<noteq> PStored k v) \<Longrightarrow> steps (store_grows env) (pc_emit e)"
  by (rule steps_of_at) (rule pc_emit_grows)

lemma trace_update_grows:
  "pc_trace (h s) = pc_trace s \<Longrightarrow> pc_store (h s) = pc_store s \<Longrightarrow> store_grows env s (h s)"
  by (simp add: store_grows_def all_stored_def)

lemma keep_handlers_grows: "steps (store_grows env) (keep_handlers r hs)"
  unfolding keep_handlers_def by (rule storing.steps_modify) (simp add: trace_update_grows)

lemma broadcast_primaries_grows: "steps (store_grows env) (broadcast_primaries r m)"
  unfolding broadcast_primaries_def
  by (intro storing.steps_intros pc_emit_free keep_handlers_grows) simp_all

lemma process_certificate_grows: "steps (store_grows env) (process_certificate env c)"
proof (rule stepsI)
  fix s :: "('a, 'b, 'c, 'd) pcore"
  let ?k = "to_vec (certificate_digest (pe_runtime env) c)"
  let ?s = "snd (pc_write env ?k (pe_ser_certificate env c) s)"
  have "process_certificate env c s = pc_emit (PToConsensus c) ?s"
    using pc_write_ok [of env ?k "pe_ser_certificate env c" s]
    unfolding process_certificate_def then_m_def
    by (cases "pc_write env ?k (pe_ser_certificate env c) s") (simp add: bind_m_Ok)
  moreover have "store_grows env s ?s" by (rule stepsD [OF pc_write_grows])
  moreover have "store_grows env ?s (snd (pc_emit (PToConsensus c) ?s))"
    using pc_emit_grows [of env ?s "PToConsensus c"]
    by (simp add: steps_at_def backed_def pc_write_trace)
  ultimately show "store_grows env s (snd (process_certificate env c s))"
    using storing.evo_trans by metis
qed

lemma steps_expect: "steps R m \<Longrightarrow> steps R (expect_m msg m)"
proof -
  have "snd (expect_m msg m s) = snd (m s)" for s
    by (simp add: expect_m_def split: prod.split res.split)
  then show "steps R m \<Longrightarrow> steps R (expect_m msg m)" by (simp add: steps_def)
qed

lemma on_votes_aggregator_grows: "steps (store_grows env) (on_votes_aggregator d a m)"
  by (rule stepsI) (simp add: on_votes_aggregator_def trace_update_grows split: prod.split)

lemma process_vote_grows: "steps (store_grows env) (process_vote env v)"
  unfolding process_vote_def
  by (auto split: option.split intro!: storing.steps_intros on_votes_aggregator_grows broadcast_primaries_grows
      storing.steps_modify trace_update_grows steps_expect process_certificate_grows)

lemma process_header_grows: "steps (store_grows env) (process_header env h)"
proof (rule stepsI)
  fix s :: "('a, 'b, 'c, 'd) pcore"
  let ?s = "snd (pc_write env (to_vec (h_id h)) (pe_ser_header env h) s)"
  let ?vote = "pvote_new (pe_runtime env) h (pc_name ?s)"
  let ?rest = "if pv_origin ?vote = pc_name ?s
     then expect_m ''Failed to process our own vote'' (process_vote env ?vote)
     else case committee_primary (pc_committee ?s) (h_author h) of
       Ok x \<Rightarrow> then_m (pc_emit (PSend (primary_to_primary x) (PmVote ?vote)))
           (keep_handlers (h_round h) [(primary_to_primary x, PmVote ?vote)])
     | _ \<Rightarrow> panic ''Author of valid header is not in the committee''"
  have "process_header env h s = ?rest ?s"
    using pc_write_ok [of env "to_vec (h_id h)" "pe_ser_header env h" s]
    unfolding process_header_def then_m_def [of "pc_write _ _ _"]
    by (cases "pc_write env (to_vec (h_id h)) (pe_ser_header env h) s") (simp add: bind_m_Ok bind_m_def [of "gets_m id"] gets_m_def Let_def cong: res.case_cong)
  moreover have "store_grows env s ?s" by (rule stepsD [OF pc_write_grows])
  moreover have "steps_at (store_grows env) ?rest ?s"
  proof -
    have "backed env (set (pc_trace ?s)) (PSend a (PmVote ?vote))" for a
      by (auto simp: backed_def pc_write_trace pvote_new_def Let_def)
    then show ?thesis
      by (auto split: res.split intro!: storing.at_then pc_emit_grows keep_handlers_grows
          storing.at_steps [OF steps_expect [OF process_vote_grows]] storing.at_steps [OF storing.steps_panic])
  qed
  ultimately show "store_grows env s (snd (process_header env h s))"
    using storing.evo_trans unfolding steps_at_def by metis
qed

lemma process_own_header_grows: "steps (store_grows env) (process_own_header env h)"
  unfolding process_own_header_def
  by (intro storing.steps_intros storing.steps_modify broadcast_primaries_grows process_header_grows trace_update_grows)
    simp_all

lemma pcore_select_grows: "steps (store_grows env) (pcore_select env ev)"
  unfolding pcore_select_def pcore_dispatch_def sanitize_header_def sanitize_vote_def psanitize_certificate_def
  by (auto split: pcore_event.split primary_message.split
      intro!: storing.steps_intros storing.steps_modify process_header_grows process_own_header_grows
        process_certificate_grows process_vote_grows pc_emit_free trace_update_grows)

lemma pcore_cleanup_grows: "store_grows env s (pcore_cleanup s)"
  by (auto simp: pcore_cleanup_def Let_def intro: trace_update_grows storing.evo_refl)

lemma pcore_turn_grows: "steps (store_grows env) (pcore_turn env ev)"
proof (rule stepsI)
  fix s :: "('a, 'b, 'c, 'd) pcore"
  have "store_grows env s (snd (pcore_select env ev s))" by (rule stepsD [OF pcore_select_grows])
  then show "store_grows env s (snd (pcore_turn env ev s))"
    using storing.evo_trans [OF _ pcore_cleanup_grows]
    by (auto simp: pcore_turn_def pcore_after_def split: pcore_event.split prod.split res.split dag_error.split)
qed

lemma pcore_run_grows: "store_grows env s (pcore_run env evs s)"
proof (induction evs arbitrary: s)
  case Nil
  then show ?case by (simp add: storing.evo_refl)
next
  case (Cons ev evs)
  have "store_grows env s (snd (pcore_turn env ev s))" by (rule stepsD [OF pcore_turn_grows])
  then show ?case using Cons.IH storing.evo_trans by (fastforce split: prod.split res.split)
qed

end
