(* ===== verification/Primary_Tasks.thy ===== *)
theory Primary_Tasks
  imports Primary_Core Network
begin

text \<open>
  The other tasks of the primary: the transaction intake and batch maker
  (src/primary/src/worker.rs, batch_maker.rs), the header proposer (proposer.rs), the garbage
  collector (garbage_collector.rs), the helper that answers certificate requests (helper.rs),
  the payload receiver (payload_receiver.rs) and the network handlers (primary.rs). The value
  \<^verbatim>\<open>bcs::serialized_size\<close> returns is the length of the encoding \<open>bcs\<close> gives.
\<close>

section \<open>Transaction intake\<close>

text \<open>\<^verbatim>\<open>TxReceiverHandler::dispatch\<close>: the queue is the batch maker's channel.\<close>

definition tx_dispatch :: "(bytes \<Rightarrow> 'tx option) \<Rightarrow> bytes \<Rightarrow> ('tx list, 'e, unit) handler" where
  "tx_dispatch from_bytes message = (\<lambda>queue.
     case from_bytes message of
       Some txn \<Rightarrow> (Ok (), queue @ [txn])
     | None \<Rightarrow> (Ok (), queue))"

section \<open>Batch maker\<close>

definition serialized_len :: "('tx \<Rightarrow> u8 list) \<Rightarrow> 'tx \<Rightarrow> usize" where
  "serialized_len bcs tx = length (bcs tx)"

record 'tx batch_maker =
  bm_batch_size :: usize
  bm_current_batch :: "'tx list"
  bm_current_batch_size :: usize
  bm_sent :: "'tx list list"

definition batch_maker_new :: "usize \<Rightarrow> 'tx batch_maker" where
  "batch_maker_new batch_size = \<lparr>bm_batch_size = batch_size, bm_current_batch = [], bm_current_batch_size = 0, bm_sent = []\<rparr>"

definition batch_seal :: "'tx batch_maker \<Rightarrow> 'tx batch_maker" where
  "batch_seal b = b\<lparr>bm_current_batch := [], bm_current_batch_size := 0,
     bm_sent := bm_sent b @ [bm_current_batch b]\<rparr>"

datatype 'tx batch_event = RxTransaction 'tx | BatchTimer

definition batch_turn :: "('tx \<Rightarrow> u8 list) \<Rightarrow> 'tx batch_event \<Rightarrow> 'tx batch_maker \<Rightarrow> 'tx batch_maker" where
  "batch_turn bcs ev b =
     (case ev of
        RxTransaction transaction \<Rightarrow>
          let b' = b\<lparr>bm_current_batch_size := add64 (bm_current_batch_size b) (serialized_len bcs transaction),
                     bm_current_batch := bm_current_batch b @ [transaction]\<rparr>
          in if bm_current_batch_size b' \<ge> bm_batch_size b' then batch_seal b' else b'
      | BatchTimer \<Rightarrow> if bm_current_batch b \<noteq> [] then batch_seal b else b)"

section \<open>Header proposer\<close>

record 'tx pproposer =
  pp_name :: public_key
  pp_header_size :: usize
  pp_round :: u64
  pp_txns :: "'tx list"
  pp_payload_size :: usize
  pp_sent :: "'tx header list"

definition pproposer_new :: "public_key \<Rightarrow> usize \<Rightarrow> 'tx pproposer" where
  "pproposer_new name header_size = \<lparr>pp_name = name, pp_header_size = header_size, pp_round = 1,
     pp_txns = [], pp_payload_size = 0, pp_sent = []\<rparr>"

definition make_header :: "('pk, 's) runtime \<Rightarrow> ('tx \<Rightarrow> u8 list) \<Rightarrow> 'tx pproposer \<Rightarrow> 'tx pproposer" where
  "make_header E bcs p = p\<lparr>pp_txns := [],
     pp_sent := pp_sent p @ [header_new E bcs (pp_name p) (pp_round p) (pp_txns p)]\<rparr>"

text \<open>
  One turn of \<^verbatim>\<open>run\<close>: the check at the top with \<open>timer_expired\<close>, then the branch
  of \<^verbatim>\<open>select!\<close>: \<open>Some\<close> transactions from the batch maker, or the timer.
\<close>

definition pproposer_turn ::
  "('pk, 's) runtime \<Rightarrow> ('tx \<Rightarrow> u8 list) \<Rightarrow> bool \<times> 'tx list option \<Rightarrow> 'tx pproposer \<Rightarrow> 'tx pproposer" where
  "pproposer_turn E bcs = (\<lambda>(timer_expired, received) p.
     let enough_digests = pp_payload_size p \<ge> pp_header_size p;
         p1 = (if timer_expired \<and> pp_payload_size p > 0 \<or> enough_digests
               then (make_header E bcs p)\<lparr>pp_payload_size := 0\<rparr> else p)
     in case received of
          Some transactions \<Rightarrow>
            p1\<lparr>pp_payload_size := add64 (pp_payload_size p1)
                 (sum_list (map (serialized_len bcs) transactions) mod 2 ^ 64),
               pp_txns := pp_txns p1 @ transactions\<rparr>
        | None \<Rightarrow> p1)"

section \<open>Garbage collector\<close>

datatype primary_worker_message = Synchronize "digest list" public_key | WCleanup u64

datatype 's gc_effect =
  GcLoopback "'s certificate"
| GcSetRound u64
| GcBroadcast "socket_addr list" primary_worker_message

record 's garbage_collector =
  gc_addresses :: "socket_addr list"
  gc_last_committed_round :: u64
  gc_trace :: "'s gc_effect list"

definition gc_spawn :: "public_key \<Rightarrow> 'pk committee \<Rightarrow> ('e, 's garbage_collector) res" where
  "gc_spawn name C =
     (case our_workers C name of
        Ok ws \<Rightarrow> Ok \<lparr>gc_addresses = map primary_to_worker ws, gc_last_committed_round = 0, gc_trace = []\<rparr>
      | _ \<Rightarrow> Panic ''Our public key or worker id is not in the committee'')"

text \<open>One certificate from the consensus, with the store as it is at that moment.\<close>

definition gc_turn ::
  "('pk, 's) runtime \<Rightarrow> 'db rocksdb \<Rightarrow> 'db store \<times> 's certificate \<Rightarrow>
   ('s garbage_collector, dag_error, unit) handler" where
  "gc_turn E D = (\<lambda>(st, certificate) g.
     case store_read D (to_vec (certificate_digest E certificate)) st of
       Inl _ \<Rightarrow> (Panic ''Failed to read from store'', g)
     | Inr found \<Rightarrow>
         let g1 = (if found = None then g\<lparr>gc_trace := gc_trace g @ [GcLoopback certificate]\<rparr> else g);
             round = cert_round certificate
         in (Ok (),
             if round > gc_last_committed_round g1
             then g1\<lparr>gc_last_committed_round := round,
                     gc_trace := gc_trace g1 @ [GcSetRound round, GcBroadcast (gc_addresses g1) (WCleanup round)]\<rparr>
             else g1))"

section \<open>Helper and payload receiver\<close>

text \<open>
  One request for certificates: the messages sent. A request from outside the committee is
  ignored, a certificate that cannot be decoded is a panic, a failing read is skipped.
\<close>

fun helper_replies ::
  "'db rocksdb \<Rightarrow> (val \<Rightarrow> 's certificate option) \<Rightarrow> 'db store \<Rightarrow> digest list \<Rightarrow> ('e, ('s, 'tx) primary_message list) res" where
  "helper_replies D de st [] = Ok []"
| "helper_replies D de st (digest # digests) =
     (case store_read D (to_vec digest) st of
        Inr (Some data) \<Rightarrow>
          (case de data of
             None \<Rightarrow> Panic ''Failed to deserialize our own certificate''
           | Some certificate \<Rightarrow>
               bind_r (helper_replies D de st digests) (\<lambda>ms. Ok (PmCertificate certificate # ms)))
      | Inr None \<Rightarrow> helper_replies D de st digests
      | Inl _ \<Rightarrow> helper_replies D de st digests)"

definition phelper_turn ::
  "'db rocksdb \<Rightarrow> (val \<Rightarrow> 's certificate option) \<Rightarrow> 'pk committee \<Rightarrow> 'db store \<Rightarrow> digest list \<times> public_key \<Rightarrow>
   ('e, (socket_addr \<times> ('s, 'tx) primary_message) list) res" where
  "phelper_turn D de C st = (\<lambda>(digests, origin).
     case committee_primary C origin of
       Ok x \<Rightarrow> bind_r (helper_replies D de st digests) (\<lambda>ms. Ok (map (\<lambda>m. (primary_to_primary x, m)) ms))
     | _ \<Rightarrow> Ok [])"

definition payload_receiver_turn :: "'db rocksdb \<Rightarrow> digest \<times> worker_id \<Rightarrow> 'db store \<Rightarrow> 'db store" where
  "payload_receiver_turn D = (\<lambda>(digest, worker_id) st.
     snd (store_write D (digest_bytes digest @ u32_to_le_bytes worker_id) [] st))"

section \<open>Network handlers\<close>

record ('s, 'tx) primary_inbox =
  tx_primary_messages :: "('s, 'tx) primary_message list"
  tx_cert_requests :: "(digest list \<times> public_key) list"
  pi_acks :: nat

definition primary_dispatch ::
  "(bytes \<Rightarrow> ('s, 'tx) primary_message option) \<Rightarrow> bytes \<Rightarrow> (('s, 'tx) primary_inbox, dag_error, unit) handler" where
  "primary_dispatch de serialized = (\<lambda>i.
     let i1 = i\<lparr>pi_acks := Suc (pi_acks i)\<rparr> in
     case de serialized of
       None \<Rightarrow> (Err DagSerializationError, i1)
     | Some (PmCertificatesRequest missing requestor) \<Rightarrow>
         (Ok (), i1\<lparr>tx_cert_requests := tx_cert_requests i1 @ [(missing, requestor)]\<rparr>)
     | Some request \<Rightarrow> (Ok (), i1\<lparr>tx_primary_messages := tx_primary_messages i1 @ [request]\<rparr>))"

datatype worker_primary_message = OurBatch digest worker_id | OthersBatch digest worker_id

record digest_inbox =
  tx_our_digests :: "(digest \<times> worker_id) list"
  tx_others_digests :: "(digest \<times> worker_id) list"

definition worker_message_dispatch ::
  "(bytes \<Rightarrow> worker_primary_message option) \<Rightarrow> bytes \<Rightarrow> (digest_inbox, dag_error, unit) handler" where
  "worker_message_dispatch de serialized = (\<lambda>i.
     case de serialized of
       None \<Rightarrow> (Err DagSerializationError, i)
     | Some (OurBatch digest worker_id) \<Rightarrow>
         (Ok (), i\<lparr>tx_our_digests := tx_our_digests i @ [(digest, worker_id)]\<rparr>)
     | Some (OthersBatch digest worker_id) \<Rightarrow>
         (Ok (), i\<lparr>tx_others_digests := tx_others_digests i @ [(digest, worker_id)]\<rparr>))"

section \<open>Forwarding contracts\<close>

definition batch_takes :: "'tx batch_event \<Rightarrow> 'tx list" where
  "batch_takes ev = (case ev of RxTransaction t \<Rightarrow> [t] | BatchTimer \<Rightarrow> [])"

interpretation batching: forwarding_task "batch_turn bcs" batch_takes bm_current_batch "\<lambda>b. concat (bm_sent b)"
  for bcs :: "'tx \<Rightarrow> u8 list"
  by unfold_locales
    (auto simp: batch_turn_def batch_seal_def batch_takes_def Let_def split: batch_event.split)

definition proposer_takes :: "bool \<times> 'tx list option \<Rightarrow> 'tx list" where
  "proposer_takes ev = (case snd ev of Some ts \<Rightarrow> ts | None \<Rightarrow> [])"

lemma h_payload_header_new [simp]: "h_payload (header_new E bcs a r p) = p"
  by (simp add: header_new_def Let_def)

interpretation proposing: forwarding_task "pproposer_turn E bcs" proposer_takes pp_txns
    "\<lambda>p. concat (map h_payload (pp_sent p))"
  for E :: "('pk, 's) runtime" and bcs :: "'tx \<Rightarrow> u8 list"
  by unfold_locales
    (auto simp: pproposer_turn_def make_header_def proposer_takes_def Let_def split: option.split prod.split)

interpretation intake: forwarding_pipeline "batch_turn bcs" batch_takes bm_current_batch "\<lambda>b. concat (bm_sent b)"
    "pproposer_turn E bcs" proposer_takes pp_txns "\<lambda>p. concat (map h_payload (pp_sent p))"
  for bcs :: "'tx \<Rightarrow> u8 list" and E :: "('pk, 's) runtime"
  by unfold_locales

section \<open>Batches\<close>

text \<open>
  What the batch maker keeps: the size counter is the (wrapped) size of the open batch; every
  prefix of the open batch, and every proper prefix of a sealed one, is below the limit; no
  empty batch is sealed.
\<close>

definition batch_bytes :: "('tx \<Rightarrow> u8 list) \<Rightarrow> 'tx list \<Rightarrow> usize" where
  "batch_bytes bcs txs = sum_list (map (serialized_len bcs) txs) mod 2 ^ 64"

definition batch_ok :: "('tx \<Rightarrow> u8 list) \<Rightarrow> 'tx batch_maker \<Rightarrow> bool" where
  "batch_ok bcs b \<longleftrightarrow>
     bm_current_batch_size b = batch_bytes bcs (bm_current_batch b) \<and>
     (\<forall>n \<in> {1..length (bm_current_batch b)}. batch_bytes bcs (take n (bm_current_batch b)) < bm_batch_size b) \<and>
     (\<forall>batch \<in> set (bm_sent b). batch \<noteq> [] \<and>
        (\<forall>n \<in> {1..<length batch}. batch_bytes bcs (take n batch) < bm_batch_size b))"

lemma batch_bytes_snoc: "add64 (batch_bytes bcs xs) (serialized_len bcs x) = batch_bytes bcs (xs @ [x])"
  by (simp add: add64_def batch_bytes_def mod_add_left_eq)

lemma batch_ok_seal:
  assumes "bm_current_batch_size b = batch_bytes bcs (bm_current_batch b)" "bm_current_batch b \<noteq> []"
    and "\<forall>n \<in> {1..<length (bm_current_batch b)}. batch_bytes bcs (take n (bm_current_batch b)) < bm_batch_size b"
    and "\<forall>batch \<in> set (bm_sent b). batch \<noteq> [] \<and>
        (\<forall>n \<in> {1..<length batch}. batch_bytes bcs (take n batch) < bm_batch_size b)"
  shows "batch_ok bcs (batch_seal b)"
  using assms by (auto simp: batch_ok_def batch_seal_def batch_bytes_def)

interpretation batch_bounds: task "batch_turn bcs" "batch_ok bcs" for bcs :: "'tx \<Rightarrow> u8 list"
proof
  fix ev :: "'tx batch_event" and b :: "'tx batch_maker"
  assume ok: "batch_ok bcs b"
  show "batch_ok bcs (batch_turn bcs ev b)"
  proof (cases ev)
    case (RxTransaction t)
    let ?b = "b\<lparr>bm_current_batch_size := add64 (bm_current_batch_size b) (serialized_len bcs t),
        bm_current_batch := bm_current_batch b @ [t]\<rparr>"
    have size: "bm_current_batch_size ?b = batch_bytes bcs (bm_current_batch ?b)"
      using ok by (simp add: batch_bytes_snoc batch_ok_def)
    have prefixes: "\<forall>n \<in> {1..<length (bm_current_batch ?b)}. batch_bytes bcs (take n (bm_current_batch ?b)) < bm_batch_size ?b"
      using ok by (auto simp: batch_ok_def)
    have sent: "\<forall>batch \<in> set (bm_sent ?b). batch \<noteq> [] \<and>
        (\<forall>n \<in> {1..<length batch}. batch_bytes bcs (take n batch) < bm_batch_size ?b)"
      using ok by (simp add: batch_ok_def)
    show ?thesis
    proof (cases "bm_current_batch_size ?b \<ge> bm_batch_size ?b")
      case True
      moreover have "batch_ok bcs (batch_seal ?b)" by (rule batch_ok_seal [OF size _ prefixes sent]) simp
      ultimately show ?thesis using RxTransaction by (simp add: batch_turn_def Let_def)
    next
      case False
      have "batch_bytes bcs (take n (bm_current_batch ?b)) < bm_batch_size ?b"
        if "n \<in> {1..length (bm_current_batch ?b)}" for n
      proof (cases "n = length (bm_current_batch ?b)")
        case True
        then show ?thesis using False size by simp
      next
        case less: False
        then show ?thesis using that prefixes by auto
      qed
      then have "batch_ok bcs ?b" using size sent by (simp add: batch_ok_def)
      then show ?thesis using RxTransaction False by (simp add: batch_turn_def Let_def)
    qed
  next
    case BatchTimer
    then show ?thesis using ok
      by (auto simp: batch_turn_def intro!: batch_ok_seal) (auto simp: batch_ok_def)
  qed
qed

lemma batch_ok_new: "batch_ok bcs (batch_maker_new batch_size)"
  by (simp add: batch_ok_def batch_maker_new_def batch_bytes_def)

section \<open>Headers\<close>

definition headers_signed :: "('pk, 's) runtime \<Rightarrow> ('tx \<Rightarrow> u8 list) \<Rightarrow> 'tx pproposer \<Rightarrow> bool" where
  "headers_signed E bcs p \<longleftrightarrow> pp_round p = 1 \<and>
     (\<forall>h \<in> set (pp_sent p). h = header_new E bcs (pp_name p) 1 (h_payload h))"

lemma headers_signed_turn: "headers_signed E bcs p \<Longrightarrow> headers_signed E bcs (pproposer_turn E bcs ev p)"
  by (auto simp: headers_signed_def pproposer_turn_def make_header_def Let_def split: option.split prod.split)

interpretation header_making: task "pproposer_turn E bcs" "headers_signed E bcs"
  for E :: "('pk, 's) runtime" and bcs :: "'tx \<Rightarrow> u8 list"
  by unfold_locales (rule headers_signed_turn)

lemma pp_name_turn [simp]: "pp_name (pproposer_turn E bcs ev p) = pp_name p"
  by (auto simp: pproposer_turn_def make_header_def Let_def split: option.split prod.split)

lemma pp_name_run [simp]: "pp_name (task_run (pproposer_turn E bcs) evs p) = pp_name p"
  by (induction evs arbitrary: p) simp_all

text \<open>A header made by a member whose signatures verify passes its own checks.\<close>

lemma header_new_verify:
  assumes "0 < stake_of C name" "length (ed25519_sign E (digest_bytes (h_id (header_new E bcs name r p)))) = 64"
    and "ed25519_verify E (ed25519_sign E (digest_bytes (h_id (header_new E bcs name r p))))
      (digest_bytes (h_id (header_new E bcs name r p))) (key_bytes name)"
  shows "header_verify E bcs C (header_new E bcs name r p) = Ok ()"
proof -
  let ?h = "header_new E bcs name r p"
  have "h_signature ?h = signature_new E (h_id ?h)" "h_author ?h = name"
    by (simp_all add: header_new_def Let_def)
  then show ?thesis
    using assms header_new_digest [of E bcs name r p]
    by (simp add: header_verify_def signature_verify_def flatten_signature_new)
qed

section \<open>Garbage collection\<close>

fun gc_run ::
  "('pk, 's) runtime \<Rightarrow> 'db rocksdb \<Rightarrow> ('db store \<times> 's certificate) list \<Rightarrow> 's garbage_collector \<Rightarrow> 's garbage_collector" where
  "gc_run E D [] g = g"
| "gc_run E D (x # xs) g =
     (case gc_turn E D x g of (Ok _, g') \<Rightarrow> gc_run E D xs g' | (_, g') \<Rightarrow> g')"

definition gc_rounds :: "'s gc_effect list \<Rightarrow> u64 list" where
  "gc_rounds tr = List.map_filter (\<lambda>e. case e of GcSetRound r \<Rightarrow> Some r | _ \<Rightarrow> None) tr"

definition gc_ok :: "'s garbage_collector \<Rightarrow> bool" where
  "gc_ok g \<longleftrightarrow> sorted_wrt (<) (gc_rounds (gc_trace g)) \<and>
     gc_last_committed_round g = last (0 # gc_rounds (gc_trace g)) \<and> 0 \<notin> set (gc_rounds (gc_trace g))"

lemma gc_rounds_append [simp]: "gc_rounds (xs @ ys) = gc_rounds xs @ gc_rounds ys"
  by (simp add: gc_rounds_def List.map_filter_def)

lemma gc_rounds_simps [simp]:
  "gc_rounds [] = []" "gc_rounds (GcSetRound r # tr) = r # gc_rounds tr"
  "gc_rounds (GcLoopback c # tr) = gc_rounds tr" "gc_rounds (GcBroadcast a m # tr) = gc_rounds tr"
  by (simp_all add: gc_rounds_def List.map_filter_def)

lemma sorted_wrt_last:
  fixes xs :: "nat list"
  assumes "sorted_wrt (<) xs" "0 \<notin> set xs" "last (0 # xs) < r"
  shows "sorted_wrt (<) (xs @ [r])"
  using assms by (induction xs) (auto split: if_splits, (metis last_in_set order.strict_trans)+)

lemma gc_turn_ok: "gc_ok g \<Longrightarrow> gc_ok (snd (gc_turn E D x g))"
  using sorted_wrt_last
  by (auto simp: gc_turn_def gc_ok_def Let_def split: prod.split sum.split)

lemma gc_run_ok: "gc_ok g \<Longrightarrow> gc_ok (gc_run E D xs g)"
proof (induction xs arbitrary: g)
  case (Cons x xs)
  then show ?case using gc_turn_ok [of g E D x]
    by (auto split: prod.split res.split)
qed simp

end
