(* ===== verification/Primary_Properties.thy ===== *)
theory Primary_Properties
  imports Primary_Proofs Primary_Tasks Instance
begin

text \<open>
  The properties of the mempool side of a node, with their instances on the four-member
  committee.
\<close>

section \<open>Certificates\<close>

text \<open>
  C15. Certification: once members with the validity threshold of stake have voted for a header,
  in whatever order and with whatever repetitions, the aggregator has produced exactly one
  certificate; it names the header and, the votes being validly signed, passes the
  verification every other node runs.
\<close>

theorem header_is_certified_once:
  fixes E :: "('pk::{linorder, ab_group_add}, 's::ab_group_add) runtime"
  assumes C: "small_committee C" and E: "bls_additive E"
    and votes: "pv_author ` set votes \<subseteq> members C"
      "\<And>v. v \<in> set votes \<Longrightarrow> pv_id v = header_digest E bcs header \<and> pv_round v = h_round header \<and>
         pv_origin v = h_author header \<and>
         bls_verify_batch E (digest_bytes (pvote_digest E v)) (member_key C (pv_author v)) (pv_signature v)"
    and enough: "validity_threshold C \<le> sum (stake_of C) (pv_author ` set votes)" "0 < validity_threshold C"
  shows "\<exists>cert. va_feed E bcs C header votes (votes_aggregator_new E) = [cert] \<and>
    certificate_verify E C cert = Ok () \<and> cert_id cert = header_digest E bcs header \<and>
    cert_round cert = h_round header \<and> cert_origin cert = h_author header"
proof (rule va_feed_certificate [OF C E votes(1) refl])
  show "\<forall>v \<in> set votes. bls_verify_batch E
      (digest_bytes (certificate_digest E (va_certificate E bcs header (votes_aggregator_new E))))
      (member_key C (pv_author v)) (pv_signature v)"
  proof
    fix v assume "v \<in> set votes"
    with votes(2) [of v] show "bls_verify_batch E
      (digest_bytes (certificate_digest E (va_certificate E bcs header (votes_aggregator_new E))))
      (member_key C (pv_author v)) (pv_signature v)"
      using pvote_certificate_digest [of v "va_certificate E bcs header (votes_aggregator_new E)" E]
      by (simp add: va_certificate_def)
  qed
qed (use enough in \<open>simp_all add: va_inv_new, simp_all add: votes_aggregator_new_def\<close>)

definition toy_header :: "u8 header" where
  "toy_header = header_new toy_runtime (\<lambda>n. [n]) me 1 [42]"

definition toy_pvote :: "public_key \<Rightarrow> int \<Rightarrow> int pvote" where
  "toy_pvote a sg = \<lparr>pv_id = header_digest toy_runtime (\<lambda>n. [n]) toy_header, pv_round = h_round toy_header,
     pv_origin = h_author toy_header, pv_author = a, pv_signature = sg\<rparr>"

lemma quartet_members: "members quartet = {PublicKey [1], PublicKey [2], PublicKey [3], PublicKey [4]}"
  by (simp add: members_def quartet_def me_def)

lemma quartet_stake: "a \<in> members quartet \<Longrightarrow> stake_of quartet a = 1"
  unfolding quartet_members by (elim insertE emptyE) (simp_all add: stake_of_def authority_of_def quartet_def me_def toy_authority_def)

lemma quartet_small: "small_committee quartet"
proof -
  have "committee_wf quartet"
    by (simp add: committee_wf_def quartet_def toy_authority_def me_def)
  moreover have "committee_size quartet = 4" by (simp add: committee_size_def quartet_def)
  ultimately show ?thesis by (simp add: small_committee_def quartet_stake)
qed

lemma toy_additive: "bls_additive toy_runtime"
  by (simp add: bls_additive_def toy_runtime_def)

lemma quartet_keys:
  "member_key quartet (PublicKey [1]) = 7" "member_key quartet (PublicKey [3]) = 9"
  by code_simp+

theorem header_is_certified_once_witness:
  "\<exists>cert. va_feed toy_runtime (\<lambda>n. [n]) quartet toy_header
      [toy_pvote (PublicKey [3]) 9, toy_pvote (PublicKey [3]) 9, toy_pvote (PublicKey [1]) 7]
      (votes_aggregator_new toy_runtime) = [cert] \<and>
    certificate_verify toy_runtime quartet cert = Ok () \<and> cert_origin cert = me"
proof -
  let ?votes = "[toy_pvote (PublicKey [3]) 9, toy_pvote (PublicKey [3]) 9, toy_pvote (PublicKey [1]) 7]"
  have authors: "pv_author ` set ?votes = {PublicKey [3], PublicKey [1]}" by (auto simp: toy_pvote_def)
  have t: "validity_threshold quartet = 2" by (simp add: validity_threshold_def quartet_def)
  have stake: "sum (stake_of quartet) {PublicKey [3], PublicKey [1]} = 2"
    by (simp add: quartet_stake quartet_members)
  have "\<exists>cert. va_feed toy_runtime (\<lambda>n. [n]) quartet toy_header ?votes (votes_aggregator_new toy_runtime) = [cert] \<and>
    certificate_verify toy_runtime quartet cert = Ok () \<and> cert_id cert = header_digest toy_runtime (\<lambda>n. [n]) toy_header \<and>
    cert_round cert = h_round toy_header \<and> cert_origin cert = h_author toy_header"
  proof (rule header_is_certified_once [OF quartet_small toy_additive])
    show "pv_author ` set ?votes \<subseteq> members quartet" unfolding authors by (simp add: quartet_members)
    show "pv_id v = header_digest toy_runtime (\<lambda>n. [n]) toy_header \<and> pv_round v = h_round toy_header \<and>
         pv_origin v = h_author toy_header \<and>
         bls_verify_batch toy_runtime (digest_bytes (pvote_digest toy_runtime v)) (member_key quartet (pv_author v)) (pv_signature v)"
      if "v \<in> set ?votes" for v
    proof -
      have "bls_verify_batch toy_runtime m k sg = (k = sg)" for m k sg by (simp add: toy_runtime_def)
      with that show ?thesis by (auto simp: toy_pvote_def quartet_keys)
    qed
    show "validity_threshold quartet \<le> sum (stake_of quartet) (pv_author ` set ?votes)" unfolding authors by (simp add: t stake)
    show "0 < validity_threshold quartet" by (simp add: t)
  qed
  moreover have "h_author toy_header = me" by (simp add: toy_header_def header_new_def Let_def)
  ultimately show ?thesis by auto
qed

section \<open>The core\<close>

text \<open>
  Availability: in every run of the mempool core each certificate handed to the consensus,
  and the header of each vote sent, was written to the store first, and a certificate handed
  over can be read back by its digest ever after.
\<close>

lemma pcore_stores_before_it_speaks:
  assumes "kv_laws (pe_rocksdb env)" "s = pcore_run env evs (pcore_new name C st gc_depth)"
  shows "stored_first env {} (pc_trace s) \<and>
    (\<forall>c. PToConsensus c \<in> set (pc_trace s) \<longrightarrow>
      (\<exists>bytes. store_read (pe_rocksdb env) (to_vec (certificate_digest (pe_runtime env) c)) (pc_store s) = Inr (Some bytes)))"
proof -
  have "stored_first env {} (pc_trace (pcore_new name C st gc_depth))" "all_stored env (pcore_new name C st gc_depth)"
    by (simp_all add: pcore_new_def all_stored_def)
  then have ok: "stored_first env {} (pc_trace s)" "all_stored env s"
    using assms pcore_run_grows [of env "pcore_new name C st gc_depth" evs] by (auto simp: store_grows_def)
  moreover have "\<exists>bytes. store_read (pe_rocksdb env) (to_vec (certificate_digest (pe_runtime env) c)) (pc_store s) = Inr (Some bytes)"
    if c: "PToConsensus c \<in> set (pc_trace s)" for c
  proof -
    obtain xs ys where "pc_trace s = xs @ PToConsensus c # ys" using c by (meson split_list)
    then have "PStored (to_vec (certificate_digest (pe_runtime env) c)) (pe_ser_certificate env c) \<in> set (pc_trace s)"
      using ok(1) by (auto simp: stored_first_append backed_def)
    then show ?thesis using ok(2) by (auto simp: all_stored_def)
  qed
  ultimately show ?thesis by blast
qed

definition toy_penv :: "(int, int, u8, key \<rightharpoonup> val) primary_env" where
  "toy_penv = \<lparr>pe_runtime = toy_runtime, pe_rocksdb = toy_db, pe_bcs = (\<lambda>n. [n]),
     pe_ser_header = (\<lambda>h. [1]), pe_ser_certificate = (\<lambda>c. [2])\<rparr>"

definition toy_pcert :: "int certificate" where
  "toy_pcert = \<lparr>cert_id = Digest [5], cert_round = 1, cert_origin = me, cert_votes = (3, 99)\<rparr>"

definition toy_pcore :: "(int, int, u8, key \<rightharpoonup> val) pcore" where
  "toy_pcore = pcore_new me quartet (store_new Map.empty) 50"

lemma toy_kv: "kv_laws (pe_rocksdb toy_penv)"
  by (simp add: kv_laws_def toy_penv_def toy_db_def)

text \<open>
  C20. Certificates from peers are not checked: the verification job sends a certificate on to
  the core whether or not its signature verifies, and the core hands it to the consensus; the
  two messages that carry one differ only in that the job is skipped for the second.
\<close>

theorem bad_certificates_reach_consensus:
  fixes env :: "('pk::{linorder, ab_group_add}, 's::ab_group_add, 'tx, 'db) primary_env"
  assumes "certificate_verify (pe_runtime env) (pc_committee s) c = Err e"
  shows "verify_job (pe_runtime env) (pc_committee s) c = [PmVerifiedCertificate c :: ('s, 'tx) primary_message] \<and>
    PToConsensus c \<in> set (pc_trace (snd (pcore_turn env (RxPrimaries (PmVerifiedCertificate c)) s)))"
proof -
  let ?k = "to_vec (certificate_digest (pe_runtime env) c)"
  have "pcore_select env (RxPrimaries (PmVerifiedCertificate c)) s =
      pc_emit (PToConsensus c) (snd (pc_write env ?k (pe_ser_certificate env c) s))"
    using pc_write_ok [of env ?k "pe_ser_certificate env c" s]
    unfolding pcore_select_def pcore_dispatch_def process_certificate_def then_m_def
    by (cases "pc_write env ?k (pe_ser_certificate env c) s") (simp add: bind_m_Ok)
  then show ?thesis
    using assms by (simp add: verify_job_def pcore_turn_def pcore_after_def pc_emit_def modify_m_def pcore_cleanup_def Let_def)
qed

theorem bad_certificates_reach_consensus_witness:
  "certificate_verify toy_runtime quartet toy_pcert = Err DagInvalidBlsSignature \<and>
   PToConsensus toy_pcert \<in> set (pc_trace (snd (pcore_turn toy_penv (RxPrimaries (PmVerifiedCertificate toy_pcert)) toy_pcore)))"
proof -
  have "certificate_verify toy_runtime quartet toy_pcert = Err DagInvalidBlsSignature" by code_simp
  with bad_certificates_reach_consensus [of toy_penv toy_pcore toy_pcert]
  show ?thesis by (simp add: toy_penv_def toy_pcore_def pcore_new_def)
qed

text \<open>
  C21. A header that is echoed back to its author kills the author's mempool core: while the
  header is being certified and the author's own vote is counted, receiving the header from
  the network makes the core vote for it again and panic on the refusal of the second vote.
\<close>

theorem echoed_header_panics:
  fixes env :: "('pk::{linorder, ab_group_add}, 's::ab_group_add, 'tx, 'db) primary_env"
  assumes C: "small_committee (pc_committee s)" "pc_name s \<in> members (pc_committee s)"
    and h: "h_author h = pc_name s" "pc_gc_round s \<le> h_round h"
      "header_verify (pe_runtime env) (pe_bcs env) (pc_committee s) h = Ok ()"
    and p: "processing_headers s (h_id h) = Some h" "processing_vote_aggregators s (h_id h) = Some a"
      "pc_name s \<in> va_used a"
  shows "fst (pcore_turn env (RxPrimaries (PmHeader h)) s) = Panic ''Failed to process our own vote''"
proof -
  let ?s = "snd (pc_write env (to_vec (h_id h)) (pe_ser_header env h) s)"
  let ?v = "pvote_new (pe_runtime env) h (pc_name s)"
  have v: "pv_origin ?v = pc_name s" "pv_id ?v = h_id h" "pv_author ?v = pc_name s"
    using h by (simp_all add: pvote_new_def Let_def)
  have app: "va_append (pe_runtime env) (pe_bcs env) ?v (pc_committee s) h a = (Err (DagAuthorityReuse (pc_name s)), a)"
    using va_append_eq [OF C(1), of ?v "pe_runtime env" "pe_bcs env" h a] C(2) p(3) v by simp
  have pv: "fst (process_vote env ?v ?s) = Err (DagAuthorityReuse (pc_name s))"
    using p v app by (simp add: process_vote_def bind_m_def gets_m_def on_votes_aggregator_def pc_write_trace)
  have "process_header env h s = expect_m ''Failed to process our own vote'' (process_vote env ?v) ?s"
    using pc_write_ok [of env "to_vec (h_id h)" "pe_ser_header env h" s] v pc_write_trace(1) [of env "to_vec (h_id h)" "pe_ser_header env h" s]
    unfolding process_header_def then_m_def [of "pc_write _ _ _"]
    by (cases "pc_write env (to_vec (h_id h)) (pe_ser_header env h) s")
      (simp add: bind_m_Ok bind_m_def [of "gets_m id"] gets_m_def Let_def)
  with pv have "fst (process_header env h s) = Panic ''Failed to process our own vote''"
    by (cases "process_vote env ?v ?s") (simp add: expect_m_def)
  then show ?thesis using h
    by (cases "process_header env h s")
      (simp add: pcore_turn_def pcore_after_def pcore_select_def pcore_dispatch_def sanitize_header_def monad_defs)
qed

definition toy_proposed :: "(int, int, u8, key \<rightharpoonup> val) pcore" where
  "toy_proposed = pcore_run toy_penv [RxHeader toy_header] toy_pcore"

theorem echoed_header_panics_witness:
  "fst (pcore_turn toy_penv (RxPrimaries (PmHeader toy_header)) toy_proposed) = Panic ''Failed to process our own vote''"
proof (rule echoed_header_panics)
  have C: "pc_committee toy_proposed = quartet" "pc_name toy_proposed = me" by code_simp+
  show "small_committee (pc_committee toy_proposed)" "pc_name toy_proposed \<in> members (pc_committee toy_proposed)"
    by (simp_all add: C quartet_small quartet_members) (simp add: me_def)
  show "h_author toy_header = pc_name toy_proposed" by code_simp
  show "pc_gc_round toy_proposed \<le> h_round toy_header" by code_simp
  show "header_verify (pe_runtime toy_penv) (pe_bcs toy_penv) (pc_committee toy_proposed) toy_header = Ok ()" by code_simp
  show "processing_headers toy_proposed (h_id toy_header) = Some toy_header" by code_simp
  show "processing_vote_aggregators toy_proposed (h_id toy_header) =
      Some \<lparr>va_weight = 1, va_votes = [(7, 7)], va_used = {me}, va_agg_sign = 7, va_pk_bit_vec = 1, va_is_qc_sent = False\<rparr>"
    by code_simp
  show "pc_name toy_proposed \<in> va_used \<lparr>va_weight = 1, va_votes = [(7 :: int, 7 :: int)], va_used = {me}, va_agg_sign = 7,
      va_pk_bit_vec = 1, va_is_qc_sent = False\<rparr>" by (simp add: C)
qed

section \<open>Intake\<close>

text \<open>
  No transaction is lost or reordered between the client and a header: what the proposer
  has put into headers, what it still holds, what is queued between the two tasks and what the
  batch maker holds make up exactly the received transactions in their order.
\<close>

lemma transactions_flow_into_headers:
  assumes "concat (map proposer_takes evs2) @ queued = concat (bm_sent (task_run (batch_turn bcs) evs1 (batch_maker_new bsize)))"
  shows "concat (map h_payload (pp_sent (task_run (pproposer_turn E bcs) evs2 (pproposer_new name hsize)))) @
      pp_txns (task_run (pproposer_turn E bcs) evs2 (pproposer_new name hsize)) @ queued @
      bm_current_batch (task_run (batch_turn bcs) evs1 (batch_maker_new bsize)) =
    concat (map batch_takes evs1)"
  by (rule intake.pipeline_run [OF assms]) (simp_all add: batch_maker_new_def pproposer_new_def)

text \<open>
  C19. Batches are bounded: the batch maker never seals an empty batch, every proper prefix of
  a sealed batch is below the configured size (so a batch exceeds it by at most its last
  transaction), and what it still holds is below the size too.
\<close>

theorem batches_are_bounded:
  "batch_ok bcs (task_run (batch_turn bcs) evs (batch_maker_new bsize))"
  by (rule batch_bounds.inv_run [OF batch_ok_new])

text \<open>
  The mempool never leaves round 1: whatever the proposer receives, each header it makes is
  the signed header of its own transactions for round 1, since nothing advances its round.
\<close>

lemma headers_stay_in_round_one:
  "map (\<lambda>h. header_new E bcs name 1 (h_payload h)) (pp_sent (task_run (pproposer_turn E bcs) evs (pproposer_new name hsize))) =
   pp_sent (task_run (pproposer_turn E bcs) evs (pproposer_new name hsize))"
proof -
  have "headers_signed E bcs (pproposer_new name hsize)" by (simp add: headers_signed_def pproposer_new_def)
  then have "headers_signed E bcs (task_run (pproposer_turn E bcs) evs (pproposer_new name hsize))"
    by (rule header_making.inv_run)
  then show ?thesis by (intro map_idI) (simp add: headers_signed_def, simp add: pproposer_new_def)
qed

text \<open>
  Clean-up is monotone: the rounds the garbage collector announces to the primary and its
  workers strictly increase, and the last one is the highest committed round it has seen.
\<close>

theorem gc_rounds_increase:
  assumes "gc_spawn name C = Ok g"
  shows "sorted_wrt (<) (gc_rounds (gc_trace (gc_run E D xs g))) \<and>
    gc_last_committed_round (gc_run E D xs g) = last (0 # gc_rounds (gc_trace (gc_run E D xs g)))"
proof -
  have "gc_ok g" using assms by (auto simp: gc_spawn_def gc_ok_def split: res.splits)
  from gc_run_ok [OF this, of E D xs] show ?thesis by (simp add: gc_ok_def)
qed

theorem gc_rounds_increase_witness:
  "gc_rounds (gc_trace (gc_run toy_runtime toy_db [(store_new Map.empty, toy_pcert), (store_new Map.empty, toy_pcert)]
      \<lparr>gc_addresses = [toy_addr 1], gc_last_committed_round = 0, gc_trace = []\<rparr>)) = [1] \<and>
   gc_last_committed_round (gc_run toy_runtime toy_db [(store_new Map.empty, toy_pcert), (store_new Map.empty, toy_pcert)]
      \<lparr>gc_addresses = [toy_addr 1], gc_last_committed_round = 0, gc_trace = []\<rparr>) = 1"
proof -
  have "gc_spawn me quartet = (Ok \<lparr>gc_addresses = [toy_addr 1], gc_last_committed_round = 0, gc_trace = []\<rparr> :: (unit, int garbage_collector) res)"
    by code_simp
  from gc_rounds_increase [OF this, of toy_runtime toy_db "[(store_new Map.empty, toy_pcert), (store_new Map.empty, toy_pcert)]"]
  have "gc_last_committed_round (gc_run toy_runtime toy_db [(store_new Map.empty, toy_pcert), (store_new Map.empty, toy_pcert)]
      \<lparr>gc_addresses = [toy_addr 1], gc_last_committed_round = 0, gc_trace = []\<rparr>) =
      last (0 # gc_rounds (gc_trace (gc_run toy_runtime toy_db [(store_new Map.empty, toy_pcert), (store_new Map.empty, toy_pcert)]
      \<lparr>gc_addresses = [toy_addr 1], gc_last_committed_round = 0, gc_trace = []\<rparr>)))" by simp
  moreover have "gc_rounds (gc_trace (gc_run toy_runtime toy_db [(store_new Map.empty, toy_pcert), (store_new Map.empty, toy_pcert)]
      \<lparr>gc_addresses = [toy_addr 1], gc_last_committed_round = 0, gc_trace = []\<rparr>)) = [1]" by code_simp
  ultimately show ?thesis by simp
qed

end
