(* ===== verification/Mempool.thy ===== *)
theory Mempool
  imports Primary_Properties
begin

text \<open>
  The mempool of a node as a whole (\<^verbatim>\<open>Primary::spawn\<close>, src/primary/src/primary.rs, and
  \<^verbatim>\<open>Worker::spawn\<close>, src/primary/src/worker.rs): the tasks of the theories \<open>Primary_Core\<close> and
  \<open>Primary_Tasks\<close> joined by the channels the code creates. A channel is the list of what has been sent
  and not yet received. An action is one turn of one task, or a frame from the network; a
  schedule is any list of actions, and an action that finds its channel empty does nothing.
\<close>

section \<open>State and wiring\<close>

record ('pk, 's, 'tx, 'db) mempool_env =
  me_core :: "('pk, 's, 'tx, 'db) primary_env"
  me_from_bytes :: "bytes \<Rightarrow> 'tx option"
  me_de :: "bytes \<Rightarrow> ('s, 'tx) primary_message option"
  me_de_certificate :: "val \<Rightarrow> 's certificate option"

text \<open>
  The channels are \<open>mp_txs\<close> (to the batch maker), \<open>mp_batches\<close> (to the proposer),
  \<open>mp_headers\<close>, \<open>mp_inbox\<close> and \<open>mp_loopback\<close> (to the core) and \<open>mp_consensus\<close> (to the
  consensus); \<open>mp_jobs\<close> are the verifications on the thread pool, \<open>mp_replies\<close> what the
  helper has sent. \<open>mp_received\<close> records the transactions taken from clients, \<open>mp_core_ok\<close>
  and its like whether a task is still running.
\<close>

record ('pk, 's, 'tx, 'db) mempool =
  mp_received :: "'tx list"
  mp_txs :: "'tx list"
  mp_batcher :: "'tx batch_maker"
  mp_batches :: "'tx list list"
  mp_proposer :: "'tx pproposer"
  mp_headers :: "'tx header list"
  mp_inbox :: "('s, 'tx) primary_inbox"
  mp_loopback :: "'s certificate list"
  mp_core :: "('pk, 's, 'tx, 'db) pcore"
  mp_core_ok :: bool
  mp_jobs :: "'s certificate list"
  mp_consensus :: "'s certificate list"
  mp_gc :: "'s garbage_collector"
  mp_gc_ok :: bool
  mp_replies :: "(socket_addr \<times> ('s, 'tx) primary_message) list"
  mp_helper_ok :: bool

definition pworker_spawn :: "public_key \<Rightarrow> worker_id \<Rightarrow> 'pk committee \<Rightarrow> parameters \<Rightarrow> ('e, 'tx batch_maker) res" where
  "pworker_spawn name i C ps =
     (case committee_worker C name i of
        Ok _ \<Rightarrow> Ok (batch_maker_new (p_batch_size ps))
      | _ \<Rightarrow> Panic ''Our public key or worker id is not in the committee'')"

definition primary_spawn ::
  "public_key \<Rightarrow> 'pk committee \<Rightarrow> parameters \<Rightarrow> 'db store \<Rightarrow> ('e, ('pk, 's, 'tx, 'db) mempool) res" where
  "primary_spawn name C ps st =
     (case committee_primary C name of
        Ok _ \<Rightarrow>
          bind_r (pworker_spawn name 0 C ps) (\<lambda>batcher.
          bind_r (gc_spawn name C) (\<lambda>gc.
            Ok \<lparr>mp_received = [], mp_txs = [], mp_batcher = batcher, mp_batches = [],
                mp_proposer = pproposer_new name (p_header_size ps), mp_headers = [],
                mp_inbox = \<lparr>tx_primary_messages = [], tx_cert_requests = [], pi_acks = 0\<rparr>, mp_loopback = [],
                mp_core = pcore_new name C st (p_gc_depth ps), mp_core_ok = True, mp_jobs = [], mp_consensus = [],
                mp_gc = gc, mp_gc_ok = True, mp_replies = [], mp_helper_ok = True\<rparr>))
      | _ \<Rightarrow> Panic ''Our public key or worker id is not in the committee'')"

text \<open>What the effects of a turn of the core put into channels.\<close>

definition consensus_log :: "('s, 'tx) pcore_effect list \<Rightarrow> 's certificate list" where
  "consensus_log es = List.map_filter (\<lambda>e. case e of PToConsensus c \<Rightarrow> Some c | _ \<Rightarrow> None) es"

definition job_log :: "('s, 'tx) pcore_effect list \<Rightarrow> 's certificate list" where
  "job_log es = List.map_filter (\<lambda>e. case e of PVerifyJob c \<Rightarrow> Some c | _ \<Rightarrow> None) es"

definition mempool_core_turn ::
  "('pk::{linorder, ab_group_add}, 's::ab_group_add, 'tx, 'db) mempool_env \<Rightarrow> ('s, 'tx) pcore_event \<Rightarrow>
   ('pk, 's, 'tx, 'db) mempool \<Rightarrow> ('pk, 's, 'tx, 'db) mempool" where
  "mempool_core_turn env ev m =
     (case pcore_turn (me_core env) ev (mp_core m) of (r, core) \<Rightarrow>
        let es = drop (length (pc_trace (mp_core m))) (pc_trace core) in
        m\<lparr>mp_core := core, mp_core_ok := (case r of Ok _ \<Rightarrow> True | _ \<Rightarrow> False),
          mp_jobs := mp_jobs m @ job_log es, mp_consensus := mp_consensus m @ consensus_log es\<rparr>)"

section \<open>Actions\<close>

datatype 's mempool_action =
  ClientFrame bytes
| PeerFrame bytes
| BatcherTakes
| BatcherTimer
| ProposerTurn bool bool
| CoreHeader
| CoreMessage
| CoreLoopback
| JobDone nat
| GcTakes "'s certificate"
| HelperTakes

definition batcher_act :: "('pk, 's, 'tx, 'db) mempool_env \<Rightarrow> 'tx batch_event \<Rightarrow> ('pk, 's, 'tx, 'db) mempool \<Rightarrow> ('pk, 's, 'tx, 'db) mempool" where
  "batcher_act env ev m =
     (let b = batch_turn (pe_bcs (me_core env)) ev (mp_batcher m) in
      m\<lparr>mp_batcher := b, mp_batches := mp_batches m @ drop (length (bm_sent (mp_batcher m))) (bm_sent b)\<rparr>)"

definition proposer_act ::
  "('pk, 's, 'tx, 'db) mempool_env \<Rightarrow> bool \<times> 'tx list option \<Rightarrow> ('pk, 's, 'tx, 'db) mempool \<Rightarrow> ('pk, 's, 'tx, 'db) mempool" where
  "proposer_act env ev m =
     (let p = pproposer_turn (pe_runtime (me_core env)) (pe_bcs (me_core env)) ev (mp_proposer m) in
      m\<lparr>mp_proposer := p, mp_headers := mp_headers m @ drop (length (pp_sent (mp_proposer m))) (pp_sent p)\<rparr>)"

text \<open>The garbage collector; its write of the shared round is seen by a running core.\<close>

definition gc_act ::
  "('pk::{linorder, ab_group_add}, 's::ab_group_add, 'tx, 'db) mempool_env \<Rightarrow> 's certificate \<Rightarrow>
   ('pk, 's, 'tx, 'db) mempool \<Rightarrow> ('pk, 's, 'tx, 'db) mempool" where
  "gc_act env c m =
     (case gc_turn (pe_runtime (me_core env)) (pe_rocksdb (me_core env)) (pc_store (mp_core m), c) (mp_gc m) of
        (Ok _, gc) \<Rightarrow>
          fold (\<lambda>e m. case e of
              GcLoopback c \<Rightarrow> m\<lparr>mp_loopback := mp_loopback m @ [c]\<rparr>
            | GcSetRound round \<Rightarrow> if mp_core_ok m then mempool_core_turn env (CommitSeen round) m else m
            | GcBroadcast _ _ \<Rightarrow> m)
            (drop (length (gc_trace (mp_gc m))) (gc_trace gc)) (m\<lparr>mp_gc := gc\<rparr>)
      | (_, gc) \<Rightarrow> m\<lparr>mp_gc := gc, mp_gc_ok := False\<rparr>)"

fun mempool_act ::
  "('pk::{linorder, ab_group_add}, 's::ab_group_add, 'tx, 'db) mempool_env \<Rightarrow> 's mempool_action \<Rightarrow>
   ('pk, 's, 'tx, 'db) mempool \<Rightarrow> ('pk, 's, 'tx, 'db) mempool" where
  "mempool_act env (ClientFrame message) m =
     (let txs = snd (tx_dispatch (me_from_bytes env) message (mp_txs m) :: (unit, unit) res \<times> _) in
      m\<lparr>mp_txs := txs, mp_received := mp_received m @ drop (length (mp_txs m)) txs\<rparr>)"
| "mempool_act env (PeerFrame serialized) m = m\<lparr>mp_inbox := snd (primary_dispatch (me_de env) serialized (mp_inbox m))\<rparr>"
| "mempool_act env BatcherTakes m =
     (case mp_txs m of [] \<Rightarrow> m | t # ts \<Rightarrow> batcher_act env (RxTransaction t) (m\<lparr>mp_txs := ts\<rparr>))"
| "mempool_act env BatcherTimer m = batcher_act env BatchTimer m"
| "mempool_act env (ProposerTurn expired takes) m =
     (if takes then
        (case mp_batches m of [] \<Rightarrow> m | b # bs \<Rightarrow> proposer_act env (expired, Some b) (m\<lparr>mp_batches := bs\<rparr>))
      else proposer_act env (expired, None) m)"
| "mempool_act env CoreHeader m =
     (case mp_headers m of
        h # hs \<Rightarrow> if mp_core_ok m then mempool_core_turn env (RxHeader h) (m\<lparr>mp_headers := hs\<rparr>) else m
      | [] \<Rightarrow> m)"
| "mempool_act env CoreMessage m =
     (case tx_primary_messages (mp_inbox m) of
        x # xs \<Rightarrow> if mp_core_ok m
          then mempool_core_turn env (RxPrimaries x) (m\<lparr>mp_inbox := (mp_inbox m)\<lparr>tx_primary_messages := xs\<rparr>\<rparr>) else m
      | [] \<Rightarrow> m)"
| "mempool_act env CoreLoopback m =
     (case mp_loopback m of
        c # cs \<Rightarrow> if mp_core_ok m then mempool_core_turn env (RxCertificateWaiter c) (m\<lparr>mp_loopback := cs\<rparr>) else m
      | [] \<Rightarrow> m)"
| "mempool_act env (JobDone i) m =
     (if i < length (mp_jobs m) then
        m\<lparr>mp_jobs := take i (mp_jobs m) @ drop (Suc i) (mp_jobs m),
          mp_inbox := (mp_inbox m)\<lparr>tx_primary_messages := tx_primary_messages (mp_inbox m) @
            verify_job (pe_runtime (me_core env)) (pc_committee (mp_core m)) (mp_jobs m ! i)\<rparr>\<rparr>
      else m)"
| "mempool_act env (GcTakes c) m = (if mp_gc_ok m then gc_act env c m else m)"
| "mempool_act env HelperTakes m =
     (case tx_cert_requests (mp_inbox m) of
        [] \<Rightarrow> m
      | request # requests \<Rightarrow>
          if mp_helper_ok m then
            (let m1 = m\<lparr>mp_inbox := (mp_inbox m)\<lparr>tx_cert_requests := requests\<rparr>\<rparr> in
             case phelper_turn (pe_rocksdb (me_core env)) (me_de_certificate env) (pc_committee (mp_core m)) (pc_store (mp_core m)) request
                :: (unit, _) res of
               Ok replies \<Rightarrow> m1\<lparr>mp_replies := mp_replies m @ replies\<rparr>
             | _ \<Rightarrow> m1\<lparr>mp_helper_ok := False\<rparr>)
          else m)"

section \<open>The core inside the mempool is a run of the core\<close>

fun pcore_alive ::
  "('pk::{linorder, ab_group_add}, 's::ab_group_add, 'tx, 'db) primary_env \<Rightarrow> ('s, 'tx) pcore_event list \<Rightarrow> ('pk, 's, 'tx, 'db) pcore \<Rightarrow> bool" where
  "pcore_alive env [] s = True"
| "pcore_alive env (ev # evs) s = (case pcore_turn env ev s of (Ok _, s') \<Rightarrow> pcore_alive env evs s' | _ \<Rightarrow> False)"

lemma pcore_run_snoc:
  assumes "pcore_alive env evs s"
  shows "pcore_run env (evs @ [ev]) s = snd (pcore_turn env ev (pcore_run env evs s))"
    and "pcore_alive env (evs @ [ev]) s \<longleftrightarrow> (\<exists>u. fst (pcore_turn env ev (pcore_run env evs s)) = Ok u)"
  using assms
  by (induction evs arbitrary: s) (auto split: prod.splits res.splits)

text \<open>The headers among the events that the core took from its own proposer.\<close>

definition own_headers :: "('s, 'tx) pcore_event list \<Rightarrow> 'tx header list" where
  "own_headers evs = List.map_filter (\<lambda>ev. case ev of RxHeader h \<Rightarrow> Some h | _ \<Rightarrow> None) evs"

lemma own_headers_simps [simp]:
  "own_headers [] = []" "own_headers (xs @ ys) = own_headers xs @ own_headers ys"
  "own_headers [ev] = (case ev of RxHeader h \<Rightarrow> [h] | _ \<Rightarrow> [])"
  by (simp_all add: own_headers_def List.map_filter_def split: pcore_event.split)

definition mempool_ok ::
  "('pk::{linorder, ab_group_add}, 's::ab_group_add, 'tx, 'db) mempool_env \<Rightarrow> ('pk, 's, 'tx, 'db) pcore \<Rightarrow>
   ('pk, 's, 'tx, 'db) mempool \<Rightarrow> bool" where
  "mempool_ok env c0 m \<longleftrightarrow>
     concat (map h_payload (pp_sent (mp_proposer m))) @ pp_txns (mp_proposer m) @ concat (mp_batches m) @
       bm_current_batch (mp_batcher m) @ mp_txs m = mp_received m \<and>
     mp_consensus m = consensus_log (pc_trace (mp_core m)) \<and>
     (\<exists>evs. mp_core m = pcore_run (me_core env) evs c0 \<and> own_headers evs @ mp_headers m = pp_sent (mp_proposer m) \<and>
        (mp_core_ok m \<longrightarrow> pcore_alive (me_core env) evs c0))"

section \<open>The trace of the core only grows\<close>

definition pc_grows :: "('pk, 's, 'tx, 'db) pcore \<Rightarrow> ('pk, 's, 'tx, 'db) pcore \<Rightarrow> bool" where
  "pc_grows s s' \<longleftrightarrow> (\<exists>es. pc_trace s' = pc_trace s @ es)"

interpretation tracing: evolution pc_grows
  by unfold_locales (auto simp: pc_grows_def)

lemma pc_grows_update: "pc_trace s' = pc_trace s \<Longrightarrow> pc_grows s s'"
  by (simp add: pc_grows_def)

lemma pc_primitive_steps:
  "steps pc_grows (pc_emit e)" "steps pc_grows (pc_write env k v)" "steps pc_grows (keep_handlers r hs)"
  "steps pc_grows (on_votes_aggregator d a m)"
  by (rule stepsI; auto simp: pc_grows_def pc_emit_def modify_m_def pc_write_trace keep_handlers_def
      on_votes_aggregator_def split: prod.split)+

lemmas pc_intros = tracing.steps_intros pc_primitive_steps tracing.steps_modify pc_grows_update steps_expect

lemma pc_compound_steps:
  "steps pc_grows (broadcast_primaries r m)" "steps pc_grows (process_certificate env c)"
  unfolding broadcast_primaries_def process_certificate_def by (intro pc_intros)+

lemma pc_vote_steps: "steps pc_grows (process_vote env v)"
  unfolding process_vote_def by (auto split: option.split intro!: pc_intros pc_compound_steps)

lemma pc_header_steps: "steps pc_grows (process_header env h)" "steps pc_grows (process_own_header env h)"
proof -
  show "steps pc_grows (process_header env h)" for h
    unfolding process_header_def Let_def by (auto split: res.split intro!: pc_intros pc_vote_steps)
  then show "steps pc_grows (process_own_header env h)"
    unfolding process_own_header_def by (intro pc_intros pc_compound_steps) simp_all
qed

lemma pcore_turn_trace: "\<exists>es. pc_trace (snd (pcore_turn env ev s)) = pc_trace s @ es"
proof -
  have "steps pc_grows (pcore_select env ev)"
    unfolding pcore_select_def pcore_dispatch_def sanitize_header_def sanitize_vote_def psanitize_certificate_def
    by (auto split: pcore_event.split primary_message.split intro!: pc_intros pc_header_steps pc_compound_steps pc_vote_steps)
  from stepsD [OF this, of s] show ?thesis
    by (auto simp: pc_grows_def pcore_turn_def pcore_after_def pcore_cleanup_def Let_def
        split: pcore_event.split prod.split res.split dag_error.split)
qed

section \<open>Every action keeps the invariant\<close>

lemma mempool_core_turn_fields [simp]:
  "mp_received (mempool_core_turn env ev m) = mp_received m" "mp_txs (mempool_core_turn env ev m) = mp_txs m"
  "mp_batcher (mempool_core_turn env ev m) = mp_batcher m" "mp_batches (mempool_core_turn env ev m) = mp_batches m"
  "mp_proposer (mempool_core_turn env ev m) = mp_proposer m" "mp_headers (mempool_core_turn env ev m) = mp_headers m"
  by (simp_all add: mempool_core_turn_def Let_def split: prod.split)

lemma consensus_log_append [simp]: "consensus_log (xs @ ys) = consensus_log xs @ consensus_log ys"
  by (simp add: consensus_log_def List.map_filter_def)

lemma mempool_core_turn_ok:
  assumes "mempool_ok env c0 m" "mp_core_ok m" "mp_core m' = mp_core m" "mp_consensus m' = mp_consensus m"
    "mp_received m' = mp_received m" "mp_txs m' = mp_txs m" "mp_batcher m' = mp_batcher m" "mp_batches m' = mp_batches m"
    "mp_proposer m' = mp_proposer m" "own_headers [ev] @ mp_headers m' = mp_headers m"
  shows "mempool_ok env c0 (mempool_core_turn env ev m')"
proof -
  obtain evs where evs: "mp_core m = pcore_run (me_core env) evs c0" "own_headers evs @ mp_headers m = pp_sent (mp_proposer m)"
    "pcore_alive (me_core env) evs c0" using assms(1,2) by (auto simp: mempool_ok_def)
  obtain r core where t: "pcore_turn (me_core env) ev (mp_core m) = (r, core)" by fastforce
  obtain es where es: "pc_trace core = pc_trace (mp_core m) @ es"
    using pcore_turn_trace [of "me_core env" ev "mp_core m"] t by auto
  let ?m = "mempool_core_turn env ev m'"
  have "mp_core ?m = core" "mp_core_ok ?m \<longleftrightarrow> (\<exists>u. r = Ok u)" "mp_consensus ?m = mp_consensus m @ consensus_log es"
    using t es assms(3,4) by (auto simp: mempool_core_turn_def Let_def split: res.split)
  moreover have "core = pcore_run (me_core env) (evs @ [ev]) c0"
    "pcore_alive (me_core env) (evs @ [ev]) c0 \<longleftrightarrow> (\<exists>u. r = Ok u)"
    using pcore_run_snoc [OF evs(3), of ev] t evs(1) by simp_all
  moreover have "own_headers (evs @ [ev]) @ mp_headers ?m = pp_sent (mp_proposer ?m)"
    using evs(2) assms(9,10) by simp
  ultimately show ?thesis
    using assms(1,5-9) es unfolding mempool_ok_def by (intro conjI exI [of _ "evs @ [ev]"]) simp_all
qed

lemma batch_turn_sent: "\<exists>new. bm_sent (batch_turn bcs ev b) = bm_sent b @ new"
  by (auto simp: batch_turn_def batch_seal_def Let_def split: batch_event.split)

lemma pproposer_turn_sent: "\<exists>new. pp_sent (pproposer_turn E bcs ev p) = pp_sent p @ new"
  by (auto simp: pproposer_turn_def make_header_def Let_def split: option.split prod.split)

lemma batcher_act_flow:
  "concat (mp_batches (batcher_act env ev m)) @ bm_current_batch (mp_batcher (batcher_act env ev m)) =
   concat (mp_batches m) @ bm_current_batch (mp_batcher m) @ batch_takes ev"
proof -
  obtain new where "bm_sent (batch_turn (pe_bcs (me_core env)) ev (mp_batcher m)) = bm_sent (mp_batcher m) @ new"
    using batch_turn_sent by blast
  then show ?thesis
    using batching.forward_turn [of "pe_bcs (me_core env)" ev "mp_batcher m"] by (simp add: batcher_act_def Let_def)
qed

lemma batcher_act_fields [simp]:
  "mp_received (batcher_act env ev m) = mp_received m" "mp_txs (batcher_act env ev m) = mp_txs m"
  "mp_proposer (batcher_act env ev m) = mp_proposer m" "mp_headers (batcher_act env ev m) = mp_headers m"
  "mp_core (batcher_act env ev m) = mp_core m" "mp_core_ok (batcher_act env ev m) = mp_core_ok m"
  "mp_consensus (batcher_act env ev m) = mp_consensus m"
  by (simp_all add: batcher_act_def Let_def)

lemma batcher_act_ok:
  assumes "mempool_ok env c0 m" "batch_takes ev @ mp_txs m' = mp_txs m" "m' = m\<lparr>mp_txs := txs\<rparr>"
  shows "mempool_ok env c0 (batcher_act env ev m')"
  using assms batcher_act_flow [of env ev m'] unfolding mempool_ok_def by (simp flip: append_assoc) (metis append_assoc)

lemma proposer_act_ok:
  assumes "mempool_ok env c0 m" "mp_batches m = (case snd ev of Some b \<Rightarrow> [b] | None \<Rightarrow> []) @ bs" "m' = m\<lparr>mp_batches := bs\<rparr>"
  shows "mempool_ok env c0 (proposer_act env ev m')"
proof -
  let ?p = "pproposer_turn (pe_runtime (me_core env)) (pe_bcs (me_core env)) ev (mp_proposer m)"
  obtain new where new: "pp_sent ?p = pp_sent (mp_proposer m) @ new" using pproposer_turn_sent by blast
  have "concat (map h_payload (pp_sent ?p)) @ pp_txns ?p =
      concat (map h_payload (pp_sent (mp_proposer m))) @ pp_txns (mp_proposer m) @ proposer_takes ev"
    by (rule proposing.forward_turn)
  moreover have "proposer_takes ev @ concat bs = concat (mp_batches m)"
    using assms(2) by (simp add: proposer_takes_def split: option.split)
  ultimately have "concat (map h_payload (pp_sent ?p)) @ pp_txns ?p @ concat bs =
      concat (map h_payload (pp_sent (mp_proposer m))) @ pp_txns (mp_proposer m) @ concat (mp_batches m)"
    by (metis append_assoc)
  then show ?thesis
    using assms(1,3) new unfolding mempool_ok_def proposer_act_def Let_def
    by (simp flip: append_assoc)
qed

lemma mempool_ok_unchanged:
  assumes "mempool_ok env c0 m" "mp_received m' = mp_received m" "mp_txs m' = mp_txs m" "mp_batcher m' = mp_batcher m"
    "mp_batches m' = mp_batches m" "mp_proposer m' = mp_proposer m" "mp_headers m' = mp_headers m" "mp_core m' = mp_core m"
    "mp_core_ok m' = mp_core_ok m" "mp_consensus m' = mp_consensus m"
  shows "mempool_ok env c0 m'"
  using assms by (simp add: mempool_ok_def)

lemma gc_act_ok: "mempool_ok env c0 m \<Longrightarrow> mempool_ok env c0 (gc_act env c m)"
proof -
  let ?f = "\<lambda>e m. case e of
              GcLoopback c \<Rightarrow> m\<lparr>mp_loopback := mp_loopback m @ [c]\<rparr>
            | GcSetRound round \<Rightarrow> if mp_core_ok m then mempool_core_turn env (CommitSeen round) m else m
            | GcBroadcast _ _ \<Rightarrow> m"
  have "mempool_ok env c0 m \<Longrightarrow> mempool_ok env c0 (?f e m)" for e m
    by (cases e) (auto intro: mempool_ok_unchanged mempool_core_turn_ok)
  then have fold: "mempool_ok env c0 m \<Longrightarrow> mempool_ok env c0 (fold ?f es m)" for es m
    by (induction es arbitrary: m) simp_all
  assume ok: "mempool_ok env c0 m"
  then have "mempool_ok env c0 (m\<lparr>mp_gc := gc\<rparr>)" "mempool_ok env c0 (m\<lparr>mp_gc := gc, mp_gc_ok := b\<rparr>)" for gc b
    by (auto intro: mempool_ok_unchanged)
  then show ?thesis unfolding gc_act_def by (auto intro: fold split: prod.split res.split)
qed

lemma mempool_act_ok:
  assumes ok: "mempool_ok env c0 m"
  shows "mempool_ok env c0 (mempool_act env act m)"
proof (cases act)
  case (ClientFrame message)
  then show ?thesis using ok by (auto simp: mempool_ok_def tx_dispatch_def Let_def split: option.split)
next
  case BatcherTakes
  then show ?thesis using ok batcher_act_ok [OF ok, of "RxTransaction _"] by (auto simp: batch_takes_def split: list.split)
next
  case BatcherTimer
  then show ?thesis using batcher_act_ok [OF ok, of BatchTimer m "mp_txs m"] by (simp add: batch_takes_def)
next
  case (ProposerTurn expired takes)
  then show ?thesis
    using ok proposer_act_ok [OF ok, of "(expired, Some _)"] proposer_act_ok [OF ok, of "(expired, None)" "mp_batches m" m]
    by (auto split: list.split)
next
  case CoreHeader
  then show ?thesis using ok by (auto split: list.split intro!: mempool_core_turn_ok [OF ok])
next
  case CoreMessage
  then show ?thesis using ok by (auto split: list.split intro!: mempool_core_turn_ok [OF ok])
next
  case CoreLoopback
  then show ?thesis using ok by (auto split: list.split intro!: mempool_core_turn_ok [OF ok])
next
  case (GcTakes c)
  then show ?thesis using ok gc_act_ok by auto
next
  case (PeerFrame serialized)
  then show ?thesis using ok by (auto intro: mempool_ok_unchanged)
next
  case (JobDone i)
  then show ?thesis using ok by (auto intro: mempool_ok_unchanged)
next
  case HelperTakes
  then show ?thesis using ok by (auto simp: Let_def split: list.split res.split intro: mempool_ok_unchanged)
qed

interpretation mempool_tasks: task "mempool_act env" "mempool_ok env c0"
  for env :: "('pk::{linorder, ab_group_add}, 's::ab_group_add, 'tx, 'db) mempool_env" and c0
  by unfold_locales (rule mempool_act_ok)

lemma primary_spawn_ok:
  assumes "primary_spawn name C ps st = Ok m"
  shows "mempool_ok env (pcore_new name C st (p_gc_depth ps)) m"
proof -
  have "mp_core m = pcore_new name C st (p_gc_depth ps)" "mp_received m = []" "mp_txs m = []" "mp_batches m = []"
    "bm_current_batch (mp_batcher m) = []" "pp_sent (mp_proposer m) = []" "pp_txns (mp_proposer m) = []" "mp_headers m = []"
    "mp_consensus m = []"
    using assms by (auto simp: primary_spawn_def pworker_spawn_def bind_r_Ok_iff batch_maker_new_def pproposer_new_def
        split: res.splits)
  then show ?thesis
    unfolding mempool_ok_def
    by (intro conjI exI [of _ "[]"]) (simp_all add: pcore_new_def consensus_log_def List.map_filter_def)
qed

section \<open>Properties\<close>

text \<open>
  C12. The mempool as a whole, under every schedule of its tasks and every sequence of frames:
  its core is a run of the event loop of the core, whose own headers are those of the proposer
  in their order; the payloads of the headers the core has taken, those still queued for it,
  what the proposer holds, what is queued for it, the open batch and the queue of the batch
  maker make up exactly the transactions accepted from clients, in their order; the consensus
  is handed exactly the certificates the core hands over, in order; everything the core
  speaks of was stored first; and each certificate handed over can be read back by its digest.
\<close>

theorem mempool_refines_core:
  fixes env :: "('pk::{linorder, ab_group_add}, 's::ab_group_add, 'tx, 'db) mempool_env"
  assumes "kv_laws (pe_rocksdb (me_core env))" "primary_spawn name C ps st = Ok m0" "m = task_run (mempool_act env) acts m0"
  shows "\<exists>evs. mp_core m = pcore_run (me_core env) evs (pcore_new name C st (p_gc_depth ps)) \<and>
    concat (map h_payload (own_headers evs)) @ concat (map h_payload (mp_headers m)) @ pp_txns (mp_proposer m) @
      concat (mp_batches m) @ bm_current_batch (mp_batcher m) @ mp_txs m = mp_received m \<and>
    mp_consensus m = consensus_log (pc_trace (mp_core m)) \<and>
    stored_first (me_core env) {} (pc_trace (mp_core m)) \<and>
    (\<forall>c \<in> set (mp_consensus m). \<exists>bytes. store_read (pe_rocksdb (me_core env))
       (to_vec (certificate_digest (pe_runtime (me_core env)) c)) (pc_store (mp_core m)) = Inr (Some bytes))"
proof -
  have "mempool_ok env (pcore_new name C st (p_gc_depth ps)) m"
    using mempool_tasks.inv_run [OF primary_spawn_ok [OF assms(2)]] assms(3) by simp
  then obtain evs where evs: "mp_core m = pcore_run (me_core env) evs (pcore_new name C st (p_gc_depth ps))"
    "own_headers evs @ mp_headers m = pp_sent (mp_proposer m)" "mp_consensus m = consensus_log (pc_trace (mp_core m))"
    "concat (map h_payload (pp_sent (mp_proposer m))) @ pp_txns (mp_proposer m) @ concat (mp_batches m) @
       bm_current_batch (mp_batcher m) @ mp_txs m = mp_received m"
    by (auto simp: mempool_ok_def)
  have "PToConsensus c \<in> set (pc_trace (mp_core m))" if "c \<in> set (mp_consensus m)" for c
    using that unfolding evs(3) by (auto simp: consensus_log_def List.map_filter_def split: pcore_effect.splits)
  then show ?thesis
    using pcore_stores_before_it_speaks [OF assms(1) evs(1)] evs(1,3) evs(4) [folded evs(2)] by (intro exI [of _ evs]) auto
qed

definition toy_mempool_env :: "(int, int, u8, key \<rightharpoonup> val) mempool_env" where
  "toy_mempool_env = \<lparr>me_core = toy_penv, me_from_bytes = (\<lambda>bs. case bs of [b] \<Rightarrow> Some b | _ \<Rightarrow> None),
     me_de = (\<lambda>_. Some (PmCertificate toy_pcert)), me_de_certificate = (\<lambda>_. None)\<rparr>"

definition toy_schedule :: "int mempool_action list" where
  "toy_schedule = [ClientFrame [42], ClientFrame [7, 7], ClientFrame [43], BatcherTakes, BatcherTimer, ProposerTurn False True,
     ProposerTurn True False, CoreHeader, PeerFrame [], CoreMessage, JobDone 0, CoreMessage, GcTakes toy_pcert, HelperTakes]"

definition toy_mempool :: "(int, int, u8, key \<rightharpoonup> val) mempool" where
  "toy_mempool = (case primary_spawn me quartet parameters_default (store_new Map.empty) :: (unit, _) res of Ok m \<Rightarrow> m)"

definition mempool_view :: "('pk, 's, 'tx, 'db) mempool \<Rightarrow> 'tx list \<times> 'tx list \<times> 's certificate list" where
  "mempool_view m = (mp_received m, mp_txs m, mp_consensus m)"

lemma toy_mempool_spawned: "primary_spawn me quartet parameters_default (store_new Map.empty) = (Ok toy_mempool :: (unit, _) res)"
  by (simp add: toy_mempool_def primary_spawn_def pworker_spawn_def gc_spawn_def committee_primary_def committee_worker_def
      our_workers_def authority_of_def quartet_def toy_authority_def)

theorem mempool_refines_core_witness:
  "mp_received (task_run (mempool_act toy_mempool_env) toy_schedule toy_mempool) = [42, 43] \<and>
   mp_txs (task_run (mempool_act toy_mempool_env) toy_schedule toy_mempool) = [43] \<and>
   (\<exists>bytes. store_read toy_db (to_vec (certificate_digest toy_runtime toy_pcert))
      (pc_store (mp_core (task_run (mempool_act toy_mempool_env) toy_schedule toy_mempool))) = Inr (Some bytes)) \<and>
   mp_consensus (task_run (mempool_act toy_mempool_env) toy_schedule toy_mempool) = [toy_pcert]"
proof -
  have "mempool_view (task_run (mempool_act toy_mempool_env) toy_schedule toy_mempool) = ([42, 43], [43], [toy_pcert])"
    by code_simp
  then have "mp_received (task_run (mempool_act toy_mempool_env) toy_schedule toy_mempool) = [42, 43]"
    "mp_txs (task_run (mempool_act toy_mempool_env) toy_schedule toy_mempool) = [43]"
    "mp_consensus (task_run (mempool_act toy_mempool_env) toy_schedule toy_mempool) = [toy_pcert]"
    by (simp_all add: mempool_view_def del: task_run_simps)
  moreover have "kv_laws (pe_rocksdb (me_core toy_mempool_env))" by (simp add: toy_mempool_env_def toy_kv)
  ultimately show ?thesis
    using mempool_refines_core [OF _ toy_mempool_spawned refl, of toy_mempool_env toy_schedule]
    by (auto simp: toy_mempool_env_def toy_penv_def)
qed

end
