(* ===== verification/Worker.thy ===== *)
theory Worker
  imports Primary_Tasks
begin

text \<open>
  The worker crate: batch maker (src/worker/src/batch_maker.rs), quorum waiter
  (quorum_waiter.rs), processor (processor.rs), helper (helper.rs), primary connector
  (primary_connector.rs), synchronizer (synchronizer.rs) and the network handlers
  (worker.rs). The node binary no longer starts these tasks; the code is kept in the
  workspace. Encodings are parameters; a cancel channel is a natural number.
\<close>

datatype 'tx worker_message = WBatch "'tx list" | WBatchRequest "digest list" public_key

section \<open>Batch maker\<close>

record quorum_waiter_message =
  qw_batch :: bytes
  qw_handlers :: "(public_key \<times> nat) list"

record 'tx wbatch_maker =
  wb_batch_size :: usize
  wb_workers_addresses :: "(public_key \<times> socket_addr) list"
  wb_current_batch :: "'tx list"
  wb_current_batch_size :: usize
  wb_network :: reliable_sender
  wb_messages :: "quorum_waiter_message list"
  wb_sealed :: "'tx list list"

definition wbatch_maker_new :: "usize \<Rightarrow> (public_key \<times> socket_addr) list \<Rightarrow> 'tx wbatch_maker" where
  "wbatch_maker_new batch_size addresses = \<lparr>wb_batch_size = batch_size, wb_workers_addresses = addresses,
     wb_current_batch = [], wb_current_batch_size = 0, wb_network = reliable_sender_new,
     wb_messages = [], wb_sealed = []\<rparr>"

text \<open>\<open>wb_sealed\<close> records the sealed batches besides their encodings in the messages.\<close>

definition wbatch_seal :: "('tx worker_message \<Rightarrow> bytes) \<Rightarrow> 'tx wbatch_maker \<Rightarrow> 'tx wbatch_maker" where
  "wbatch_seal ser b =
     (let serialized = ser (WBatch (wb_current_batch b));
          names = map fst (wb_workers_addresses b);
          addresses = map snd (wb_workers_addresses b);
          (handlers, network) = reliable_broadcast addresses serialized (wb_network b)
      in b\<lparr>wb_current_batch_size := 0, wb_current_batch := [], wb_network := network,
           wb_messages := wb_messages b @ [\<lparr>qw_batch = serialized, qw_handlers = zip names handlers\<rparr>],
           wb_sealed := wb_sealed b @ [wb_current_batch b]\<rparr>)"

definition wbatch_turn ::
  "('tx \<Rightarrow> u8 list) \<Rightarrow> ('tx worker_message \<Rightarrow> bytes) \<Rightarrow> 'tx batch_event \<Rightarrow> 'tx wbatch_maker \<Rightarrow> 'tx wbatch_maker" where
  "wbatch_turn bcs ser ev b =
     (case ev of
        RxTransaction transaction \<Rightarrow>
          let b' = b\<lparr>wb_current_batch_size := add64 (wb_current_batch_size b) (serialized_len bcs transaction),
                     wb_current_batch := wb_current_batch b @ [transaction]\<rparr>
          in if wb_current_batch_size b' \<ge> wb_batch_size b' then wbatch_seal ser b' else b'
      | BatchTimer \<Rightarrow> if wb_current_batch b \<noteq> [] then wbatch_seal ser b else b)"

section \<open>Quorum waiter\<close>

text \<open>
  The inner loop: the futures complete in the order of the list; the batch is delivered as
  soon as the stake reaches the threshold, and dropped when every future has completed
  without reaching it.
\<close>

fun wait_for_quorum :: "'pk committee \<Rightarrow> stake \<Rightarrow> public_key list \<Rightarrow> bool" where
  "wait_for_quorum C total_stake [] = False"
| "wait_for_quorum C total_stake (name # completions) =
     (let total = add32 total_stake (stake_of C name)
      in if total \<ge> quorum_threshold C then True else wait_for_quorum C total completions)"

definition quorum_waiter_turn ::
  "'pk committee \<Rightarrow> stake \<Rightarrow> quorum_waiter_message \<times> public_key list \<Rightarrow> bytes list \<Rightarrow> bytes list" where
  "quorum_waiter_turn C own = (\<lambda>(m, completions) tx_batch.
     if wait_for_quorum C own completions then tx_batch @ [qw_batch m] else tx_batch)"

section \<open>Processor, helper, connector\<close>

definition processor_turn ::
  "('pk, 's) runtime \<Rightarrow> 'db rocksdb \<Rightarrow> worker_id \<Rightarrow> bool \<Rightarrow> bytes \<Rightarrow>
   'db store \<times> worker_primary_message list \<Rightarrow> 'db store \<times> worker_primary_message list" where
  "processor_turn E D i own_digest batch = (\<lambda>(st, tx_digest).
     let digest = hash32 E batch;
         st' = snd (store_write D (to_vec digest) batch st)
     in (st', tx_digest @ [if own_digest then OurBatch digest i else OthersBatch digest i]))"

fun whelper_replies :: "'db rocksdb \<Rightarrow> 'db store \<Rightarrow> digest list \<Rightarrow> bytes list" where
  "whelper_replies D st [] = []"
| "whelper_replies D st (digest # digests) =
     (case store_read D (to_vec digest) st of
        Inr (Some data) \<Rightarrow> data # whelper_replies D st digests
      | _ \<Rightarrow> whelper_replies D st digests)"

definition whelper_turn ::
  "'db rocksdb \<Rightarrow> worker_id \<Rightarrow> 'pk committee \<Rightarrow> 'db store \<Rightarrow> digest list \<times> public_key \<Rightarrow> simple_sender \<Rightarrow> simple_sender" where
  "whelper_turn D i C st = (\<lambda>(digests, origin) network.
     case committee_worker C origin i of
       Ok x \<Rightarrow> fold (\<lambda>data. simple_send (worker_to_worker x) data) (whelper_replies D st digests) network
     | _ \<Rightarrow> network)"

definition primary_connector_turn :: "socket_addr \<Rightarrow> bytes \<Rightarrow> simple_sender \<Rightarrow> simple_sender" where
  "primary_connector_turn primary_address digest network = simple_send primary_address digest network"

section \<open>Synchronizer\<close>

datatype 'tx wsync_effect =
  WsNotifyRead digest nat
| WsCancel nat
| WsSend socket_addr "'tx worker_message"
| WsLuckyBroadcast "socket_addr list" "'tx worker_message" usize

record wsync =
  ws_name :: public_key
  ws_id :: worker_id
  ws_gc_depth :: u64
  ws_sync_retry_delay :: u64
  ws_sync_retry_nodes :: usize
  ws_round :: u64
  ws_pending :: "digest \<rightharpoonup> u64 \<times> nat \<times> nat"
  ws_waiting :: "(digest \<times> nat) list"
  ws_next :: nat

definition wsync_new :: "public_key \<Rightarrow> worker_id \<Rightarrow> u64 \<Rightarrow> u64 \<Rightarrow> usize \<Rightarrow> wsync" where
  "wsync_new name i gc_depth delay nodes = \<lparr>ws_name = name, ws_id = i, ws_gc_depth = gc_depth,
     ws_sync_retry_delay = delay, ws_sync_retry_nodes = nodes, ws_round = 0, ws_pending = Map.empty,
     ws_waiting = [], ws_next = 0\<rparr>"

text \<open>The loop over the digests of one command: the missing ones, the waiters started and the state.\<close>

fun wsync_collect ::
  "'db rocksdb \<Rightarrow> 'db store \<Rightarrow> nat \<Rightarrow> digest list \<Rightarrow> wsync \<Rightarrow> digest list \<times> (digest \<times> nat) list \<times> wsync" where
  "wsync_collect D st now [] y = ([], [], y)"
| "wsync_collect D st now (digest # digests) y =
     (if ws_pending y digest \<noteq> None then wsync_collect D st now digests y
      else case store_read D (to_vec digest) st of
        Inl _ \<Rightarrow> wsync_collect D st now digests y
      | Inr found \<Rightarrow>
          let ch = ws_next y;
              y' = y\<lparr>ws_waiting := ws_waiting y @ [(digest, ch)], ws_next := Suc ch,
                     ws_pending := (ws_pending y)(digest \<mapsto> (ws_round y, ch, now))\<rparr>;
              (missing, waiters, y'') = wsync_collect D st now digests y'
          in ((if found = None then digest # missing else missing), (digest, ch) # waiters, y''))"

definition wsync_synchronize ::
  "'db rocksdb \<Rightarrow> 'pk committee \<Rightarrow> 'db store \<Rightarrow> nat \<Rightarrow> digest list \<Rightarrow> public_key \<Rightarrow> wsync \<Rightarrow> 'tx wsync_effect list \<times> wsync" where
  "wsync_synchronize D C st now digests target y =
     (let (missing, waiters, y') = wsync_collect D st now digests y;
          effects = map (\<lambda>(d, ch). WsNotifyRead d ch) waiters in
      case committee_worker C target (ws_id y) of
        Ok address \<Rightarrow> (effects @ [WsSend (worker_to_worker address) (WBatchRequest missing (ws_name y))], y')
      | _ \<Rightarrow> (effects, y'))"

text \<open>\<open>order\<close> is the iteration order of the map of pending digests.\<close>

definition wsync_cleanup :: "digest list \<Rightarrow> u64 \<Rightarrow> wsync \<Rightarrow> 'tx wsync_effect list \<times> wsync" where
  "wsync_cleanup order round y =
     (let y1 = y\<lparr>ws_round := round\<rparr> in
      if round < ws_gc_depth y then ([], y1)
      else let gc_round = sub64 round (ws_gc_depth y) in
        (concat (map (\<lambda>d. case ws_pending y d of
            Some (r, handler, _) \<Rightarrow> if r \<le> gc_round then [WsCancel handler] else []
          | None \<Rightarrow> []) order),
         y1\<lparr>ws_pending := retain (\<lambda>_ (r, _, _). r > gc_round) (ws_pending y)\<rparr>))"

definition wsync_on_message ::
  "'db rocksdb \<Rightarrow> 'pk committee \<Rightarrow> 'db store \<Rightarrow> nat \<Rightarrow> digest list \<Rightarrow> primary_worker_message \<Rightarrow> wsync \<Rightarrow>
   'tx wsync_effect list \<times> wsync" where
  "wsync_on_message D C st now order m y =
     (case m of
        Synchronize digests target \<Rightarrow> wsync_synchronize D C st now digests target y
      | WCleanup round \<Rightarrow> wsync_cleanup order round y)"

text \<open>A waiter that completes: \<open>Some digest\<close> when the batch is stored, \<open>None\<close> when cancelled.\<close>

definition wsync_on_waiter :: "digest \<times> nat \<Rightarrow> digest option \<Rightarrow> wsync \<Rightarrow> wsync" where
  "wsync_on_waiter waiter result y =
     (let y1 = y\<lparr>ws_waiting := remove1 waiter (ws_waiting y)\<rparr> in
      case result of
        Some digest \<Rightarrow> y1\<lparr>ws_pending := (ws_pending y1)(digest := None)\<rparr>
      | None \<Rightarrow> y1)"

definition wsync_on_timer :: "'pk committee \<Rightarrow> nat \<Rightarrow> digest list \<Rightarrow> wsync \<Rightarrow> 'tx wsync_effect list" where
  "wsync_on_timer C now order y =
     (let retry = filter (\<lambda>d. case ws_pending y d of
            Some (_, _, timestamp) \<Rightarrow> timestamp + ws_sync_retry_delay y < now
          | None \<Rightarrow> False) order
      in if retry \<noteq> [] then
           [WsLuckyBroadcast (map (\<lambda>(_, address). worker_to_worker address) (others_workers C (ws_name y) (ws_id y)))
              (WBatchRequest retry (ws_name y)) (ws_sync_retry_nodes y)]
         else [])"

section \<open>Network handlers\<close>

record worker_inbox =
  tx_helper :: "(digest list \<times> public_key) list"
  tx_processor :: "bytes list"
  wi_acks :: nat

definition worker_dispatch ::
  "(bytes \<Rightarrow> 'tx worker_message option) \<Rightarrow> bytes \<Rightarrow> (worker_inbox, 'e, unit) handler" where
  "worker_dispatch de serialized = (\<lambda>i.
     let i1 = i\<lparr>wi_acks := Suc (wi_acks i)\<rparr> in
     case de serialized of
       Some (WBatch _) \<Rightarrow> (Ok (), i1\<lparr>tx_processor := tx_processor i1 @ [serialized]\<rparr>)
     | Some (WBatchRequest missing requestor) \<Rightarrow> (Ok (), i1\<lparr>tx_helper := tx_helper i1 @ [(missing, requestor)]\<rparr>)
     | None \<Rightarrow> (Ok (), i1))"

definition primary_message_dispatch ::
  "(bytes \<Rightarrow> primary_worker_message option) \<Rightarrow> bytes \<Rightarrow> (primary_worker_message list, 'e, unit) handler" where
  "primary_message_dispatch de serialized = (\<lambda>queue.
     case de serialized of
       None \<Rightarrow> (Ok (), queue)
     | Some message \<Rightarrow> (Ok (), queue @ [message]))"

section \<open>Lemmas\<close>

interpretation worker_batching: forwarding_task "wbatch_turn bcs ser" batch_takes wb_current_batch "\<lambda>b. concat (wb_sealed b)"
  for bcs :: "'tx \<Rightarrow> u8 list" and ser :: "'tx worker_message \<Rightarrow> bytes"
  by unfold_locales
    (auto simp: wbatch_turn_def wbatch_seal_def batch_takes_def Let_def split: batch_event.split prod.split)

lemma wbatch_maker_new_simps [simp]:
  "wb_sealed (wbatch_maker_new n as) = []" "wb_current_batch (wbatch_maker_new n as) = []"
  by (simp_all add: wbatch_maker_new_def)

text \<open>A broadcast returns one fresh handler per address, in the order of the addresses.\<close>

lemma reliable_broadcast_handlers:
  "fst (reliable_broadcast addresses data s) = [rs_next s..<rs_next s + length addresses] \<and>
   rs_next (snd (reliable_broadcast addresses data s)) = rs_next s + length addresses"
proof (induction addresses arbitrary: s)
  case Nil
  then show ?case by simp
next
  case (Cons a as)
  have "rs_next (snd (reliable_send a data s)) = Suc (rs_next s)" "fst (reliable_send a data s) = rs_next s"
    by (simp_all add: reliable_send_def Let_def)
  moreover have "[rs_next s..<rs_next s + length (a # as)] = rs_next s # [Suc (rs_next s)..<Suc (rs_next s) + length as]"
    by (subst upt_conv_Cons) simp_all
  ultimately show ?case
    using Cons [of "snd (reliable_send a data s)"] by (auto simp del: upt_Suc split: prod.split)
qed

text \<open>What each sealed batch hands to the quorum waiter: its encoding and a handler per peer.\<close>

definition wbatch_ok :: "('tx worker_message \<Rightarrow> bytes) \<Rightarrow> 'tx wbatch_maker \<Rightarrow> bool" where
  "wbatch_ok ser b \<longleftrightarrow>
     map qw_batch (wb_messages b) = map (\<lambda>batch. ser (WBatch batch)) (wb_sealed b) \<and>
     (\<forall>m \<in> set (wb_messages b). map fst (qw_handlers m) = map fst (wb_workers_addresses b)) \<and>
     [] \<notin> set (wb_sealed b)"

lemma wbatch_seal_ok: "wbatch_ok ser b \<Longrightarrow> wb_current_batch b \<noteq> [] \<Longrightarrow> wbatch_ok ser (wbatch_seal ser b)"
  using reliable_broadcast_handlers [of "map snd (wb_workers_addresses b)" "ser (WBatch (wb_current_batch b))" "wb_network b"]
  by (auto simp: wbatch_ok_def wbatch_seal_def Let_def split: prod.split)

interpretation worker_batches: task "wbatch_turn bcs ser" "wbatch_ok ser"
  for bcs :: "'tx \<Rightarrow> u8 list" and ser :: "'tx worker_message \<Rightarrow> bytes"
proof
  fix ev :: "'tx batch_event" and b :: "'tx wbatch_maker"
  assume ok: "wbatch_ok ser b"
  then have "wbatch_ok ser (b\<lparr>wb_current_batch_size := n, wb_current_batch := xs\<rparr>)" for n xs
    by (simp add: wbatch_ok_def)
  then show "wbatch_ok ser (wbatch_turn bcs ser ev b)"
    using ok by (auto simp: wbatch_turn_def Let_def split: batch_event.split intro!: wbatch_seal_ok)
qed

text \<open>Delivery needs, and is given by, the threshold of stake among the completions.\<close>

lemma wait_for_quorum_iff:
  assumes "weight + (\<Sum>a\<leftarrow>completions. stake_of C a) < 2 ^ 32"
  shows "wait_for_quorum C weight completions \<longleftrightarrow>
    completions \<noteq> [] \<and> quorum_threshold C \<le> weight + (\<Sum>a\<leftarrow>completions. stake_of C a)"
  using assms
proof (induction completions arbitrary: weight)
  case Nil
  then show ?case by simp
next
  case (Cons a as)
  have "wait_for_quorum C (weight + stake_of C a) as \<longleftrightarrow>
      as \<noteq> [] \<and> quorum_threshold C \<le> weight + stake_of C a + (\<Sum>a\<leftarrow>as. stake_of C a)"
    using Cons by simp
  with Cons.prems show ?case by (cases as) (auto simp: Let_def add.assoc)
qed

lemma wsync_collect_missing:
  assumes "distinct digests"
  shows "fst (wsync_collect D st now digests y) =
    filter (\<lambda>d. ws_pending y d = None \<and> store_read D (to_vec d) st = Inr None) digests"
  using assms
proof (induction digests arbitrary: y)
  case Nil
  then show ?case by simp
next
  case (Cons d ds)
  let ?y = "y\<lparr>ws_waiting := ws_waiting y @ [(d, ws_next y)], ws_next := Suc (ws_next y),
      ws_pending := (ws_pending y)(d \<mapsto> (ws_round y, ws_next y, now))\<rparr>"
  have "filter (\<lambda>x. ws_pending ?y x = None \<and> store_read D (to_vec x) st = Inr None) ds =
      filter (\<lambda>x. ws_pending y x = None \<and> store_read D (to_vec x) st = Inr None) ds"
    using Cons.prems by (intro filter_cong) auto
  with Cons.IH [of ?y] Cons.IH [of y] Cons.prems show ?case
    by (auto simp: Let_def split: prod.split sum.split)
qed

lemma wsync_collect_pending:
  "ws_pending y x \<noteq> None \<or> x \<in> set digests \<and> (\<forall>e. store_read D (to_vec x) st \<noteq> Inl e) \<Longrightarrow>
   ws_pending (snd (snd (wsync_collect D st now digests y))) x \<noteq> None"
proof (induction digests arbitrary: y)
  case Nil
  then show ?case by simp
next
  case (Cons d ds)
  let ?y = "y\<lparr>ws_waiting := ws_waiting y @ [(d, ws_next y)], ws_next := Suc (ws_next y),
      ws_pending := (ws_pending y)(d \<mapsto> (ws_round y, ws_next y, now))\<rparr>"
  show ?case
  proof (cases "ws_pending y d = None \<and> (\<exists>f. store_read D (to_vec d) st = Inr f)")
    case True
    then have "snd (snd (wsync_collect D st now (d # ds) y)) = snd (snd (wsync_collect D st now ds ?y))"
      by (auto simp: Let_def split: prod.split)
    moreover have "ws_pending ?y x \<noteq> None \<or> x \<in> set ds \<and> (\<forall>e. store_read D (to_vec x) st \<noteq> Inl e)"
      using Cons.prems by auto
    ultimately show ?thesis using Cons.IH [of ?y] by simp
  next
    case False
    then have "wsync_collect D st now (d # ds) y = wsync_collect D st now ds y"
      by (auto split: sum.split)
    moreover have "ws_pending y x \<noteq> None \<or> x \<in> set ds \<and> (\<forall>e. store_read D (to_vec x) st \<noteq> Inl e)"
      using Cons.prems False by (auto, metis obj_sumE)
    ultimately show ?thesis using Cons.IH [of y] by simp
  qed
qed

end
