(* ===== verification/Worker_Properties.thy ===== *)
theory Worker_Properties
  imports Worker Instance
begin

text \<open>What the single tasks of the worker do.\<close>

section \<open>Properties\<close>


text \<open>
  A batch leaves the worker only with a quorum behind it: the waiter delivers a batch
  exactly when its own stake and the stake of the peers whose acknowledgements complete reach
  the quorum threshold, at least one peer having answered.
\<close>

lemma quorum_waiter_delivers:
  assumes "own + (\<Sum>a\<leftarrow>completions. stake_of C a) < 2 ^ 32"
  shows "quorum_waiter_turn C own (m, completions) tx_batch =
    (if completions \<noteq> [] \<and> quorum_threshold C \<le> own + (\<Sum>a\<leftarrow>completions. stake_of C a)
     then tx_batch @ [qw_batch m] else tx_batch)"
  by (simp add: quorum_waiter_turn_def wait_for_quorum_iff [OF assms])

text \<open>
  Worker batching: the batches handed to the quorum waiter are the encodings of the sealed
  batches, each with one acknowledgement handler per peer, and the sealed batches followed by
  the open one are the received transactions in order.
\<close>

lemma worker_batches_carry_all:
  "concat (wb_sealed (task_run (wbatch_turn bcs ser) evs (wbatch_maker_new bsize addresses))) @
     wb_current_batch (task_run (wbatch_turn bcs ser) evs (wbatch_maker_new bsize addresses)) =
   concat (map batch_takes evs) \<and>
   map qw_batch (wb_messages (task_run (wbatch_turn bcs ser) evs (wbatch_maker_new bsize addresses))) =
   map (\<lambda>batch. ser (WBatch batch)) (wb_sealed (task_run (wbatch_turn bcs ser) evs (wbatch_maker_new bsize addresses)))"
proof -
  have "wbatch_ok ser (wbatch_maker_new bsize addresses)" by (simp add: wbatch_ok_def wbatch_maker_new_def)
  from worker_batches.inv_run [OF this, of bcs evs]
  have "map qw_batch (wb_messages (task_run (wbatch_turn bcs ser) evs (wbatch_maker_new bsize addresses))) =
    map (\<lambda>batch. ser (WBatch batch)) (wb_sealed (task_run (wbatch_turn bcs ser) evs (wbatch_maker_new bsize addresses)))"
    by (simp add: wbatch_ok_def)
  then show ?thesis
    using worker_batching.forward_run [of bcs ser evs "wbatch_maker_new bsize addresses"] by simp
qed

text \<open>
  Batch synchronisation asks for what is missing and nothing else: a command of the primary
  makes the worker request exactly the named batches that are neither stored nor already being
  waited for, and every named batch that the store can be asked about is waited for afterwards.
\<close>

lemma worker_requests_missing:
  assumes "distinct digests" "committee_worker C target (ws_id y) = Ok address"
    and "wsync_synchronize D C st now digests target y = (effects, y')"
  shows "last effects = WsSend (worker_to_worker address)
      (WBatchRequest (filter (\<lambda>d. ws_pending y d = None \<and> store_read D (to_vec d) st = Inr None) digests) (ws_name y)) \<and>
    (\<forall>d \<in> set digests. (\<forall>e. store_read D (to_vec d) st \<noteq> Inl e) \<longrightarrow> ws_pending y' d \<noteq> None)"
proof -
  obtain missing es y1 where c: "wsync_collect D st now digests y = (missing, es, y1)"
    by (cases "wsync_collect D st now digests y")
  then have e: "effects = map (\<lambda>(d, ch). WsNotifyRead d ch) es @ [WsSend (worker_to_worker address) (WBatchRequest missing (ws_name y))]" "y' = y1"
    using assms(2,3) by (auto simp: wsync_synchronize_def)
  have "ws_pending y1 d \<noteq> None"
    if "d \<in> set digests" "\<forall>e. store_read D (to_vec d) st \<noteq> Inl e" for d
    using wsync_collect_pending [of y d digests D st now] that c by simp
  moreover have "missing = filter (\<lambda>d. ws_pending y d = None \<and> store_read D (to_vec d) st = Inr None) digests"
    using wsync_collect_missing [OF assms(1), of D st now y] c by simp
  ultimately show ?thesis by (simp add: e)
qed

end
