(* ===== verification/Worker_Node.thy ===== *)
theory Worker_Node
  imports Worker_Properties
begin

text \<open>
  A worker process as a whole (\<^verbatim>\<open>Worker::spawn\<close>, src/worker/src/worker.rs): the tasks of the
  theory \<open>Worker\<close> joined by the channels the code creates. As for the mempool, a channel is the list of
  what has been sent and not yet received, an action is one turn of one task or a frame from
  the network, and a schedule is any list of actions.
\<close>

section \<open>State and wiring\<close>









section \<open>Actions\<close>




text \<open>The synchronizer's waiters register with the store.\<close>

definition register :: "'db rocksdb \<Rightarrow> 'tx wsync_effect list \<Rightarrow> 'db store \<Rightarrow> 'db store" where
  "register D effects st =
     fold (\<lambda>e st. case e of WsNotifyRead d ch \<Rightarrow> snd (store_step D (NotifyRead (to_vec d) ch) st) | _ \<Rightarrow> st) effects st"


section \<open>The invariant of a worker\<close>





lemma register_db [simp]: "st_db (register D effects st) = st_db st"
  unfolding register_def
proof (induction effects arbitrary: st)
  case (Cons e effects)
  have "st_db (case e of WsNotifyRead d ch \<Rightarrow> snd (store_step D (NotifyRead (to_vec d) ch) st) | _ \<Rightarrow> st) = st_db st"
    by (auto split: wsync_effect.split sum.split option.split)
  with Cons show ?case by simp
qed simp











section \<open>Properties\<close>







end
