(* ===== verification/Executor.thy ===== *)
theory Executor
  imports Store
begin

text \<open>
  The Aptos executor of the committer (src/aptos_executor/src/database.rs, executor.rs): an
  in-memory state, the execution of a block transaction by transaction, the publication of
  accounts and the balance query. The Aptos crates are the fields of \<open>aptos\<close>: the virtual
  machine, the derivation of state keys, the encodings of resources and the genesis writes. A
  state value is represented by its bytes, a write operation by what the code reads of it, and
  a struct tag by the name of the struct.
\<close>

section \<open>What the Aptos crates provide\<close>

datatype struct_tag =
  ObjectCoreTag | FungibleStoreTag | MigrationFlagTag | ConcurrentBalanceTag | SupplyTag | ConcurrentSupplyTag | OtherTag string

type_synonym object_group = "struct_tag \<rightharpoonup> val"

record write_op =
  wo_is_delete :: bool
  wo_as_state_value :: "val option"

record 'key db_state_view =
  sv_states :: "'key \<rightharpoonup> val"
  sv_version :: u64

record ('key, 'addr, 'tx, 'status, 'out) aptos =
  ap_account_key :: "'addr \<Rightarrow> 'key option"
  ap_coin_key :: "'addr \<Rightarrow> 'key option"
  ap_group_key :: "'addr \<Rightarrow> 'key"
  ap_primary_store :: "'addr \<Rightarrow> 'addr"
  ap_ten :: 'addr
  ap_ser_account :: "u64 \<Rightarrow> u8 list \<Rightarrow> 'addr \<Rightarrow> val option"
  ap_ser_coin :: "u64 \<Rightarrow> 'addr \<Rightarrow> val option"
  ap_de_coin :: "val \<Rightarrow> u64 option"
  ap_ser_object_core :: "'addr \<Rightarrow> 'addr \<Rightarrow> val option"
  ap_ser_fungible :: "u64 \<Rightarrow> val option"
  ap_de_fungible :: "val \<Rightarrow> u64 option"
  ap_ser_migration :: "val option"
  ap_de_concurrent :: "val \<Rightarrow> u64 option"
  ap_ser_group :: "object_group \<Rightarrow> val option"
  ap_de_group :: "val \<Rightarrow> object_group option"
  ap_ser_tag_map :: "object_group \<Rightarrow> val option"
  ap_de_tag_map :: "val \<Rightarrow> object_group option"
  ap_ser_supply :: "nat \<Rightarrow> val option"
  ap_ser_concurrent_supply :: "nat \<Rightarrow> nat \<Rightarrow> val option"
  ap_identifier :: "string \<Rightarrow> bool"
  ap_genesis :: "('key \<times> write_op) list"
  ap_execute :: "'key db_state_view \<Rightarrow> 'tx \<Rightarrow> 'status \<times> 'out"
  ap_write_set :: "'out \<Rightarrow> ('key \<times> write_op) list option"

datatype 'addr executor_error = BadIdentifier | BadSupplyGroup | NotSerialized | NotDeserialized | NoCoinKey | MissingStore 'addr

section \<open>The in-memory state\<close>

record 'key test_db_reader =
  dr_states :: "'key \<rightharpoonup> val"
  dr_version :: u64

definition test_db_reader_new :: "'key test_db_reader" where
  "test_db_reader_new = \<lparr>dr_states = Map.empty, dr_version = 0\<rparr>"

definition set_state_value :: "'key \<Rightarrow> val \<Rightarrow> 'key test_db_reader \<Rightarrow> 'key test_db_reader" where
  "set_state_value key value r = r\<lparr>dr_states := (dr_states r)(key \<mapsto> value)\<rparr>"

definition remove_state_value :: "'key \<Rightarrow> 'key test_db_reader \<Rightarrow> 'key test_db_reader" where
  "remove_state_value key r = r\<lparr>dr_states := (dr_states r)(key := None)\<rparr>"

definition get_state_value :: "'key test_db_reader \<Rightarrow> 'key \<Rightarrow> val option" where
  "get_state_value r key = dr_states r key"

definition latest_version :: "'key test_db_reader \<Rightarrow> u64" where
  "latest_version r = dr_version r"

definition apply_write_op :: "'key \<Rightarrow> write_op \<Rightarrow> 'key test_db_reader \<Rightarrow> 'key test_db_reader" where
  "apply_write_op key write r =
     (if wo_is_delete write then remove_state_value key r
      else case wo_as_state_value write of
        Some value \<Rightarrow> set_state_value key value r
      | None \<Rightarrow> r)"

definition bump_version :: "'key test_db_reader \<Rightarrow> 'key test_db_reader" where
  "bump_version r = r\<lparr>dr_version := add64 (dr_version r) 1\<rparr>"

definition get_latest_state_checkpoint_version :: "'key test_db_reader \<Rightarrow> u64 option" where
  "get_latest_state_checkpoint_version r = Some (dr_version r)"

text \<open>The requested version is ignored: there is only the current state.\<close>

definition get_state_value_by_version :: "'key test_db_reader \<Rightarrow> 'key \<Rightarrow> u64 \<Rightarrow> val option" where
  "get_state_value_by_version r key version = dr_states r key"

definition get_state_value_with_version_by_version :: "'key test_db_reader \<Rightarrow> 'key \<Rightarrow> u64 \<Rightarrow> (u64 \<times> val) option" where
  "get_state_value_with_version_by_version r key version =
     map_option (\<lambda>v. (version, v)) (get_state_value_by_version r key version)"

definition latest_state_checkpoint_view :: "'key test_db_reader \<Rightarrow> 'key db_state_view" where
  "latest_state_checkpoint_view r = \<lparr>sv_states = dr_states r, sv_version = dr_version r\<rparr>"

section \<open>The database\<close>

text \<open>\<^verbatim>\<open>AptosDatabase\<close> only wraps its reader; its state is the reader's.\<close>

type_synonym ('key, 'addr, 'a) executor_handler = "('key test_db_reader, 'addr executor_error, 'a) handler"

definition apply_writes :: "('key \<times> write_op) list \<Rightarrow> 'key test_db_reader \<Rightarrow> 'key test_db_reader" where
  "apply_writes writes r = fold (\<lambda>(key, write). apply_write_op key write) writes r"

definition apply_vm_output ::
  "('key, 'addr, 'tx, 'status, 'out) aptos \<Rightarrow> 'out \<Rightarrow> ('key, 'addr, unit) executor_handler" where
  "apply_vm_output A output =
     bind_m (lift_m (expect ''VM output should convert into transaction output'' (ap_write_set A output))) (\<lambda>writes.
       modify_m (\<lambda>r. bump_version (apply_writes writes r)))"

definition saturating_add64 :: "u64 \<Rightarrow> u64 \<Rightarrow> u64" where
  "saturating_add64 a b = min (a + b) (2 ^ 64 - 1)"

definition publish_coin_store ::
  "('key, 'addr, 'tx, 'status, 'out) aptos \<Rightarrow> 'addr \<Rightarrow> u64 \<Rightarrow> ('key, 'addr, unit) executor_handler" where
  "publish_coin_store A address balance =
     bind_m (lift_m (expect ''CoinStore resource key'' (ap_coin_key A address))) (\<lambda>key.
     bind_m (lift_m (expect ''CoinStore BCS'' (ap_ser_coin A balance address))) (\<lambda>bytes.
       modify_m (set_state_value key bytes)))"

definition store_group :: "val \<Rightarrow> val \<Rightarrow> val \<Rightarrow> object_group" where
  "store_group core fungible flag = [ObjectCoreTag \<mapsto> core, FungibleStoreTag \<mapsto> fungible, MigrationFlagTag \<mapsto> flag]"

definition publish_fungible_store ::
  "('key, 'addr, 'tx, 'status, 'out) aptos \<Rightarrow> 'addr \<Rightarrow> u64 \<Rightarrow> ('key, 'addr, unit) executor_handler" where
  "publish_fungible_store A address balance =
     (let store = ap_primary_store A address in
      bind_m (lift_m (expect ''object core BCS'' (ap_ser_object_core A address store))) (\<lambda>core.
      bind_m (lift_m (expect ''fungible store BCS'' (ap_ser_fungible A balance))) (\<lambda>fungible.
      bind_m (lift_m (expect ''migration flag BCS'' (ap_ser_migration A))) (\<lambda>flag.
      bind_m (lift_m (expect ''fungible store object group serialization''
          (ap_ser_group A (store_group core fungible flag)))) (\<lambda>bytes.
        modify_m (set_state_value (ap_group_key A store) bytes))))))"

record ('addr, 'sk) local_account =
  la_address :: 'addr
  la_private_key :: 'sk
  la_public_key :: "u8 list"
  la_sequence_number :: u64

definition publish_account_resources ::
  "('key, 'addr, 'tx, 'status, 'out) aptos \<Rightarrow> (u8 list \<Rightarrow> u8 list) \<Rightarrow> ('addr, 'sk) local_account \<Rightarrow> u64 \<Rightarrow>
   ('key, 'addr, unit) executor_handler" where
  "publish_account_resources A auth_key account initial_balance =
     bind_m (lift_m (expect ''AccountResource should serialize'' (ap_account_key A (la_address account)))) (\<lambda>key.
     bind_m (lift_m (expect ''AccountResource BCS''
         (ap_ser_account A (la_sequence_number account) (auth_key (la_public_key account)) (la_address account)))) (\<lambda>bytes.
     then_m (modify_m (set_state_value key bytes)) (
     let effective_balance =
           (if initial_balance > 0 then saturating_add64 initial_balance 1000000000 else initial_balance) in
     then_m (publish_coin_store A (la_address account) effective_balance) (
     then_m (publish_fungible_store A (la_address account) effective_balance)
       (modify_m bump_version)))))"

definition initial_supply :: nat where
  "initial_supply = 1000000000000000000"

text \<open>\<^verbatim>\<open>x?\<close> on a fallible call of another crate.\<close>

definition try_opt :: "'e \<Rightarrow> 'a option \<Rightarrow> ('st, 'e, 'a) handler" where
  "try_opt e x = lift_m (case x of Some a \<Rightarrow> Ok a | None \<Rightarrow> Err e)"

definition ensure_apt_supply ::
  "('key, 'addr, 'tx, 'status, 'out) aptos \<Rightarrow> ('key, 'addr, unit) executor_handler" where
  "ensure_apt_supply A =
     then_m (lift_m (ensure (ap_identifier A ''fungible_asset'') BadIdentifier)) (
     then_m (lift_m (ensure (ap_identifier A ''Supply'') BadIdentifier)) (
     bind_m (gets_m (\<lambda>r. get_state_value r (ap_group_key A (ap_ten A)))) (\<lambda>found.
     bind_m (case found of
         None \<Rightarrow> ret Map.empty
       | Some value \<Rightarrow> try_opt BadSupplyGroup (ap_de_tag_map A value)) (\<lambda>grp.
     bind_m (try_opt NotSerialized (ap_ser_supply A initial_supply)) (\<lambda>supply.
     bind_m (try_opt NotSerialized (ap_ser_concurrent_supply A initial_supply (2 ^ 128 - 1))) (\<lambda>concurrent.
     bind_m (try_opt NotSerialized (ap_ser_tag_map A (grp(SupplyTag \<mapsto> supply, ConcurrentSupplyTag \<mapsto> concurrent)))) (\<lambda>bytes.
       modify_m (\<lambda>r. bump_version (set_state_value (ap_group_key A (ap_ten A)) bytes r)))))))))"

definition apply_genesis :: "('key, 'addr, 'tx, 'status, 'out) aptos \<Rightarrow> ('key, 'addr, unit) executor_handler" where
  "apply_genesis A =
     then_m (modify_m (\<lambda>r. bump_version (apply_writes (ap_genesis A) r))) (ensure_apt_supply A)"

definition new_with_genesis ::
  "('key, 'addr, 'tx, 'status, 'out) aptos \<Rightarrow> ('addr executor_error, 'key test_db_reader) res" where
  "new_with_genesis A =
     (case apply_genesis A test_db_reader_new of (r, db) \<Rightarrow> bind_r r (\<lambda>_. Ok db))"

section \<open>The executor\<close>

text \<open>
  A transaction runs against a snapshot of the state and its writes are applied before the
  next one runs. \<^verbatim>\<open>TransactionResult\<close> is the pair of status and output.
\<close>

fun execute_block ::
  "('key, 'addr, 'tx, 'status, 'out) aptos \<Rightarrow> 'tx list \<Rightarrow> ('key, 'addr, ('status \<times> 'out) list) executor_handler" where
  "execute_block A [] = ret []"
| "execute_block A (txn # txns) =
     bind_m (gets_m (\<lambda>r. ap_execute A (latest_state_checkpoint_view r) txn)) (\<lambda>(status, output).
     then_m (apply_vm_output A output) (
     bind_m (execute_block A txns) (\<lambda>results. ret ((status, output) # results))))"

definition bootstrap_account ::
  "('key, 'addr, 'tx, 'status, 'out) aptos \<Rightarrow> (u8 list \<Rightarrow> u8 list) \<Rightarrow> ('addr, 'sk) local_account \<Rightarrow> u64 \<Rightarrow>
   ('key, 'addr, unit) executor_handler" where
  "bootstrap_account A auth_key account initial_balance = publish_account_resources A auth_key account initial_balance"

definition balance_in ::
  "(val \<Rightarrow> u64 option) \<Rightarrow> object_group \<Rightarrow> struct_tag \<Rightarrow> ('addr executor_error, nat) res" where
  "balance_in de grp tag =
     (case grp tag of
        None \<Rightarrow> Ok 0
      | Some bytes \<Rightarrow> (case de bytes of None \<Rightarrow> Err NotDeserialized | Some balance \<Rightarrow> Ok balance))"

definition coin_balance ::
  "('key, 'addr, 'tx, 'status, 'out) aptos \<Rightarrow> 'key test_db_reader \<Rightarrow> 'addr \<Rightarrow> ('addr executor_error, nat) res" where
  "coin_balance A db address =
     (case ap_coin_key A address of
        None \<Rightarrow> Err NoCoinKey
      | Some key \<Rightarrow>
          (case get_state_value db key of
             None \<Rightarrow> Err (MissingStore address)
           | Some value \<Rightarrow> (case ap_de_coin A value of None \<Rightarrow> Err NotDeserialized | Some coin \<Rightarrow> Ok coin)))"

definition account_balance ::
  "('key, 'addr, 'tx, 'status, 'out) aptos \<Rightarrow> 'key test_db_reader \<Rightarrow> 'addr \<Rightarrow> ('addr executor_error, nat) res" where
  "account_balance A db address =
     (case get_state_value db (ap_group_key A (ap_primary_store A address)) of
        None \<Rightarrow> coin_balance A db address
      | Some value \<Rightarrow>
          (case ap_de_group A value of
             None \<Rightarrow> Err NotDeserialized
           | Some grp \<Rightarrow>
               bind_r (balance_in (ap_de_fungible A) grp FungibleStoreTag) (\<lambda>fungible.
               bind_r (balance_in (ap_de_concurrent A) grp ConcurrentBalanceTag) (\<lambda>concurrent.
                 if fungible + concurrent > 0 then Ok (fungible + concurrent) else coin_balance A db address))))"

section \<open>Lemmas\<close>

text \<open>What the code relies on when it publishes an account and reads its balance back.\<close>

definition publishes :: "('key, 'addr, 'tx, 'status, 'out) aptos \<Rightarrow> 'addr \<Rightarrow> bool" where
  "publishes A address \<longleftrightarrow>
     (\<forall>n key. ap_ser_account A n key address \<noteq> None) \<and>
     ap_account_key A address \<noteq> None \<and> ap_ser_object_core A address (ap_primary_store A address) \<noteq> None \<and>
     ap_ser_migration A \<noteq> None \<and>
     (\<exists>coin. ap_coin_key A address = Some coin \<and> coin \<noteq> ap_group_key A (ap_primary_store A address)) \<and>
     (\<forall>b < 2 ^ 64. \<exists>bytes. ap_ser_coin A b address = Some bytes \<and> ap_de_coin A bytes = Some b) \<and>
     (\<forall>b < 2 ^ 64. \<exists>bytes. ap_ser_fungible A b = Some bytes \<and> ap_de_fungible A bytes = Some b) \<and>
     (\<forall>core fungible flag.
        ap_ser_object_core A address (ap_primary_store A address) = Some core \<longrightarrow> ap_ser_migration A = Some flag \<longrightarrow>
        (\<exists>bytes. ap_ser_group A (store_group core fungible flag) = Some bytes \<and>
           ap_de_group A bytes = Some (store_group core fungible flag)))"

definition account_keys :: "('key, 'addr, 'tx, 'status, 'out) aptos \<Rightarrow> 'addr \<Rightarrow> 'key set" where
  "account_keys A address =
     set_option (ap_account_key A address) \<union> set_option (ap_coin_key A address) \<union> {ap_group_key A (ap_primary_store A address)}"

lemma publishesD:
  assumes "publishes A address" "e < 2 ^ 64"
  obtains key core flag coin ckey fungible gbytes where
    "ap_account_key A address = Some key" "ap_ser_object_core A address (ap_primary_store A address) = Some core"
    "ap_ser_migration A = Some flag" "ap_coin_key A address = Some ckey" "ckey \<noteq> ap_group_key A (ap_primary_store A address)"
    "ap_ser_coin A e address = Some coin" "ap_de_coin A coin = Some e"
    "ap_ser_fungible A e = Some fungible" "ap_de_fungible A fungible = Some e"
    "ap_ser_group A (store_group core fungible flag) = Some gbytes" "ap_de_group A gbytes = Some (store_group core fungible flag)"
proof -
  obtain key core flag ckey where
    "ap_account_key A address = Some key" "ap_ser_object_core A address (ap_primary_store A address) = Some core"
    "ap_ser_migration A = Some flag" "ap_coin_key A address = Some ckey" "ckey \<noteq> ap_group_key A (ap_primary_store A address)"
    using assms(1) unfolding publishes_def not_None_eq by blast
  moreover obtain coin where "ap_ser_coin A e address = Some coin" "ap_de_coin A coin = Some e"
    using assms unfolding publishes_def by blast
  moreover obtain fungible where "ap_ser_fungible A e = Some fungible" "ap_de_fungible A fungible = Some e"
    using assms unfolding publishes_def by blast
  moreover obtain gbytes where
    "ap_ser_group A (store_group core fungible flag) = Some gbytes" "ap_de_group A gbytes = Some (store_group core fungible flag)"
    using assms(1) calculation(2,3) unfolding publishes_def by blast
  ultimately show ?thesis by (rule that)
qed

lemma publish_account_balance:
  assumes "publishes A (la_address account)" "b < 2 ^ 64"
  shows "\<exists>r'. publish_account_resources A auth account b r = (Ok (), r') \<and>
    account_balance A r' (la_address account) = Ok (if b = 0 then 0 else saturating_add64 b 1000000000) \<and>
    latest_version r' = add64 (latest_version r) 1 \<and>
    (\<forall>key. key \<notin> account_keys A (la_address account) \<longrightarrow> get_state_value r' key = get_state_value r key)"
proof -
  let ?a = "la_address account" let ?store = "ap_primary_store A ?a"
  define e where "e = (if b > 0 then saturating_add64 b 1000000000 else b)"
  have "e < 2 ^ 64" using assms(2) by (auto simp: e_def saturating_add64_def min_def)
  from publishesD [OF assms(1) this] obtain key core flag coin ckey fungible gbytes where f:
    "ap_account_key A ?a = Some key" "ap_ser_object_core A ?a ?store = Some core"
    "ap_ser_migration A = Some flag" "ap_coin_key A ?a = Some ckey" "ckey \<noteq> ap_group_key A ?store"
    "ap_ser_coin A e ?a = Some coin" "ap_de_coin A coin = Some e"
    "ap_ser_fungible A e = Some fungible" "ap_de_fungible A fungible = Some e"
    "ap_ser_group A (store_group core fungible flag) = Some gbytes" "ap_de_group A gbytes = Some (store_group core fungible flag)"
    by metis
  obtain bytes where bytes: "ap_ser_account A (la_sequence_number account) (auth (la_public_key account)) ?a = Some bytes"
    using assms(1) unfolding publishes_def not_None_eq by blast
  let ?r = "bump_version (set_state_value (ap_group_key A ?store) gbytes (set_state_value ckey coin (set_state_value key bytes r)))"
  have "publish_account_resources A auth account b r = (Ok (), ?r)"
    using f bytes by (simp add: publish_account_resources_def publish_coin_store_def publish_fungible_store_def monad_defs flip: e_def)
  moreover have s: "get_state_value ?r (ap_group_key A ?store) = Some gbytes" "get_state_value ?r ckey = Some coin"
    "latest_version ?r = add64 (latest_version r) 1"
    using f(5) by (simp_all add: get_state_value_def set_state_value_def bump_version_def latest_version_def)
  moreover have "get_state_value ?r k = get_state_value r k" if "k \<notin> account_keys A ?a" for k
    using that f(1,4) by (simp add: account_keys_def get_state_value_def set_state_value_def bump_version_def)
  moreover have "account_balance A ?r ?a = Ok e"
    using s(1,2) f(4,7,9,11) by (simp add: account_balance_def coin_balance_def balance_in_def store_group_def)
  ultimately show ?thesis by (intro exI [of _ ?r]) (simp add: e_def)
qed

text \<open>
  A block is executed in order: it can be cut anywhere, and as long as no output is malformed
  each transaction is given the state all earlier ones have left and moves the version by one.
\<close>

lemma execute_block_append:
  "execute_block A (xs @ ys) = bind_m (execute_block A xs) (\<lambda>rs. bind_m (execute_block A ys) (\<lambda>rs'. ret (rs @ rs')))"
proof (induction xs)
  case Nil
  show ?case by (rule ext) (simp add: monad_defs split: prod.split res.split)
next
  case (Cons x xs)
  show ?case
    by (rule ext) (auto simp: Cons monad_defs split: prod.split res.split)
qed

definition well_formed_outputs :: "('key, 'addr, 'tx, 'status, 'out) aptos \<Rightarrow> bool" where
  "well_formed_outputs A \<longleftrightarrow> (\<forall>view txn. ap_write_set A (snd (ap_execute A view txn)) \<noteq> None)"

text \<open>The reference: the writes of one transaction as a function on states.\<close>

definition txn_effect :: "('key, 'addr, 'tx, 'status, 'out) aptos \<Rightarrow> 'tx \<Rightarrow> 'key test_db_reader \<Rightarrow> 'key test_db_reader" where
  "txn_effect A txn r =
     (case ap_write_set A (snd (ap_execute A (latest_state_checkpoint_view r) txn)) of
        Some writes \<Rightarrow> bump_version (apply_writes writes r)
      | None \<Rightarrow> r)"

lemma execute_block_total:
  assumes "well_formed_outputs A"
  shows "\<exists>results. execute_block A txns r = (Ok results, fold (txn_effect A) txns r) \<and> length results = length txns \<and>
    (\<forall>i < length txns. results ! i = ap_execute A (latest_state_checkpoint_view (fold (txn_effect A) (take i txns) r)) (txns ! i))"
proof (induction txns arbitrary: r)
  case Nil
  then show ?case by (simp add: ret_def)
next
  case (Cons txn txns)
  obtain status out where o: "ap_execute A (latest_state_checkpoint_view r) txn = (status, out)" by fastforce
  obtain writes where w: "ap_write_set A out = Some writes"
    using assms [unfolded well_formed_outputs_def, rule_format, of "latest_state_checkpoint_view r" txn] o by auto
  let ?r = "txn_effect A txn r"
  have r: "?r = bump_version (apply_writes writes r)" using o w by (simp add: txn_effect_def)
  from Cons [of ?r] obtain results where
    "execute_block A txns ?r = (Ok results, fold (txn_effect A) txns ?r)" "length results = length txns"
    "\<forall>i < length txns. results ! i = ap_execute A (latest_state_checkpoint_view (fold (txn_effect A) (take i txns) ?r)) (txns ! i)"
    by blast
  then show ?case
    using o w r by (auto simp: apply_vm_output_def monad_defs nth_Cons split: nat.split)
qed

lemma apply_writes_version [simp]: "dr_version (apply_writes ws r) = dr_version r"
proof (induction ws arbitrary: r)
  case (Cons w ws)
  then show ?case
    by (cases w) (simp add: apply_writes_def apply_write_op_def remove_state_value_def set_state_value_def split: option.split)
qed (simp add: apply_writes_def)

lemma txn_effect_version:
  assumes "well_formed_outputs A"
  shows "dr_version (fold (txn_effect A) txns r) mod 2 ^ 64 = (dr_version r + length txns) mod 2 ^ 64"
proof (induction txns arbitrary: r)
  case (Cons txn txns)
  obtain writes where "ap_write_set A (snd (ap_execute A (latest_state_checkpoint_view r) txn)) = Some writes"
    using assms by (auto simp: well_formed_outputs_def)
  then have "dr_version (txn_effect A txn r) = add64 (dr_version r) 1"
    by (simp add: txn_effect_def bump_version_def)
  with Cons [of "txn_effect A txn r"] show ?case by (simp add: add64_def mod_add_left_eq add.assoc)
qed simp

section \<open>Properties\<close>

text \<open>
  C26. Bootstrapping an account and asking for its balance returns what was published: zero for
  an unfunded account, and the initial balance with the gas buffer of one billion, saturating
  at the end of \<^verbatim>\<open>u64\<close>, for a funded one. The version moves by one and no
  state key but the three of the account changes. This needs the encodings of the Aptos crates
  to round trip and the coin and object keys of the account to differ.
\<close>

theorem bootstrapped_balance_is_read_back:
  assumes "publishes A (la_address account)" "b < 2 ^ 64"
  shows "\<exists>r'. bootstrap_account A auth account b r = (Ok (), r') \<and>
    account_balance A r' (la_address account) = Ok (if b = 0 then 0 else saturating_add64 b 1000000000) \<and>
    latest_version r' = add64 (latest_version r) 1 \<and>
    (\<forall>key. key \<notin> account_keys A (la_address account) \<longrightarrow> get_state_value r' key = get_state_value r key)"
  unfolding bootstrap_account_def by (rule publish_account_balance [OF assms])

text \<open>
  C25. A block runs strictly in sequence: the result of each transaction is what the virtual
  machine returns on the state left by all earlier transactions of the block, the database
  ends in the state of applying their writes one after the other, the version has moved by the
  number of transactions, and executing a block in two pieces gives the same results. This
  needs every output of the virtual machine to convert into a transaction output, which the
  code expects.
\<close>

theorem blocks_execute_sequentially:
  assumes "well_formed_outputs A"
  shows "\<exists>results. execute_block A (txns @ txns') r = (Ok results, fold (txn_effect A) txns' (fold (txn_effect A) txns r)) \<and>
    length results = length txns + length txns' \<and>
    (\<forall>i < length results. results ! i =
       ap_execute A (latest_state_checkpoint_view (fold (txn_effect A) (take i (txns @ txns')) r)) ((txns @ txns') ! i)) \<and>
    execute_block A txns r = (Ok (take (length txns) results), fold (txn_effect A) txns r) \<and>
    latest_version (snd (execute_block A txns r)) mod 2 ^ 64 = (latest_version r + length txns) mod 2 ^ 64"
proof -
  obtain results where r: "execute_block A (txns @ txns') r = (Ok results, fold (txn_effect A) (txns @ txns') r)"
    "length results = length (txns @ txns')"
    "\<forall>i < length (txns @ txns'). results ! i =
       ap_execute A (latest_state_checkpoint_view (fold (txn_effect A) (take i (txns @ txns')) r)) ((txns @ txns') ! i)"
    using execute_block_total [OF assms, of "txns @ txns'" r] by blast
  obtain rs where rs: "execute_block A txns r = (Ok rs, fold (txn_effect A) txns r)" "length rs = length txns"
    using execute_block_total [OF assms, of txns r] by blast
  obtain rs' where "execute_block A txns' (fold (txn_effect A) txns r) = (Ok rs', fold (txn_effect A) txns' (fold (txn_effect A) txns r))"
    using execute_block_total [OF assms, of txns' "fold (txn_effect A) txns r"] by blast
  then have "results = rs @ rs'"
    using r(1) rs(1) by (simp add: execute_block_append monad_defs)
  then show ?thesis
    using r rs txn_effect_version [OF assms, of txns r] by (simp add: latest_version_def)
qed

subsection \<open>A concrete instance\<close>

text \<open>
  Keys are pairs of an address and the kind of resource, numbers are encoded in unary, and the
  virtual machine writes the version it runs at under the key \<open>target\<close> names for the transaction.
\<close>

definition toy_aptos :: "('tx \<Rightarrow> nat) \<Rightarrow> (nat \<times> nat, nat, 'tx, bool, ((nat \<times> nat) \<times> write_op) list) aptos" where
  "toy_aptos target = \<lparr>
     ap_account_key = (\<lambda>a. Some (a, 0)), ap_coin_key = (\<lambda>a. Some (a, 1)), ap_group_key = (\<lambda>a. (a, 2)),
     ap_primary_store = (\<lambda>a. a + 100), ap_ten = 10,
     ap_ser_account = (\<lambda>n key a. Some key), ap_ser_coin = (\<lambda>b a. Some (replicate b 0)), ap_de_coin = (\<lambda>v. Some (length v)),
     ap_ser_object_core = (\<lambda>a s. Some [0]), ap_ser_fungible = (\<lambda>b. Some (replicate b 0)), ap_de_fungible = (\<lambda>v. Some (length v)),
     ap_ser_migration = Some [1], ap_de_concurrent = (\<lambda>v. Some (length v)),
     ap_ser_group = (\<lambda>g. g FungibleStoreTag), ap_de_group = (\<lambda>v. Some (store_group [0] v [1])),
     ap_ser_tag_map = (\<lambda>g. g SupplyTag), ap_de_tag_map = (\<lambda>v. Some [SupplyTag \<mapsto> v]),
     ap_ser_supply = (\<lambda>n. Some [2]), ap_ser_concurrent_supply = (\<lambda>n m. Some [3]), ap_identifier = (\<lambda>s. s \<noteq> []),
     ap_genesis = [((10, 2), \<lparr>wo_is_delete = False, wo_as_state_value = Some [7]\<rparr>)],
     ap_execute = (\<lambda>view txn.
       (True, [((target txn, 3), \<lparr>wo_is_delete = False, wo_as_state_value = Some [of_nat (sv_version view)]\<rparr>)])),
     ap_write_set = Some\<rparr>"

lemma toy_publishes: "publishes (toy_aptos f) a"
  by (simp add: publishes_def toy_aptos_def store_group_def)

lemma toy_account_keys: "account_keys (toy_aptos f) a = {(a, 0), (a, 1), (a + 100, 2)}"
  by (auto simp: account_keys_def toy_aptos_def)

lemma toy_well_formed: "well_formed_outputs (toy_aptos f)"
  by (simp add: well_formed_outputs_def toy_aptos_def)

definition toy_account :: "(nat, nat) local_account" where
  "toy_account = \<lparr>la_address = 4, la_private_key = 9, la_public_key = [5], la_sequence_number = 0\<rparr>"

theorem bootstrapped_balance_is_read_back_witness:
  "publishes (toy_aptos id) (la_address toy_account) \<and>
   (\<exists>r'. bootstrap_account (toy_aptos id) id toy_account 7 test_db_reader_new = (Ok (), r') \<and>
      account_balance (toy_aptos id) r' 4 = Ok 1000000007 \<and> latest_version r' = 1 \<and> get_state_value r' (5, 1) = None)"
  using bootstrapped_balance_is_read_back [OF toy_publishes [of id], where account = toy_account and b = 7 and auth = id and r = test_db_reader_new]
  by (auto simp: toy_publishes toy_account_def saturating_add64_def latest_version_def test_db_reader_new_def
      toy_account_keys add64_def get_state_value_def)

theorem blocks_execute_sequentially_witness:
  "well_formed_outputs (toy_aptos id) \<and>
   (\<exists>results. execute_block (toy_aptos id) [3, 5] test_db_reader_new =
      (Ok results, fold (txn_effect (toy_aptos id)) [5] (fold (txn_effect (toy_aptos id)) [3] test_db_reader_new)) \<and> length results = 2)"
  using blocks_execute_sequentially [OF toy_well_formed [of id], where txns = "[3]" and txns' = "[5]" and r = test_db_reader_new]
  by (auto simp: toy_well_formed)

end
