(* ===== verification/Transactions.thy ===== *)
theory Transactions
  imports Executor
begin

text \<open>
  Local accounts and the builders of signed transactions (src/aptos_executor/src/accounts.rs,
  transaction_builder.rs). Keys, hashes, encodings and signatures of the Aptos crates are the
  fields of \<open>sdk\<close>; what the builders put into a transaction, in which order they may fail and
  what they leave in the account is the model. A builder is a handler on the account it signs
  for; \<open>now\<close> is the clock it reads, the seconds since the epoch, or \<open>None\<close> for a clock that is
  set before the epoch.
\<close>

section \<open>Transactions\<close>

record 'addr entry_function =
  ef_module :: "'addr \<times> string"
  ef_function :: string
  ef_ty_args :: "('addr \<times> string \<times> string) list"
  ef_args :: "u8 list list"

datatype ('addr, 'p) payload = EntryFunctionPayload "'addr entry_function" | StdlibPayload 'p

record ('addr, 'p, 'chain) raw_transaction =
  rt_sender :: 'addr
  rt_sequence_number :: u64
  rt_payload :: "('addr, 'p) payload"
  rt_max_gas_amount :: u64
  rt_gas_unit_price :: u64
  rt_expiration_secs :: u64
  rt_chain_id :: 'chain

text \<open>A transaction with one signature, or with those of a sender and of secondary signers.\<close>

datatype ('addr, 'p, 'chain, 'sig) signed_transaction =
  SingleSigned (st_raw: "('addr, 'p, 'chain) raw_transaction") "u8 list" 'sig
| MultiAgent (st_raw: "('addr, 'p, 'chain) raw_transaction") "u8 list \<times> 'sig" "'addr list" "(u8 list \<times> 'sig) list"

record ('addr, 'sk, 'p, 'chain, 'sig) sdk =
  sdk_sha3_256 :: "u8 list \<Rightarrow> u8 list"
  sdk_private_key :: "u8 list \<Rightarrow> 'sk option"
  sdk_public_key :: "'sk \<Rightarrow> u8 list"
  sdk_auth_key :: "u8 list \<Rightarrow> u8 list"
  sdk_account_address :: "u8 list \<Rightarrow> 'addr"
  sdk_one :: 'addr
  sdk_identifier :: "string \<Rightarrow> bool"
  sdk_bcs_address :: "'addr \<Rightarrow> u8 list option"
  sdk_bcs_u64 :: "u64 \<Rightarrow> u8 list option"
  sdk_bcs_bool :: "bool \<Rightarrow> u8 list option"
  sdk_publish_payload :: "u8 list \<Rightarrow> u8 list list \<Rightarrow> 'p"
  sdk_sign_raw :: "'sk \<Rightarrow> ('addr, 'p, 'chain) raw_transaction \<Rightarrow> 'sig option"
  sdk_sign_multi :: "'sk \<Rightarrow> ('addr, 'p, 'chain) raw_transaction \<Rightarrow> 'addr list \<Rightarrow> 'sig option"

datatype builder_error =
  KeyNotDerived | InvalidIdentifier string | NotEncoded | NotSigned | NoPackage | NoModules | Failed string

type_synonym ('addr, 'sk, 'a) account_handler = "(('addr, 'sk) local_account, builder_error, 'a) handler"

section \<open>Local accounts\<close>

definition from_private_key ::
  "('addr, 'sk, 'p, 'chain, 'sig) sdk \<Rightarrow> 'sk \<Rightarrow> u64 \<Rightarrow> ('addr, 'sk) local_account" where
  "from_private_key S private_key sequence_number =
     (let public_key = sdk_public_key S private_key in
      \<lparr>la_address = sdk_account_address S (sdk_auth_key S public_key), la_private_key = private_key,
       la_public_key = public_key, la_sequence_number = sequence_number\<rparr>)"

definition account_generate ::
  "('addr, 'sk, 'p, 'chain, 'sig) sdk \<Rightarrow> u64 \<Rightarrow> (builder_error, ('addr, 'sk) local_account) res" where
  "account_generate S seed =
     (case sdk_private_key S (sdk_sha3_256 S (u64_to_le_bytes seed)) of
        None \<Rightarrow> Err KeyNotDerived
      | Some private_key \<Rightarrow> Ok (from_private_key S private_key 0))"

definition next_sequence_number :: "('addr, 'sk) local_account \<Rightarrow> ('addr, 'sk) local_account" where
  "next_sequence_number account = account\<lparr>la_sequence_number := add64 (la_sequence_number account) 1\<rparr>"

definition account_sign ::
  "('addr, 'sk, 'p, 'chain, 'sig) sdk \<Rightarrow> ('addr, 'p, 'chain) raw_transaction \<Rightarrow>
   ('addr, 'sk, ('addr, 'p, 'chain, 'sig) signed_transaction) account_handler" where
  "account_sign S raw_txn =
     bind_m (gets_m (\<lambda>a. (la_private_key a, la_public_key a))) (\<lambda>(private_key, public_key).
     bind_m (try_opt NotSigned (sdk_sign_raw S private_key raw_txn)) (\<lambda>sig.
     then_m (modify_m next_sequence_number) (
       ret (SingleSigned raw_txn public_key sig))))"

section \<open>Builders\<close>

definition default_expiration_secs :: "u64 option \<Rightarrow> u64" where
  "default_expiration_secs now = saturating_add64 (case now of Some t \<Rightarrow> t | None \<Rightarrow> 0) 600"

definition identifier_new :: "('addr, 'sk, 'p, 'chain, 'sig) sdk \<Rightarrow> string \<Rightarrow> ('st, builder_error, unit) handler" where
  "identifier_new S name = lift_m (ensure (sdk_identifier S name) (InvalidIdentifier name))"

text \<open>\<^verbatim>\<open>vec![bcs::to_bytes(..)?, ..]\<close>: the arguments are encoded from left to right.\<close>

fun encode_args :: "u8 list option list \<Rightarrow> ('st, builder_error, u8 list list) handler" where
  "encode_args [] = ret []"
| "encode_args (x # xs) =
     bind_m (try_opt NotEncoded x) (\<lambda>a. bind_m (encode_args xs) (\<lambda>as. ret (a # as)))"

text \<open>\<^verbatim>\<open>RawTransaction::new\<close> as every builder calls it.\<close>

definition raw_transaction_new ::
  "u64 option \<Rightarrow> 'chain \<Rightarrow> ('addr, 'p) payload \<Rightarrow> ('addr, 'sk) local_account \<Rightarrow> ('addr, 'p, 'chain) raw_transaction" where
  "raw_transaction_new now chain_id payload account =
     \<lparr>rt_sender = la_address account, rt_sequence_number = la_sequence_number account, rt_payload = payload,
      rt_max_gas_amount = 2000000, rt_gas_unit_price = 100, rt_expiration_secs = default_expiration_secs now,
      rt_chain_id = chain_id\<rparr>"

definition sign_payload ::
  "('addr, 'sk, 'p, 'chain, 'sig) sdk \<Rightarrow> u64 option \<Rightarrow> 'chain \<Rightarrow> ('addr, 'p) payload \<Rightarrow>
   ('addr, 'sk, ('addr, 'p, 'chain, 'sig) signed_transaction) account_handler" where
  "sign_payload S now chain_id payload =
     bind_m (gets_m (raw_transaction_new now chain_id payload)) (account_sign S)"

definition apt_transfer ::
  "('addr, 'sk, 'p, 'chain, 'sig) sdk \<Rightarrow> u64 option \<Rightarrow> 'addr \<Rightarrow> u64 \<Rightarrow> 'chain \<Rightarrow>
   ('addr, 'sk, ('addr, 'p, 'chain, 'sig) signed_transaction) account_handler" where
  "apt_transfer S now recipient amount chain_id =
     then_m (identifier_new S ''coin'') (then_m (identifier_new S ''transfer'') (
     then_m (identifier_new S ''aptos_coin'') (then_m (identifier_new S ''AptosCoin'') (
     bind_m (encode_args [sdk_bcs_address S recipient, sdk_bcs_u64 S amount]) (\<lambda>args.
       sign_payload S now chain_id (EntryFunctionPayload
         \<lparr>ef_module = (sdk_one S, ''coin''), ef_function = ''transfer'',
          ef_ty_args = [(sdk_one S, ''aptos_coin'', ''AptosCoin'')], ef_args = args\<rparr>))))))"

definition publish_package ::
  "('addr, 'sk, 'p, 'chain, 'sig) sdk \<Rightarrow> u64 option \<Rightarrow> u8 list \<Rightarrow> u8 list list \<Rightarrow> 'chain \<Rightarrow>
   ('addr, 'sk, ('addr, 'p, 'chain, 'sig) signed_transaction) account_handler" where
  "publish_package S now metadata modules chain_id =
     sign_payload S now chain_id (StdlibPayload (sdk_publish_payload S metadata modules))"

text \<open>
  The multi-agent transactions of the market: both the account and the market signer sign the
  raw transaction together with the list of secondary signers.
\<close>

definition build_multi_agent_market_txn ::
  "('addr, 'sk, 'p, 'chain, 'sig) sdk \<Rightarrow> u64 option \<Rightarrow> ('addr, 'sk) local_account \<Rightarrow> 'addr entry_function \<Rightarrow> 'chain \<Rightarrow>
   ('addr, 'sk, ('addr, 'p, 'chain, 'sig) signed_transaction) account_handler" where
  "build_multi_agent_market_txn S now market_signer entry_function chain_id =
     bind_m (gets_m (raw_transaction_new now chain_id (EntryFunctionPayload entry_function))) (\<lambda>raw_txn.
     bind_m (gets_m (\<lambda>a. (la_private_key a, la_public_key a))) (\<lambda>(private_key, public_key).
     let secondary_addresses = [la_address market_signer] in
     bind_m (try_opt NotSigned (sdk_sign_multi S private_key raw_txn secondary_addresses)) (\<lambda>primary_signature.
     bind_m (try_opt NotSigned (sdk_sign_multi S (la_private_key market_signer) raw_txn secondary_addresses)) (\<lambda>market_signature.
     then_m (modify_m next_sequence_number) (
       ret (MultiAgent raw_txn (public_key, primary_signature) secondary_addresses
         [(la_public_key market_signer, market_signature)]))))))"

text \<open>A call of the module \<^verbatim>\<open>market_setup\<close>, as the market builders assemble it.\<close>

definition market_call ::
  "('addr, 'sk, 'p, 'chain, 'sig) sdk \<Rightarrow> 'addr \<Rightarrow> string \<Rightarrow> u8 list option list \<Rightarrow> ('st, builder_error, 'addr entry_function) handler" where
  "market_call S module_owner function args =
     then_m (identifier_new S ''market_setup'') (then_m (identifier_new S function) (
     bind_m (encode_args args) (\<lambda>args.
       ret \<lparr>ef_module = (module_owner, ''market_setup''), ef_function = function, ef_ty_args = [], ef_args = args\<rparr>)))"

definition create_market ::
  "('addr, 'sk, 'p, 'chain, 'sig) sdk \<Rightarrow> u64 option \<Rightarrow> ('addr, 'sk) local_account \<Rightarrow> bool \<Rightarrow> bool \<Rightarrow> u64 \<Rightarrow> 'chain \<Rightarrow>
   ('addr, 'sk, ('addr, 'p, 'chain, 'sig) signed_transaction) account_handler" where
  "create_market S now market_signer allow_self_matching allow_events_emission pre_cancellation_window_secs chain_id =
     bind_m (gets_m la_address) (\<lambda>admin.
     bind_m (market_call S admin ''create_market''
         [sdk_bcs_bool S allow_self_matching, sdk_bcs_bool S allow_events_emission, sdk_bcs_u64 S pre_cancellation_window_secs])
       (\<lambda>entry_function. build_multi_agent_market_txn S now market_signer entry_function chain_id))"

definition register_trader ::
  "('addr, 'sk, 'p, 'chain, 'sig) sdk \<Rightarrow> u64 option \<Rightarrow> 'addr \<Rightarrow> 'chain \<Rightarrow>
   ('addr, 'sk, ('addr, 'p, 'chain, 'sig) signed_transaction) account_handler" where
  "register_trader S now module_owner chain_id =
     bind_m (market_call S module_owner ''register_trader'' [])
       (\<lambda>entry_function. sign_payload S now chain_id (EntryFunctionPayload entry_function))"

definition mint_trader_funds ::
  "('addr, 'sk, 'p, 'chain, 'sig) sdk \<Rightarrow> u64 option \<Rightarrow> 'addr \<Rightarrow> u64 \<Rightarrow> u64 \<Rightarrow> 'chain \<Rightarrow>
   ('addr, 'sk, ('addr, 'p, 'chain, 'sig) signed_transaction) account_handler" where
  "mint_trader_funds S now trader base_amount quote_amount chain_id =
     bind_m (gets_m la_address) (\<lambda>admin.
     bind_m (market_call S admin ''mint_to_trader''
         [sdk_bcs_address S trader, sdk_bcs_u64 S base_amount, sdk_bcs_u64 S quote_amount])
       (\<lambda>entry_function. sign_payload S now chain_id (EntryFunctionPayload entry_function)))"

definition place_limit_order_with_client_id ::
  "('addr, 'sk, 'p, 'chain, 'sig) sdk \<Rightarrow> u64 option \<Rightarrow> 'addr \<Rightarrow> ('addr, 'sk) local_account \<Rightarrow> u64 \<Rightarrow> u64 \<Rightarrow> bool \<Rightarrow> u64 \<Rightarrow> 'chain \<Rightarrow>
   ('addr, 'sk, ('addr, 'p, 'chain, 'sig) signed_transaction) account_handler" where
  "place_limit_order_with_client_id S now module_owner market_signer limit_price sz is_bid client_order_id chain_id =
     bind_m (market_call S module_owner ''place_limit_order_with_client_id''
         [sdk_bcs_u64 S limit_price, sdk_bcs_u64 S sz, sdk_bcs_bool S is_bid, sdk_bcs_u64 S client_order_id])
       (\<lambda>entry_function. build_multi_agent_market_txn S now market_signer entry_function chain_id)"

definition cancel_order_by_client_id ::
  "('addr, 'sk, 'p, 'chain, 'sig) sdk \<Rightarrow> u64 option \<Rightarrow> 'addr \<Rightarrow> ('addr, 'sk) local_account \<Rightarrow> u64 \<Rightarrow> 'chain \<Rightarrow>
   ('addr, 'sk, ('addr, 'p, 'chain, 'sig) signed_transaction) account_handler" where
  "cancel_order_by_client_id S now module_owner market_signer client_order_id chain_id =
     bind_m (market_call S module_owner ''cancel_order_by_client_id'' [sdk_bcs_u64 S client_order_id])
       (\<lambda>entry_function. build_multi_agent_market_txn S now market_signer entry_function chain_id)"

definition decrease_order_size_by_client_id ::
  "('addr, 'sk, 'p, 'chain, 'sig) sdk \<Rightarrow> u64 option \<Rightarrow> 'addr \<Rightarrow> ('addr, 'sk) local_account \<Rightarrow> u64 \<Rightarrow> u64 \<Rightarrow> 'chain \<Rightarrow>
   ('addr, 'sk, ('addr, 'p, 'chain, 'sig) signed_transaction) account_handler" where
  "decrease_order_size_by_client_id S now module_owner market_signer client_order_id size_delta chain_id =
     bind_m (market_call S module_owner ''decrease_order_size_by_client_id''
         [sdk_bcs_u64 S client_order_id, sdk_bcs_u64 S size_delta])
       (\<lambda>entry_function. build_multi_agent_market_txn S now market_signer entry_function chain_id)"

definition replace_order_by_client_id ::
  "('addr, 'sk, 'p, 'chain, 'sig) sdk \<Rightarrow> u64 option \<Rightarrow> 'addr \<Rightarrow> ('addr, 'sk) local_account \<Rightarrow> u64 \<Rightarrow> u64 \<Rightarrow> u64 \<Rightarrow> bool \<Rightarrow> 'chain \<Rightarrow>
   ('addr, 'sk, ('addr, 'p, 'chain, 'sig) signed_transaction) account_handler" where
  "replace_order_by_client_id S now module_owner market_signer client_order_id limit_price sz is_bid chain_id =
     bind_m (market_call S module_owner ''replace_order_by_client_id''
         [sdk_bcs_u64 S client_order_id, sdk_bcs_u64 S limit_price, sdk_bcs_u64 S sz, sdk_bcs_bool S is_bid])
       (\<lambda>entry_function. build_multi_agent_market_txn S now market_signer entry_function chain_id)"

section \<open>What every builder does\<close>

text \<open>
  The contract of a builder: it consumes one sequence number and puts it into the transaction,
  or fails and leaves the account alone.
\<close>

definition builder ::
  "('addr, 'sk, 'p, 'chain, 'sig) sdk \<Rightarrow> u64 option \<Rightarrow> 'chain \<Rightarrow>
   ('addr, 'sk, ('addr, 'p, 'chain, 'sig) signed_transaction) account_handler \<Rightarrow> bool" where
  "builder S now chain_id m \<longleftrightarrow>
     (\<forall>account. (\<exists>txn payload. m account = (Ok txn, next_sequence_number account) \<and>
         st_raw txn = raw_transaction_new now chain_id payload account) \<or>
       (\<exists>e. m account = (Err e, account)))"

lemma builder_bind:
  assumes "\<And>account. (\<exists>x. m account = (Ok x, account)) \<or> (\<exists>e. m account = (Err e, account))"
    "\<And>x. builder S now chain_id (f x)"
  shows "builder S now chain_id (bind_m m f)"
  unfolding builder_def
proof (rule allI, goal_cases)
  case (1 account)
  from assms(1) [of account] show ?case
  proof (elim disjE exE)
    fix x assume "m account = (Ok x, account)"
    then show ?thesis using assms(2) [of x] by (simp add: builder_def bind_m_def)
  qed (simp add: bind_m_def)
qed

lemma encode_args_pure: "(\<exists>x. encode_args xs s = (Ok x, s)) \<or> (\<exists>e. encode_args xs s = (Err e, s))"
  by (induction xs) (auto simp: monad_defs try_opt_def split: option.split)

lemma market_call_pure: "(\<exists>x. market_call S owner fn args s = (Ok x, s)) \<or> (\<exists>e. market_call S owner fn args s = (Err e, s))"
  using encode_args_pure [of args s] by (auto simp: market_call_def identifier_new_def monad_defs)

lemma sign_payload_builder: "builder S now chain_id (sign_payload S now chain_id payload)"
  by (auto simp: builder_def sign_payload_def account_sign_def try_opt_def monad_defs split: option.split)

lemma multi_agent_builder: "builder S now chain_id (build_multi_agent_market_txn S now signer entry chain_id)"
  by (auto simp: builder_def build_multi_agent_market_txn_def try_opt_def monad_defs Let_def split: option.split)

lemma identifier_builder: "builder S now chain_id m \<Longrightarrow> builder S now chain_id (then_m (identifier_new S name) m)"
  unfolding then_m_def by (rule builder_bind) (auto simp: identifier_new_def monad_defs)

lemma gets_builder: "(\<And>x. builder S now chain_id (m x)) \<Longrightarrow> builder S now chain_id (bind_m (gets_m f) m)"
  by (rule builder_bind) (auto simp: gets_m_def)

lemmas builder_intros = identifier_builder gets_builder sign_payload_builder multi_agent_builder
  builder_bind [OF market_call_pure] builder_bind [OF encode_args_pure]

lemma builders:
  "builder S now chain_id (apt_transfer S now recipient amount chain_id)"
  "builder S now chain_id (publish_package S now metadata modules chain_id)"
  "builder S now chain_id (create_market S now signer self_matching events window chain_id)"
  "builder S now chain_id (register_trader S now owner chain_id)"
  "builder S now chain_id (mint_trader_funds S now trader base quote chain_id)"
  "builder S now chain_id (place_limit_order_with_client_id S now owner signer price sz bid cid chain_id)"
  "builder S now chain_id (cancel_order_by_client_id S now owner signer cid chain_id)"
  "builder S now chain_id (decrease_order_size_by_client_id S now owner signer cid delta chain_id)"
  "builder S now chain_id (replace_order_by_client_id S now owner signer cid price sz bid chain_id)"
  unfolding apt_transfer_def publish_package_def create_market_def register_trader_def mint_trader_funds_def
    place_limit_order_with_client_id_def cancel_order_by_client_id_def decrease_order_size_by_client_id_def
    replace_order_by_client_id_def
  by (intro builder_intros)+

section \<open>Sequence numbers\<close>

text \<open>A client that calls builders one after the other on its account and keeps what succeeds.\<close>

fun build_all ::
  "('addr, 'sk, ('addr, 'p, 'chain, 'sig) signed_transaction) account_handler list \<Rightarrow> ('addr, 'sk) local_account \<Rightarrow>
   ('addr, 'p, 'chain, 'sig) signed_transaction list \<times> ('addr, 'sk) local_account" where
  "build_all [] account = ([], account)"
| "build_all (m # ms) account =
     (case m account of (r, account') \<Rightarrow>
      case build_all ms account' of (txns, account'') \<Rightarrow>
        ((case r of Ok txn \<Rightarrow> txn # txns | _ \<Rightarrow> txns), account''))"

inductive builder_call ::
  "('addr, 'sk, 'p, 'chain, 'sig) sdk \<Rightarrow> 'chain \<Rightarrow>
   ('addr, 'sk, ('addr, 'p, 'chain, 'sig) signed_transaction) account_handler \<Rightarrow> bool"
  for S chain_id where
  "builder_call S chain_id (apt_transfer S now recipient amount chain_id)"
| "builder_call S chain_id (publish_package S now metadata modules chain_id)"
| "builder_call S chain_id (create_market S now signer self_matching events window chain_id)"
| "builder_call S chain_id (register_trader S now owner chain_id)"
| "builder_call S chain_id (mint_trader_funds S now trader base quote chain_id)"
| "builder_call S chain_id (place_limit_order_with_client_id S now owner signer price sz bid cid chain_id)"
| "builder_call S chain_id (cancel_order_by_client_id S now owner signer cid chain_id)"
| "builder_call S chain_id (decrease_order_size_by_client_id S now owner signer cid delta chain_id)"
| "builder_call S chain_id (replace_order_by_client_id S now owner signer cid price sz bid chain_id)"

lemma builder_call_builder: "builder_call S chain_id m \<Longrightarrow> \<exists>now. builder S now chain_id m"
  by (induction rule: builder_call.induct) (blast intro: builders)+

definition numbered :: "('addr, 'p, 'chain, 'sig) signed_transaction \<Rightarrow> 'addr \<times> u64 \<times> 'chain" where
  "numbered txn = (rt_sender (st_raw txn), rt_sequence_number (st_raw txn), rt_chain_id (st_raw txn))"

lemma numbered_raw:
  "st_raw txn = raw_transaction_new now chain_id payload account \<Longrightarrow>
   numbered txn = (la_address account, la_sequence_number account, chain_id)"
  by (simp add: numbered_def raw_transaction_new_def)

lemma build_all_numbers:
  assumes "\<forall>m \<in> set ms. \<exists>now. builder S now chain_id m" "la_sequence_number account < 2 ^ 64"
    "build_all ms account = (txns, account')"
  shows "map numbered txns =
      map (\<lambda>i. (la_address account, add64 (la_sequence_number account) i, chain_id)) [0..<length txns] \<and>
    account' = account\<lparr>la_sequence_number := add64 (la_sequence_number account) (length txns)\<rparr>"
  using assms
proof (induction ms arbitrary: account txns)
  case Nil
  then show ?case by simp
next
  case (Cons m ms)
  then obtain now where "builder S now chain_id m" by auto
  then consider (built) txn payload where "m account = (Ok txn, next_sequence_number account)"
      "st_raw txn = raw_transaction_new now chain_id payload account"
    | (failed) e where "m account = (Err e, account)"
    unfolding builder_def by blast
  then show ?case
  proof cases
    case built
    obtain rest where rest: "build_all ms (next_sequence_number account) = (rest, account')" "txns = txn # rest"
      using Cons.prems(3) built(1) by (auto split: prod.splits)
    have bound: "la_sequence_number (next_sequence_number account) < 2 ^ 64"
      unfolding next_sequence_number_def by (simp add: add64_def)
    have shift: "add64 (la_sequence_number (next_sequence_number account)) i = add64 (la_sequence_number account) (Suc i)" for i
      by (simp add: next_sequence_number_def add64_def mod_simps)
    have "add64 (la_sequence_number account) 0 = la_sequence_number account"
      using Cons.prems(2) by simp
    with Cons.IH [OF _ bound rest(1)] Cons.prems(1) show ?thesis
      unfolding rest(2) shift by (simp add: numbered_raw [OF built(2)] next_sequence_number_def upt_conv_Cons map_Suc_upt [symmetric] del: upt_Suc)
  next
    case failed
    then show ?thesis using Cons by (auto split: prod.splits)
  qed
qed

text \<open>
  C28. Whatever builders a client calls on its account, and whichever of them fail, the
  transactions it obtains are all for its address and its chain and carry consecutive sequence
  numbers from the account's on, without a gap or a repetition (up to the wrap-around at
  \<open>2 ^ 64\<close>); the account is left with the next free number and otherwise unchanged.
\<close>

theorem sequence_numbers_have_no_gaps:
  assumes "\<forall>m \<in> set ms. builder_call S chain_id m" "la_sequence_number account < 2 ^ 64"
    "build_all ms account = (txns, account')"
  shows "map numbered txns =
      map (\<lambda>i. (la_address account, add64 (la_sequence_number account) i, chain_id)) [0..<length txns] \<and>
    account' = account\<lparr>la_sequence_number := add64 (la_sequence_number account) (length txns)\<rparr>"
proof -
  have "\<forall>m \<in> set ms. \<exists>now. builder S now chain_id m" using assms(1) by (simp add: builder_call_builder)
  then show ?thesis using assms(2,3) by (rule build_all_numbers)
qed

text \<open>A concrete kit: the address of a key is the key, and the number 13 has no encoding.\<close>

definition toy_sdk :: "(nat, nat, unit, nat, nat) sdk" where
  "toy_sdk = \<lparr>sdk_sha3_256 = id, sdk_private_key = (\<lambda>bs. Some (unat (hd bs))), sdk_public_key = (\<lambda>k. [of_nat k]),
     sdk_auth_key = id, sdk_account_address = (\<lambda>bs. unat (hd bs)), sdk_one = 1, sdk_identifier = (\<lambda>name. name \<noteq> []),
     sdk_bcs_address = (\<lambda>a. Some [of_nat a]), sdk_bcs_u64 = (\<lambda>n. if n = 13 then None else Some [of_nat n]),
     sdk_bcs_bool = (\<lambda>b. Some [if b then 1 else 0]), sdk_publish_payload = (\<lambda>_ _. ()),
     sdk_sign_raw = (\<lambda>k _. Some k), sdk_sign_multi = (\<lambda>k _ _. Some k)\<rparr>"

theorem sequence_numbers_have_no_gaps_witness:
  "map numbered (fst (build_all [apt_transfer toy_sdk (Some 5) 9 100 7, apt_transfer toy_sdk None 9 13 7,
     register_trader toy_sdk (Some 6) 3 7] toy_account)) = [(4, 0, 7), (4, 1, 7)]"
proof -
  let ?ms = "[apt_transfer toy_sdk (Some 5) 9 100 7, apt_transfer toy_sdk None 9 13 7, register_trader toy_sdk (Some 6) 3 7]"
  obtain txns account' where r: "build_all ?ms toy_account = (txns, account')" by fastforce
  have "length txns = 2"
    using r by (auto simp: apt_transfer_def register_trader_def market_call_def identifier_new_def try_opt_def
        sign_payload_def account_sign_def monad_defs toy_sdk_def)
  moreover have "\<forall>m \<in> set ?ms. builder_call toy_sdk 7 m" by (simp add: builder_call.intros)
  ultimately show ?thesis
    using sequence_numbers_have_no_gaps [of ?ms toy_sdk 7 toy_account txns account', OF _ _ r] r
    by (simp add: toy_account_def numeral_2_eq_2 add64_def)
qed

end
