(* ===== verification/Scenario.thy ===== *)
theory Scenario
  imports Transactions "HOL-Library.Char_ord" "HOL-Library.Sublist"
begin

text \<open>
  The order-book demonstration (src/aptos_executor/src/scenarios/three_trader.rs and the
  programs under src/aptos_executor/src/bin/): where the compiled package is found and how it
  is loaded, the fifteen transactions of the scenario, their execution on the virtual machine
  and the loop that watches a node's log. The file system and the environment variables are
  the fields of \<open>files\<close>; paths are strings. The texts that \<^verbatim>\<open>context\<close> adds to an error are left out.
\<close>

section \<open>Paths and files\<close>

record files =
  f_var :: "string \<Rightarrow> string option"
  f_exists :: "string \<Rightarrow> bool"
  f_read :: "string \<Rightarrow> u8 list option"
  f_read_dir :: "string \<Rightarrow> string option list option"

text \<open>\<^verbatim>\<open>Path::join\<close> with a relative path, and \<^verbatim>\<open>Path::extension\<close> of a file name.\<close>

definition path_join :: "string \<Rightarrow> string \<Rightarrow> string" where
  "path_join a b = (if a = [] \<or> last a = CHR ''/'' then a @ b else a @ ''/'' @ b)"

definition extension :: "string \<Rightarrow> string option" where
  "extension name =
     (let ext = takeWhile (\<lambda>c. c \<noteq> CHR ''.'') (rev name)
      in if length name \<le> Suc (length ext) then None else Some (rev ext))"

definition resolve_package_dir :: "files \<Rightarrow> (builder_error, string) res" where
  "resolve_package_dir F =
     (case f_var F ''HYDRANGEA_MARKET_PACKAGE_DIR'' of
        Some path \<Rightarrow> if f_exists F path then Ok path else Err NoPackage
      | None \<Rightarrow>
          if f_exists F ''move/simple_market/build/simple_market'' then Ok ''move/simple_market/build/simple_market''
          else let
            root = (case f_var F ''ORDERBOOK_POC_ROOT'' of
                None \<Rightarrow> None
              | Some root \<Rightarrow> let candidate = path_join root ''move/simple_market/build/simple_market''
                  in if f_exists F candidate then Some candidate else None);
            home = (case f_var F ''HOME'' of
                None \<Rightarrow> None
              | Some home \<Rightarrow> let candidate = path_join home ''Desktop/orderbook_poc/move/simple_market/build/simple_market''
                  in if f_exists F candidate then Some candidate else None)
          in case root of Some candidate \<Rightarrow> Ok candidate
             | None \<Rightarrow> (case home of Some candidate \<Rightarrow> Ok candidate | None \<Rightarrow> Err NoPackage))"

fun collect_entries :: "string option list \<Rightarrow> (builder_error, string list) res" where
  "collect_entries [] = Ok []"
| "collect_entries (None # entries) = Err (Failed ''failed to read entry'')"
| "collect_entries (Some name # entries) = bind_r (collect_entries entries) (\<lambda>names. Ok (name # names))"

fun read_modules :: "files \<Rightarrow> string \<Rightarrow> string list \<Rightarrow> (builder_error, u8 list list) res" where
  "read_modules F dir [] = Ok []"
| "read_modules F dir (name # names) =
     (if extension name \<noteq> Some ''mv'' then read_modules F dir names
      else case f_read F (path_join dir name) of
        None \<Rightarrow> Err (Failed ''failed to read compiled module'')
      | Some bytes \<Rightarrow> bind_r (read_modules F dir names) (\<lambda>modules. Ok (bytes # modules)))"

definition load_package_artifacts :: "files \<Rightarrow> string \<Rightarrow> (builder_error, u8 list \<times> u8 list list) res" where
  "load_package_artifacts F package_dir =
     (case f_read F (path_join package_dir ''package-metadata.bcs'') of
        None \<Rightarrow> Err (Failed ''failed to read package metadata'')
      | Some metadata \<Rightarrow>
          let modules_dir = path_join package_dir ''bytecode_modules'' in
          (case f_read_dir F modules_dir of
             None \<Rightarrow> Err (Failed ''failed to list module directory'')
           | Some entries \<Rightarrow>
               bind_r (collect_entries entries) (\<lambda>names.
               bind_r (read_modules F modules_dir (sort names)) (\<lambda>modules.
                 if modules = [] then Err NoModules else Ok (metadata, modules)))))"

section \<open>The scenario\<close>

definition trader_a_seed :: u64 where "trader_a_seed = 1"
definition trader_b_seed :: u64 where "trader_b_seed = 2"
definition trader_c_seed :: u64 where "trader_c_seed = 3"
definition trader_d_seed :: u64 where "trader_d_seed = 4"
definition expected_scenario_txns :: usize where "expected_scenario_txns = 15"

record ('addr, 'p, 'chain, 'sig) scenario_txn =
  sc_label :: string
  sc_txn :: "('addr, 'p, 'chain, 'sig) signed_transaction"

text \<open>
  The three accounts that sign are three mutable variables. A step is a label, the account it
  signs for and the call of a builder; the steps run in order and the first error ends them.
\<close>

datatype trader = TraderA | TraderB | TraderC

type_synonym ('addr, 'sk, 'p, 'chain, 'sig) scenario_step =
  "string \<times> trader \<times> ('addr, 'sk, ('addr, 'p, 'chain, 'sig) signed_transaction) account_handler"

fun push_steps ::
  "('addr, 'sk, 'p, 'chain, 'sig) scenario_step list \<Rightarrow> (trader \<Rightarrow> ('addr, 'sk) local_account) \<Rightarrow>
   (builder_error, ('addr, 'p, 'chain, 'sig) scenario_txn list) res" where
  "push_steps [] accounts = Ok []"
| "push_steps ((label, trader, m) # rest) accounts =
     (case m (accounts trader) of (r, account) \<Rightarrow>
        bind_r r (\<lambda>txn.
        bind_r (push_steps rest (accounts(trader := account))) (\<lambda>txns.
          Ok (\<lparr>sc_label = label, sc_txn = txn\<rparr> # txns))))"

definition scenario_steps ::
  "('addr, 'sk, 'p, 'chain, 'sig) sdk \<Rightarrow> (nat \<Rightarrow> u64 option) \<Rightarrow> (trader \<Rightarrow> 'addr) \<Rightarrow> ('addr, 'sk) local_account \<Rightarrow>
   u8 list \<Rightarrow> u8 list list \<Rightarrow> 'chain \<Rightarrow> ('addr, 'sk, 'p, 'chain, 'sig) scenario_step list" where
  "scenario_steps S clock address market_signer metadata modules chain_id =
     (let owner = address TraderA in
     [(''Publish simple_market package'', TraderA, publish_package S (clock 0) metadata modules chain_id),
      (''Create market (no self-match, emit events)'', TraderA, create_market S (clock 1) market_signer False True 60 chain_id),
      (''Register Trader A'', TraderA, register_trader S (clock 2) owner chain_id),
      (''Register Trader B'', TraderB, register_trader S (clock 3) owner chain_id),
      (''Register Trader C'', TraderC, register_trader S (clock 4) owner chain_id),
      (''Mint Trader A demo balances'', TraderA,
         mint_trader_funds S (clock 5) (address TraderA) 1000000000 1000000000 chain_id),
      (''Mint Trader B demo balances'', TraderA,
         mint_trader_funds S (clock 6) (address TraderB) 1000000000 1000000000 chain_id),
      (''Mint Trader C demo balances'', TraderA,
         mint_trader_funds S (clock 7) (address TraderC) 1000000000 1000000000 chain_id),
      (''Trader A places ask @ '' @ show_nat 1000 @ '' (size '' @ show_nat 10 @ '')'', TraderA,
         place_limit_order_with_client_id S (clock 8) owner market_signer 1000 10 False 1 chain_id),
      (''Trader B places ask @ '' @ show_nat 1500 @ '' (size '' @ show_nat 20 @ '')'', TraderB,
         place_limit_order_with_client_id S (clock 9) owner market_signer 1500 20 False 2 chain_id),
      (''Trader A cancels ask'', TraderA, cancel_order_by_client_id S (clock 10) owner market_signer 1 chain_id),
      (''Trader B decreases ask by '' @ show_nat 10, TraderB,
         decrease_order_size_by_client_id S (clock 11) owner market_signer 2 10 chain_id),
      (''Trader C places bid @ '' @ show_nat 1500 @ '' (size '' @ show_nat 8 @ '')'', TraderC,
         place_limit_order_with_client_id S (clock 12) owner market_signer 1500 8 True 3 chain_id),
      (''Trader B reprices ask @ '' @ show_nat 1800 @ '' (size '' @ show_nat 2 @ '')'', TraderB,
         replace_order_by_client_id S (clock 13) owner market_signer 2 1800 2 False chain_id),
      (''Trader A places bid @ '' @ show_nat 1800 @ '' (size '' @ show_nat 10 @ '')'', TraderA,
         place_limit_order_with_client_id S (clock 14) owner market_signer 1800 10 True 4 chain_id)])"

definition build_three_trader_transactions ::
  "('addr, 'sk, 'p, 'chain, 'sig) sdk \<Rightarrow> files \<Rightarrow> (nat \<Rightarrow> u64 option) \<Rightarrow> string \<Rightarrow> 'chain \<Rightarrow>
   (builder_error, ('addr, 'p, 'chain, 'sig) scenario_txn list) res" where
  "build_three_trader_transactions S F clock package_dir chain_id =
     bind_r (account_generate S trader_a_seed) (\<lambda>trader_a.
     bind_r (account_generate S trader_b_seed) (\<lambda>market_signer.
     bind_r (account_generate S trader_c_seed) (\<lambda>trader_b.
     bind_r (account_generate S trader_d_seed) (\<lambda>trader_c.
     let accounts = (\<lambda>t. case t of TraderA \<Rightarrow> trader_a | TraderB \<Rightarrow> trader_b | TraderC \<Rightarrow> trader_c) in
     bind_r (load_package_artifacts F package_dir) (\<lambda>(metadata, modules).
       push_steps (scenario_steps S clock (la_address \<circ> accounts) market_signer metadata modules chain_id) accounts)))))"

section \<open>Running the scenario on the virtual machine\<close>

definition map_err_m :: "('e \<Rightarrow> 'f) \<Rightarrow> ('st, 'e, 'a) handler \<Rightarrow> ('st, 'f, 'a) handler" where
  "map_err_m g m = (\<lambda>s. case m s of (r, s') \<Rightarrow> (map_err g r, s'))"

fun bootstrap_deterministic_accounts ::
  "('key, 'addr, 'tx, 'status, 'out) aptos \<Rightarrow> ('addr, 'sk, 'p, 'chain, 'sig) sdk \<Rightarrow> u64 list \<Rightarrow>
   ('key test_db_reader, builder_error, unit) handler" where
  "bootstrap_deterministic_accounts A S [] = ret ()"
| "bootstrap_deterministic_accounts A S (seed # seeds) =
     bind_m (lift_m (account_generate S seed)) (\<lambda>account.
     then_m (map_err_m (\<lambda>_. Failed ''bootstrap'') (bootstrap_account A (sdk_auth_key S) account 1000000000000))
       (bootstrap_deterministic_accounts A S seeds))"

fun vm_steps ::
  "('key, 'addr, ('addr, 'p, 'chain, 'sig) signed_transaction, 'status, 'out) aptos \<Rightarrow> ('status \<Rightarrow> bool) \<Rightarrow>
   ('addr, 'p, 'chain, 'sig) scenario_txn list \<Rightarrow> ('key test_db_reader, builder_error, unit) handler" where
  "vm_steps A executed [] = ret ()"
| "vm_steps A executed (x # xs) =
     bind_m (map_err_m (\<lambda>_. Failed ''execute'') (execute_block A [sc_txn x])) (\<lambda>results.
       if results = [] then raise (Failed ''VM executor returned no result for transaction'')
       else if executed (fst (last results)) then vm_steps A executed xs
       else raise (Failed (sc_label x)))"

definition three_trader_vm ::
  "('key, 'addr, ('addr, 'p, 'chain, 'sig) signed_transaction, 'status, 'out) aptos \<Rightarrow> ('status \<Rightarrow> bool) \<Rightarrow>
   ('addr, 'sk, 'p, 'chain, 'sig) sdk \<Rightarrow> files \<Rightarrow> (nat \<Rightarrow> u64 option) \<Rightarrow> 'chain \<Rightarrow> (builder_error, 'key test_db_reader) res" where
  "three_trader_vm A executed S F clock chain_id =
     bind_r (resolve_package_dir F) (\<lambda>package_dir.
     bind_r (map_err (\<lambda>_. Failed ''failed to construct Aptos VM executor'') (new_with_genesis A)) (\<lambda>db.
     case bootstrap_deterministic_accounts A S [trader_a_seed, trader_b_seed, trader_c_seed, trader_d_seed] db of (r, db) \<Rightarrow>
       bind_r r (\<lambda>_.
       bind_r (build_three_trader_transactions S F clock package_dir chain_id) (\<lambda>scenario.
         if length scenario \<noteq> expected_scenario_txns then Err (Failed ''unexpected number of transactions'')
         else case vm_steps A executed scenario db of (r, db) \<Rightarrow> bind_r r (\<lambda>_. Ok db)))))"

section \<open>Waiting for the log\<close>

text \<open>
  Each round of the loop sees the time that has passed and the log file as it is then: not
  there, unreadable, or a text. \<^verbatim>\<open>read_line\<close> returns the lines with their line
  feeds; the last one may lack it. \<open>None\<close> stands for a loop that is still running when
  the observed rounds end.
\<close>

datatype log_poll = NotOpened | ReadFails | LogText string

definition line_feed :: char where
  "line_feed = CHR 0x0A"

fun log_lines :: "string \<Rightarrow> string list" where
  "log_lines [] = []"
| "log_lines (c # s) =
     (if c = line_feed then [c] # log_lines s
      else case log_lines s of [] \<Rightarrow> [[c]] | l # ls \<Rightarrow> (c # l) # ls)"

fun contains :: "string \<Rightarrow> string \<Rightarrow> bool" where
  "contains needle [] = (needle = [])"
| "contains needle (c # s) = (prefix needle (c # s) \<or> contains needle s)"

definition to_ascii_uppercase :: "string \<Rightarrow> string" where
  "to_ascii_uppercase = map (\<lambda>c. if CHR ''a'' \<le> c \<and> c \<le> CHR ''z'' then char_of ((of_char c :: nat) - 32) else c)"

definition executed_line :: "string \<Rightarrow> bool" where
  "executed_line line \<longleftrightarrow> contains ''Executed transaction'' line \<and> contains ''STATUS=EXECUTED'' (to_ascii_uppercase line)"

definition executed_count :: "string \<Rightarrow> nat" where
  "executed_count text = length (filter executed_line (log_lines text))"

fun wait_for_execution_logs ::
  "nat \<Rightarrow> usize \<Rightarrow> (nat \<times> log_poll) list \<Rightarrow> usize \<Rightarrow> u64 \<Rightarrow> (builder_error, unit) res option" where
  "wait_for_execution_logs timeout expected [] processed offset = None"
| "wait_for_execution_logs timeout expected ((elapsed, poll) # polls) processed offset =
     (if elapsed > timeout then Some (Err (Failed ''timed out''))
      else case poll of
        ReadFails \<Rightarrow> Some (Err (Failed ''failed to read log''))
      | NotOpened \<Rightarrow>
          if processed \<ge> expected then Some (Ok ()) else wait_for_execution_logs timeout expected polls processed offset
      | LogText text \<Rightarrow>
          let processed = processed + executed_count (drop offset text); offset = max offset (length text) in
          if processed \<ge> expected then Some (Ok ()) else wait_for_execution_logs timeout expected polls processed offset)"

section \<open>What the builders need to succeed\<close>

definition sdk_total :: "('addr, 'sk, 'p, 'chain, 'sig) sdk \<Rightarrow> bool" where
  "sdk_total S \<longleftrightarrow>
     (\<forall>name \<in> set [''market_setup'', ''create_market'', ''register_trader'', ''mint_to_trader'',
        ''place_limit_order_with_client_id'', ''cancel_order_by_client_id'', ''decrease_order_size_by_client_id'',
        ''replace_order_by_client_id'']. sdk_identifier S name) \<and>
     (\<forall>a. sdk_bcs_address S a \<noteq> None) \<and> (\<forall>n. sdk_bcs_u64 S n \<noteq> None) \<and> (\<forall>b. sdk_bcs_bool S b \<noteq> None) \<and>
     (\<forall>k raw. sdk_sign_raw S k raw \<noteq> None) \<and> (\<forall>k raw as. sdk_sign_multi S k raw as \<noteq> None) \<and>
     (\<forall>seed. sdk_private_key S (sdk_sha3_256 S (u64_to_le_bytes seed)) \<noteq> None)"

text \<open>A builder that cannot fail, for a transaction of the given account.\<close>

definition builds :: "'chain \<Rightarrow> ('addr, 'sk, ('addr, 'p, 'chain, 'sig) signed_transaction) account_handler \<Rightarrow> bool" where
  "builds chain_id m \<longleftrightarrow>
     (\<forall>account. \<exists>txn. m account = (Ok txn, next_sequence_number account) \<and>
        numbered txn = (la_address account, la_sequence_number account, chain_id))"

lemma builds_bind:
  assumes "\<And>account. \<exists>x. m account = (Ok x, account)" "\<And>x. builds chain_id (f x)"
  shows "builds chain_id (bind_m m f)"
  unfolding builds_def
proof (rule allI, goal_cases)
  case (1 account)
  obtain x where "m account = (Ok x, account)" using assms(1) by blast
  then show ?case using assms(2) [of x] by (simp add: builds_def bind_m_def)
qed

lemma encode_args_total: "\<forall>x \<in> set xs. x \<noteq> None \<Longrightarrow> \<exists>as. encode_args xs s = (Ok as, s)"
  by (induction xs) (auto simp: monad_defs try_opt_def)

lemma market_call_total:
  assumes "sdk_identifier S ''market_setup''" "sdk_identifier S fn" "\<forall>x \<in> set xs. x \<noteq> None"
  shows "\<exists>x. market_call S owner fn xs s = (Ok x, s)"
  using assms encode_args_total [of xs s] by (auto simp: market_call_def identifier_new_def monad_defs)

lemma sign_payload_builds:
  assumes "sdk_total S"
  shows "builds chain_id (sign_payload S now chain_id payload)"
  unfolding builds_def
proof (rule allI, goal_cases)
  case (1 account)
  obtain sig where "sdk_sign_raw S (la_private_key account) (raw_transaction_new now chain_id payload account) = Some sig"
    using assms unfolding sdk_total_def not_None_eq by metis
  then show ?case
    by (simp add: sign_payload_def account_sign_def try_opt_def monad_defs numbered_def)
       (simp add: raw_transaction_new_def)
qed

lemma multi_agent_builds:
  assumes "sdk_total S"
  shows "builds chain_id (build_multi_agent_market_txn S now signer entry chain_id)"
  unfolding builds_def
proof (rule allI, goal_cases)
  case (1 account)
  let ?raw = "raw_transaction_new now chain_id (EntryFunctionPayload entry) account"
  obtain sig sig' where "sdk_sign_multi S (la_private_key account) ?raw [la_address signer] = Some sig"
    "sdk_sign_multi S (la_private_key signer) ?raw [la_address signer] = Some sig'"
    using assms unfolding sdk_total_def not_None_eq by metis
  then show ?case
    by (simp add: build_multi_agent_market_txn_def try_opt_def monad_defs numbered_def)
       (simp add: raw_transaction_new_def)
qed

lemma gets_builds: "(\<And>x. builds chain_id (m x)) \<Longrightarrow> builds chain_id (bind_m (gets_m f) m)"
  by (rule builds_bind) (simp_all add: gets_m_def)

lemma market_builds:
  assumes "sdk_total S"
  shows "builds chain_id (publish_package S now metadata modules chain_id)"
    "builds chain_id (create_market S now signer self_matching events window chain_id)"
    "builds chain_id (register_trader S now owner chain_id)"
    "builds chain_id (mint_trader_funds S now trader base quote chain_id)"
    "builds chain_id (place_limit_order_with_client_id S now owner signer price sz bid cid chain_id)"
    "builds chain_id (cancel_order_by_client_id S now owner signer cid chain_id)"
    "builds chain_id (decrease_order_size_by_client_id S now owner signer cid delta chain_id)"
    "builds chain_id (replace_order_by_client_id S now owner signer cid price sz bid chain_id)"
  unfolding publish_package_def create_market_def register_trader_def mint_trader_funds_def
    place_limit_order_with_client_id_def cancel_order_by_client_id_def decrease_order_size_by_client_id_def
    replace_order_by_client_id_def
  using assms
  by (intro builds_bind gets_builds sign_payload_builds multi_agent_builds market_call_total; simp add: sdk_total_def)+

text \<open>The label, the sender and the number of each transaction of a list of steps.\<close>

fun plan :: "('addr, 'sk, 'p, 'chain, 'sig) scenario_step list \<Rightarrow> (trader \<Rightarrow> ('addr, 'sk) local_account) \<Rightarrow> ('addr \<times> u64) list" where
  "plan [] accounts = []"
| "plan ((label, trader, m) # rest) accounts =
     (la_address (accounts trader), la_sequence_number (accounts trader)) #
     plan rest (accounts(trader := next_sequence_number (accounts trader)))"

lemma push_steps_plan:
  assumes "\<forall>(label, trader, m) \<in> set xs. builds chain_id m"
  shows "\<exists>txns. push_steps xs accounts = Ok txns \<and> map sc_label txns = map fst xs \<and>
    map (\<lambda>x. numbered (sc_txn x)) txns = map (\<lambda>(a, n). (a, n, chain_id)) (plan xs accounts)"
  using assms
proof (induction xs accounts rule: push_steps.induct)
  case (2 label trader m rest accounts)
  then obtain txn where txn: "m (accounts trader) = (Ok txn, next_sequence_number (accounts trader))"
    "numbered txn = (la_address (accounts trader), la_sequence_number (accounts trader), chain_id)"
    unfolding builds_def by fastforce
  have "\<forall>(label, trader, m) \<in> set rest. builds chain_id m" using "2.prems" by simp
  from "2.IH" [OF txn(1) [symmetric] this] obtain txns where "push_steps rest (accounts(trader := next_sequence_number (accounts trader))) = Ok txns"
    "map sc_label txns = map fst rest"
    "map (\<lambda>x. numbered (sc_txn x)) txns =
       map (\<lambda>(a, n). (a, n, chain_id)) (plan rest (accounts(trader := next_sequence_number (accounts trader))))"
    by blast
  with txn show ?case by simp
qed simp

lemma scenario_steps_build:
  assumes "sdk_total S"
  shows "\<forall>(label, trader, m) \<in> set (scenario_steps S clock address signer metadata modules chain_id). builds chain_id m"
  unfolding scenario_steps_def Let_def by (simp add: market_builds [OF assms])

lemma scenario_plan:
  assumes "\<And>t. la_sequence_number (accounts t) = 0"
  shows "plan (scenario_steps S clock (la_address \<circ> accounts) signer metadata modules chain_id) accounts =
    (let a = la_address (accounts TraderA); b = la_address (accounts TraderB); c = la_address (accounts TraderC) in
     [(a, 0), (a, 1), (a, 2), (b, 0), (c, 0), (a, 3), (a, 4), (a, 5), (a, 6), (b, 1), (a, 7), (b, 2), (c, 1), (b, 3), (a, 8)])"
  unfolding scenario_steps_def Let_def by (simp add: assms next_sequence_number_def add64_def)

lemma generate_ok:
  assumes "sdk_total S"
  obtains account where "account_generate S seed = Ok account" "la_sequence_number account = 0"
proof -
  obtain k where "sdk_private_key S (sdk_sha3_256 S (u64_to_le_bytes seed)) = Some k"
    using assms unfolding sdk_total_def not_None_eq by blast
  then show ?thesis by (intro that [of "from_private_key S k 0"]) (simp_all add: account_generate_def from_private_key_def Let_def)
qed

text \<open>Who sends which transaction of the scenario, and the first one the machine does not execute.\<close>

definition scenario_order :: "'a \<Rightarrow> 'a \<Rightarrow> 'a \<Rightarrow> ('a \<times> u64) list" where
  "scenario_order a b c =
     [(a, 0), (a, 1), (a, 2), (b, 0), (c, 0), (a, 3), (a, 4), (a, 5), (a, 6), (b, 1), (a, 7), (b, 2), (c, 1), (b, 3), (a, 8)]"

definition first_not_executed ::
  "('key, 'addr, ('addr, 'p, 'chain, 'sig) signed_transaction, 'status, 'out) aptos \<Rightarrow> ('status \<Rightarrow> bool) \<Rightarrow>
   ('addr, 'p, 'chain, 'sig) scenario_txn list \<Rightarrow> 'key test_db_reader \<Rightarrow> nat option" where
  "first_not_executed A executed xs db =
     List.find (\<lambda>i. \<not> executed (fst (ap_execute A
         (latest_state_checkpoint_view (fold (txn_effect A) (map sc_txn (take i xs)) db)) (sc_txn (xs ! i))))) [0..<length xs]"

lemma build_three_trader:
  assumes "sdk_total S" "load_package_artifacts F package_dir = Ok (metadata, modules)"
  obtains a b c txns where
    "account_generate S trader_a_seed = Ok a" "account_generate S trader_c_seed = Ok b" "account_generate S trader_d_seed = Ok c"
    "build_three_trader_transactions S F clock package_dir chain_id = Ok txns"
    "map (\<lambda>x. numbered (sc_txn x)) txns = map (\<lambda>(a, n). (la_address a, n, chain_id)) (scenario_order a b c)"
proof -
  obtain a where a: "account_generate S trader_a_seed = Ok a" "la_sequence_number a = 0" using assms(1) by (rule generate_ok)
  obtain signer where signer: "account_generate S trader_b_seed = Ok signer" using assms(1) by (rule generate_ok)
  obtain b where b: "account_generate S trader_c_seed = Ok b" "la_sequence_number b = 0" using assms(1) by (rule generate_ok)
  obtain c where c: "account_generate S trader_d_seed = Ok c" "la_sequence_number c = 0" using assms(1) by (rule generate_ok)
  define accounts where "accounts = (\<lambda>t. case t of TraderA \<Rightarrow> a | TraderB \<Rightarrow> b | TraderC \<Rightarrow> c)"
  have zero: "la_sequence_number (accounts t) = 0" for t
    by (cases t) (simp_all add: accounts_def a b c)
  let ?xs = "scenario_steps S clock (la_address \<circ> accounts) signer metadata modules chain_id"
  from push_steps_plan [OF scenario_steps_build [OF assms(1)], of clock "la_address \<circ> accounts" signer metadata modules chain_id accounts]
  obtain txns where txns: "push_steps ?xs accounts = Ok txns"
    "map (\<lambda>x. numbered (sc_txn x)) txns = map (\<lambda>(a, n). (a, n, chain_id)) (plan ?xs accounts)" by blast
  show ?thesis
  proof (rule that [OF a(1) b(1) c(1)])
    show "build_three_trader_transactions S F clock package_dir chain_id = Ok txns"
      unfolding build_three_trader_transactions_def using a(1) b(1) c(1) signer assms(2) txns(1)
      by (simp flip: accounts_def)
  qed (unfold txns(2) scenario_plan [OF zero], simp add: accounts_def Let_def scenario_order_def)
qed

text \<open>One transaction at a time or one block: the machine sees the same states.\<close>

lemma vm_steps_outcome:
  assumes "well_formed_outputs A"
  shows "vm_steps A executed xs db =
    (case first_not_executed A executed xs db of
       None \<Rightarrow> (Ok (), fold (txn_effect A) (map sc_txn xs) db)
     | Some i \<Rightarrow> (Err (Failed (sc_label (xs ! i))), fold (txn_effect A) (map sc_txn (take (Suc i) xs)) db))"
proof (induction xs arbitrary: db)
  case Nil
  then show ?case by (simp add: ret_def first_not_executed_def)
next
  case (Cons x xs)
  let ?r = "ap_execute A (latest_state_checkpoint_view db) (sc_txn x)"
  have one: "execute_block A [sc_txn x] db = (Ok [?r], txn_effect A (sc_txn x) db)"
    using execute_block_total [OF assms, of "[sc_txn x]" db] by (auto simp: length_Suc_conv)
  have upt: "[0..<length (x # xs)] = 0 # map Suc [0..<length xs]"
    by (simp add: upt_conv_Cons map_Suc_upt del: upt_Suc)
  have find: "List.find P (map Suc is) = map_option Suc (List.find (P \<circ> Suc) is)" for P "is"
    by (induction "is") auto
  show ?case
    unfolding first_not_executed_def upt by (simp add: one map_err_m_def bind_m_def raise_def Cons [unfolded first_not_executed_def] find comp_def split: option.split del: upt_Suc execute_block.simps)
qed

section \<open>Lines\<close>

definition whole_lines :: "string \<Rightarrow> bool" where
  "whole_lines s \<longleftrightarrow> s = [] \<or> last s = line_feed"

lemma log_lines_append: "whole_lines s \<Longrightarrow> log_lines (s @ t) = log_lines s @ log_lines t"
proof (induction s)
  case (Cons c s)
  show ?case
  proof (cases "s = []")
    case False
    then have "log_lines s \<noteq> []" by (cases s) (auto split: list.split)
    then show ?thesis using Cons False by (auto simp: whole_lines_def split: list.split)
  qed (use Cons in \<open>simp add: whole_lines_def\<close>)
qed simp

lemma executed_count_append: "whole_lines s \<Longrightarrow> executed_count (s @ t) = executed_count s + executed_count t"
  by (simp add: executed_count_def log_lines_append)

text \<open>A log that only grows and is seen with whole lines, whenever it is seen.\<close>

fun grows :: "string \<Rightarrow> (nat \<times> log_poll) list \<Rightarrow> bool" where
  "grows seen [] = True"
| "grows seen ((elapsed, poll) # polls) =
     (case poll of
        NotOpened \<Rightarrow> grows seen polls
      | ReadFails \<Rightarrow> False
      | LogText text \<Rightarrow> prefix seen text \<and> whole_lines text \<and> grows text polls)"

lemma wait_counts:
  assumes "grows seen polls" "whole_lines seen" "executed_count seen < expected" "\<forall>(elapsed, poll) \<in> set polls. elapsed \<le> timeout"
  shows "wait_for_execution_logs timeout expected polls (executed_count seen) (length seen) =
    (if \<exists>text. LogText text \<in> snd ` set polls \<and> expected \<le> executed_count text then Some (Ok ()) else None)"
  using assms
proof (induction polls arbitrary: seen)
  case (Cons p polls)
  obtain elapsed poll where p: "p = (elapsed, poll)" by fastforce
  show ?case
  proof (cases poll)
    case (LogText t)
    then obtain rest where rest: "t = seen @ rest" using Cons.prems(1) p by (auto simp: prefix_def)
    have count: "executed_count seen + executed_count (drop (length seen) t) = executed_count t"
      using executed_count_append [OF Cons.prems(2), of rest] rest by simp
    have "max (length seen) (length t) = length t" using rest by simp
    then show ?thesis
      using Cons.IH [of t] Cons.prems p LogText count by (auto simp: Let_def not_le)
  qed (use Cons p in auto)
qed simp

section \<open>Properties\<close>

lemma bootstrap_deterministic_ok:
  assumes "sdk_total S" "\<And>a. publishes A a"
  shows "\<exists>db'. bootstrap_deterministic_accounts A S seeds db = (Ok (), db')"
proof (induction seeds arbitrary: db)
  case Nil
  then show ?case by (simp add: ret_def)
next
  case (Cons seed seeds)
  obtain account where "account_generate S seed = Ok account" using assms(1) by (rule generate_ok)
  moreover obtain db' where "bootstrap_account A (sdk_auth_key S) account 1000000000000 db = (Ok (), db')"
    using publish_account_balance [OF assms(2), of 1000000000000] by (fastforce simp: bootstrap_account_def)
  moreover obtain db'' where "bootstrap_deterministic_accounts A S seeds db' = (Ok (), db'')" using Cons by blast
  ultimately show ?case by (simp add: map_err_m_def monad_defs)
qed

text \<open>
  C29. The order-book demonstration always has its fifteen transactions: nine of trader A, four
  of trader B and two of trader C, in the order of the story, each trader's numbered
  consecutively from zero. Run on the virtual machine one block per transaction, it ends
  successfully exactly when every transaction is executed on the state its predecessors left,
  and otherwise reports the label of the first one that is not.
\<close>

theorem three_trader_demo:
  assumes "sdk_total S" "\<And>a. publishes A a" "well_formed_outputs A" "new_with_genesis A = Ok db"
    "resolve_package_dir F = Ok package_dir" "load_package_artifacts F package_dir = Ok (metadata, modules)"
  shows "\<exists>a b c txns db'.
    account_generate S 1 = Ok a \<and> account_generate S 3 = Ok b \<and> account_generate S 4 = Ok c \<and>
    build_three_trader_transactions S F clock package_dir chain_id = Ok txns \<and> length txns = expected_scenario_txns \<and>
    map (\<lambda>x. numbered (sc_txn x)) txns = map (\<lambda>(a, n). (la_address a, n, chain_id)) (scenario_order a b c) \<and>
    bootstrap_deterministic_accounts A S [1, 2, 3, 4] db = (Ok (), db') \<and>
    three_trader_vm A executed S F clock chain_id =
      (case first_not_executed A executed txns db' of
         None \<Rightarrow> Ok (fold (txn_effect A) (map sc_txn txns) db')
       | Some i \<Rightarrow> Err (Failed (sc_label (txns ! i))))"
proof -
  note seeds = trader_a_seed_def trader_b_seed_def trader_c_seed_def trader_d_seed_def
  from assms(1,6) obtain a b c txns where txns:
    "account_generate S 1 = Ok a" "account_generate S 3 = Ok b" "account_generate S 4 = Ok c"
    "build_three_trader_transactions S F clock package_dir chain_id = Ok txns"
    "map (\<lambda>x. numbered (sc_txn x)) txns = map (\<lambda>(a, n). (la_address a, n, chain_id)) (scenario_order a b c)"
    by (rule build_three_trader [unfolded seeds])
  have len: "length txns = expected_scenario_txns"
    using arg_cong [OF txns(5), of length] by (simp add: scenario_order_def expected_scenario_txns_def)
  obtain db' where db': "bootstrap_deterministic_accounts A S [1, 2, 3, 4] db = (Ok (), db')"
    using bootstrap_deterministic_ok [OF assms(1,2)] by blast
  have "three_trader_vm A executed S F clock chain_id =
      (case vm_steps A executed txns db' of (r, db) \<Rightarrow> bind_r r (\<lambda>_. Ok db))"
    unfolding three_trader_vm_def assms(4,5) seeds map_err_simps bind_r_simps db' txns(4) prod.case
    by (simp add: len)
  also have "\<dots> = (case first_not_executed A executed txns db' of
         None \<Rightarrow> Ok (fold (txn_effect A) (map sc_txn txns) db')
       | Some i \<Rightarrow> Err (Failed (sc_label (txns ! i))))"
    unfolding vm_steps_outcome [OF assms(3)] by (simp split: option.split)
  finally show ?thesis using txns db' len by blast
qed

text \<open>
  A log that grows by whole lines is counted exactly: while the time is not over, the
  watcher returns in the first round in which the log holds the expected number of lines that
  report an executed transaction, and keeps waiting as long as there is no such round.
\<close>

lemma wait_sees_executions:
  assumes "grows [] polls" "0 < expected" "\<forall>(elapsed, poll) \<in> set polls. elapsed \<le> timeout"
  shows "wait_for_execution_logs timeout expected polls 0 0 =
    (if \<exists>text. LogText text \<in> snd ` set polls \<and> expected \<le> executed_count text then Some (Ok ()) else None)"
  using wait_counts [of "[]" polls expected timeout] assms by (simp add: whole_lines_def executed_count_def)

text \<open>
  A line that is only half written when a round reads it is counted in no round: the part
  that says which transaction and the part that says how it ended are looked at separately.
\<close>

lemma torn_line_is_missed:
  "executed_count (''Executed transaction 0: status=Executed'' @ [line_feed]) = 1 \<and>
   wait_for_execution_logs 40 1
     [(0, LogText ''Executed transaction 0''), (1, LogText (''Executed transaction 0: status=Executed'' @ [line_feed]))] 0 0 = None"
  by code_simp

definition toy_kit :: "(nat, nat, unit, nat, nat) sdk" where
  "toy_kit = toy_sdk\<lparr>sdk_bcs_u64 := (\<lambda>n. Some [of_nat n])\<rparr>"

definition toy_files :: files where
  "toy_files = \<lparr>f_var = (\<lambda>name. if name = ''HOME'' then Some ''/home/u'' else None), f_exists = (\<lambda>path. hd path = CHR ''/''),
     f_read = (\<lambda>path. Some [1]), f_read_dir = (\<lambda>path. Some [Some ''b.mv'', Some ''a.mv'', Some ''README''])\<rparr>"

definition toy_vm :: "(nat \<times> nat, nat, (nat, unit, nat, nat) signed_transaction, bool, ((nat \<times> nat) \<times> write_op) list) aptos" where
  "toy_vm = toy_aptos (\<lambda>txn. rt_sequence_number (st_raw txn))"

lemma toy_kit_total: "sdk_total toy_kit"
  by (simp add: sdk_total_def toy_kit_def toy_sdk_def)

lemma toy_genesis: "\<exists>db. new_with_genesis toy_vm = Ok db"
  by (simp add: new_with_genesis_def apply_genesis_def ensure_apt_supply_def try_opt_def monad_defs toy_vm_def toy_aptos_def
      test_db_reader_new_def bump_version_def apply_writes_def apply_write_op_def set_state_value_def get_state_value_def)

lemma toy_package:
  "resolve_package_dir toy_files = Ok ''/home/u/Desktop/orderbook_poc/move/simple_market/build/simple_market''"
  "load_package_artifacts toy_files ''/home/u/Desktop/orderbook_poc/move/simple_market/build/simple_market'' = Ok ([1], [[1], [1]])"
  by code_simp+

lemma toy_executes: "first_not_executed toy_vm id txns db = None"
  by (simp add: first_not_executed_def toy_vm_def toy_aptos_def find_None_iff)

theorem three_trader_demo_witness:
  "\<exists>(a :: (nat, nat) local_account) b c txns db'.
    build_three_trader_transactions toy_kit toy_files (\<lambda>_. Some 7)
      ''/home/u/Desktop/orderbook_poc/move/simple_market/build/simple_market'' 2 = Ok txns \<and> length txns = 15 \<and>
    map (\<lambda>x. numbered (sc_txn x)) txns = map (\<lambda>(a, n). (la_address a, n, 2)) (scenario_order a b c) \<and>
    three_trader_vm toy_vm id toy_kit toy_files (\<lambda>_. Some 7) 2 = Ok (fold (txn_effect toy_vm) (map sc_txn txns) db')"
proof -
  obtain db where "new_with_genesis toy_vm = Ok db" using toy_genesis by blast
  then have "\<exists>a b c txns db'. account_generate toy_kit 1 = Ok a \<and> account_generate toy_kit 3 = Ok b \<and> account_generate toy_kit 4 = Ok c \<and>
    build_three_trader_transactions toy_kit toy_files (\<lambda>_. Some 7)
      ''/home/u/Desktop/orderbook_poc/move/simple_market/build/simple_market'' 2 = Ok txns \<and> length txns = expected_scenario_txns \<and>
    map (\<lambda>x. numbered (sc_txn x)) txns = map (\<lambda>(a, n). (la_address a, n, 2)) (scenario_order a b c) \<and>
    bootstrap_deterministic_accounts toy_vm toy_kit [1, 2, 3, 4] db = (Ok (), db') \<and>
    three_trader_vm toy_vm id toy_kit toy_files (\<lambda>_. Some 7) 2 =
      (case first_not_executed toy_vm id txns db' of
         None \<Rightarrow> Ok (fold (txn_effect toy_vm) (map sc_txn txns) db')
       | Some i \<Rightarrow> Err (Failed (sc_label (txns ! i))))"
    by (intro three_trader_demo) (rule toy_kit_total toy_package toy_publishes toy_well_formed | simp add: toy_vm_def)+
  then show ?thesis unfolding toy_executes option.case expected_scenario_txns_def by blast
qed

end
