(* ===== verification/Client.thy ===== *)
theory Client
  imports Scenario Committer Config
begin

text \<open>
  The programs that feed a cluster with transactions, and where these end: the benchmark client
  (src/node/src/benchmark_client.rs), the transfer test
  (src/aptos_executor/src/bin/integration_test.rs), and the committer's calls of the executor
  (src/hydrangea/src/committer.rs) carried out on the executor of the theory \<open>Executor\<close>.
  What the network does is an argument: whether a connection is made and whether a frame is
  written. The main functions are in \<open>Programs\<close>; the pacing by timers is not modelled.
\<close>

section \<open>The benchmark client\<close>

record ('addr, 'sk) client =
  cl_sender :: "('addr, 'sk) local_account"
  cl_counter :: u64
  cl_sent :: "u8 list list"

text \<open>\<^verbatim>\<open>PRECISION\<close> is 20.\<close>

definition burst_size :: "u64 \<Rightarrow> u64" where
  "burst_size rate = max 1 (rate div 20)"

definition on_sender :: "('addr, 'sk, 'a) account_handler \<Rightarrow> (('addr, 'sk) client, builder_error, 'a) handler" where
  "on_sender m = (\<lambda>c. case m (cl_sender c) of (r, account) \<Rightarrow> (r, c\<lparr>cl_sender := account\<rparr>))"

definition client_sent :: "u8 list \<Rightarrow> ('addr, 'sk) client \<Rightarrow> ('addr, 'sk) client" where
  "client_sent bytes c = c\<lparr>cl_sent := cl_sent c @ [bytes], cl_counter := add64 (cl_counter c) 1\<rparr>"

text \<open>
  The inner loop: for each transaction the clock it is built at and whether it can be written
  to the connection. The result tells whether the main loop goes on.
\<close>

fun client_burst ::
  "('addr, 'sk, 'p, 'chain, 'sig) sdk \<Rightarrow> (('addr, 'p, 'chain, 'sig) signed_transaction \<Rightarrow> u8 list option) \<Rightarrow> 'addr \<Rightarrow> u64 \<Rightarrow> 'chain \<Rightarrow>
   (u64 option \<times> bool) list \<Rightarrow> (('addr, 'sk) client, builder_error, bool) handler" where
  "client_burst S bcs recipient amount chain_id [] = ret True"
| "client_burst S bcs recipient amount chain_id ((now, written) # rest) =
     bind_m (on_sender (apt_transfer S now recipient amount chain_id)) (\<lambda>txn.
     bind_m (try_opt NotEncoded (bcs txn)) (\<lambda>bytes.
       if written then then_m (modify_m (client_sent bytes)) (client_burst S bcs recipient amount chain_id rest)
       else ret False))"

fun client_loop ::
  "('addr, 'sk, 'p, 'chain, 'sig) sdk \<Rightarrow> (('addr, 'p, 'chain, 'sig) signed_transaction \<Rightarrow> u8 list option) \<Rightarrow> 'addr \<Rightarrow> u64 \<Rightarrow> 'chain \<Rightarrow>
   u64 \<Rightarrow> (u64 option \<times> bool) list list \<Rightarrow> (('addr, 'sk) client, builder_error, unit) handler" where
  "client_loop S bcs recipient amount chain_id rate [] = ret ()"
| "client_loop S bcs recipient amount chain_id rate (tick # ticks) =
     bind_m (client_burst S bcs recipient amount chain_id (take (burst_size rate) tick)) (\<lambda>go_on.
       if go_on then client_loop S bcs recipient amount chain_id rate ticks else ret ())"

definition client_send ::
  "('addr, 'sk, 'p, 'chain, 'sig) sdk \<Rightarrow> (('addr, 'p, 'chain, 'sig) signed_transaction \<Rightarrow> u8 list option) \<Rightarrow> 'addr \<Rightarrow> u64 \<Rightarrow> 'chain \<Rightarrow>
   u64 \<Rightarrow> bool \<Rightarrow> (u64 option \<times> bool) list list \<Rightarrow> (('addr, 'sk) client, builder_error, unit) handler" where
  "client_send S bcs recipient amount chain_id rate connected ticks =
     (if rate = 0 then ret ()
      else if \<not> connected then raise (Failed ''failed to connect'')
      else client_loop S bcs recipient amount chain_id rate ticks)"

section \<open>The transfer test\<close>

definition resolve_local_dir :: "files \<Rightarrow> string" where
  "resolve_local_dir F = (case f_var F ''HYDRANGEA_LOCAL_DIR'' of Some path \<Rightarrow> path | None \<Rightarrow> ''scripts/.local'')"

definition resolve_log_path :: "files \<Rightarrow> string \<Rightarrow> string" where
  "resolve_log_path F local_dir =
     (case f_var F ''HYDRANGEA_NODE_LOG'' of Some path \<Rightarrow> path | None \<Rightarrow> path_join local_dir ''logs/node-0.log'')"

text \<open>The worker with id 0 of each authority that has one.\<close>

definition load_worker_addresses :: "(public_key \<times> 'pk authority) list \<Rightarrow> socket_addr list" where
  "load_worker_addresses auths =
     map wa_transactions (List.map_filter (\<lambda>(_, authority). map_of (a_workers authority) 0) auths)"

definition build_transfer_sequence ::
  "('addr, 'sk, 'p, 'chain, 'sig) sdk \<Rightarrow> (nat \<Rightarrow> u64 option) \<Rightarrow> 'chain \<Rightarrow>
   (builder_error, ('addr, 'p, 'chain, 'sig) signed_transaction list) res" where
  "build_transfer_sequence S clock chain_id =
     bind_r (account_generate S 1) (\<lambda>account_a.
     bind_r (account_generate S 2) (\<lambda>account_b.
     bind_r (account_generate S 3) (\<lambda>account_c.
     bind_r (fst (apt_transfer S (clock 0) (la_address account_b) 100 chain_id account_a)) (\<lambda>tx1.
     bind_r (fst (apt_transfer S (clock 1) (la_address account_c) 150 chain_id account_b)) (\<lambda>tx2.
     bind_r (fst (apt_transfer S (clock 2) (la_address account_a) 200 chain_id account_c)) (\<lambda>tx3.
       Ok [tx1, tx2, tx3]))))))"

text \<open>
  What a connection attempt finds: nobody listening, or a connection on which the frame can be
  written or not. \<open>None\<close> is a loop still running when the observed attempts end.
\<close>

datatype dial = Refused | Connected bool

fun submit_attempts :: "u32 \<Rightarrow> dial list \<Rightarrow> (builder_error, unit) res option" where
  "submit_attempts attempt [] = None"
| "submit_attempts attempt (Connected written # dials) =
     Some (if written then Ok () else Err (Failed ''failed to send transaction bytes''))"
| "submit_attempts attempt (Refused # dials) =
     (if attempt > 20 then Some (Err (Failed ''exhausted retries connecting to worker''))
      else submit_attempts (attempt + 1) dials)"

definition submit_transaction :: "('tx \<Rightarrow> u8 list option) \<Rightarrow> dial list \<Rightarrow> 'tx \<Rightarrow> (builder_error, unit) res option" where
  "submit_transaction bcs dials txn =
     (case bcs txn of None \<Rightarrow> Some (Err NotEncoded) | Some payload \<Rightarrow> submit_attempts 0 dials)"

section \<open>The committer on the executor\<close>

definition perform ::
  "('key, 'addr, 'tx, 'status, 'out) aptos \<Rightarrow> ('addr, 'sk, 'p, 'chain, 'sig) sdk \<Rightarrow> 'tx committer_effect \<Rightarrow>
   ('key, 'addr, unit) executor_handler" where
  "perform A S effect =
     (case effect of
        BootstrapAccount seed balance \<Rightarrow>
          (case account_generate S seed of
             Ok account \<Rightarrow> bootstrap_account A (sdk_auth_key S) account balance
           | _ \<Rightarrow> ret ())
      | ExecuteBlock txns \<Rightarrow> then_m (execute_block A txns) (ret ()))"

fun perform_all ::
  "('key, 'addr, 'tx, 'status, 'out) aptos \<Rightarrow> ('addr, 'sk, 'p, 'chain, 'sig) sdk \<Rightarrow> 'tx committer_effect list \<Rightarrow>
   ('key, 'addr, unit) executor_handler" where
  "perform_all A S [] = ret ()"
| "perform_all A S (effect # effects) = then_m (perform A S effect) (perform_all A S effects)"

definition can_generate :: "('addr, 'sk, 'p, 'chain, 'sig) sdk \<Rightarrow> u64 \<Rightarrow> bool" where
  "can_generate S seed = (case account_generate S seed of Ok _ \<Rightarrow> True | _ \<Rightarrow> False)"

lemma perform_all_append:
  "perform_all A S xs db = (Ok (), db') \<Longrightarrow> perform_all A S (xs @ ys) db = perform_all A S ys db'"
  by (induction xs arbitrary: db) (auto simp: monad_defs split: prod.splits res.splits)

lemma perform_bootstrap:
  assumes "\<And>a. publishes A a" "\<forall>e \<in> set effects. \<exists>seed b. e = BootstrapAccount seed b \<and> b < 2 ^ 64"
  shows "\<exists>db'. perform_all A S effects db = (Ok (), db')"
  using assms(2)
proof (induction effects arbitrary: db)
  case (Cons e effects)
  then obtain seed b where e: "e = BootstrapAccount seed b" "b < 2 ^ 64" by auto
  have "\<exists>db'. perform A S e db = (Ok (), db')"
    using publish_account_balance [OF assms(1) e(2)] unfolding e(1) perform_def bootstrap_account_def
    by (fastforce simp: ret_def split: res.split)
  with Cons show ?case by (fastforce simp: monad_defs)
qed (simp add: ret_def)

lemma perform_blocks:
  assumes "well_formed_outputs A"
  shows "perform_all A S (map ExecuteBlock blocks) db = (Ok (), fold (txn_effect A) (concat blocks) db)"
proof (induction blocks arbitrary: db)
  case (Cons b blocks)
  then show ?case using execute_block_total [OF assms, of b db] by (auto simp: perform_def monad_defs)
qed (simp add: ret_def)

section \<open>What the client sends\<close>

text \<open>
  \<open>client_sends\<close>: what is added to the connection are the encodings of transfers with
  consecutive sequence numbers from the sender's on.
\<close>

definition client_sends ::
  "(('addr, 'p, 'chain, 'sig) signed_transaction \<Rightarrow> u8 list option) \<Rightarrow> 'chain \<Rightarrow>
   ('addr, 'sk) client \<Rightarrow> ('addr, 'sk) client \<Rightarrow> ('addr, 'p, 'chain, 'sig) signed_transaction list \<Rightarrow> bool" where
  "client_sends bcs chain_id c c' txns \<longleftrightarrow>
     map Some (cl_sent c') = map Some (cl_sent c) @ map bcs txns \<and>
     map numbered txns =
       map (\<lambda>i. (la_address (cl_sender c), add64 (la_sequence_number (cl_sender c)) i, chain_id)) [0..<length txns]"

text \<open>The client after a burst that goes on.\<close>

definition client_moved :: "('addr, 'sk) client \<Rightarrow> ('addr, 'sk) client \<Rightarrow> nat \<Rightarrow> bool" where
  "client_moved c c' n \<longleftrightarrow> cl_sender c' = (cl_sender c)\<lparr>la_sequence_number := add64 (la_sequence_number (cl_sender c)) n\<rparr>"

lemma map_upt_add: "map f [0..<m + n] = map f [0..<m] @ map (\<lambda>i. f (m + i)) [0..<n]"
  by (rule nth_equalityI) (auto simp: nth_append)

lemma client_sends_trans:
  assumes "client_sends bcs chain_id c c' txns" "client_moved c c' (length txns)" "client_sends bcs chain_id c' c'' txns'"
  shows "client_sends bcs chain_id c c'' (txns @ txns')"
proof -
  have shift: "add64 (add64 n (length txns)) i = add64 n (length txns + i)" for n i
    by (simp add: add64_def mod_simps add.assoc)
  have "map numbered txns' = map (\<lambda>i. (la_address (cl_sender c),
      add64 (la_sequence_number (cl_sender c)) (length txns + i), chain_id)) [0..<length txns']"
    using assms(2,3) by (simp add: client_sends_def client_moved_def shift)
  then show ?thesis
    using assms(1,3) unfolding client_sends_def by (simp add: map_upt_add)
qed

lemma client_moved_trans: "client_moved c c' n \<Longrightarrow> client_moved c' c'' m \<Longrightarrow> client_moved c c'' (n + m)"
  by (simp add: client_moved_def add64_def mod_simps add.assoc)

lemma client_sends_refl: "la_sequence_number (cl_sender c) < 2 ^ 64 \<Longrightarrow>
    client_sends bcs chain_id c c [] \<and> client_moved c c 0"
  by (simp add: client_sends_def client_moved_def)

lemma client_one:
  assumes "on_sender (apt_transfer S now recipient amount chain_id) c = (r, c')" "la_sequence_number (cl_sender c) < 2 ^ 64"
  shows "(\<exists>txn. r = Ok txn \<and> c' = c\<lparr>cl_sender := next_sequence_number (cl_sender c)\<rparr> \<and>
      (\<forall>bytes. bcs txn = Some bytes \<longrightarrow> client_sends bcs chain_id c (client_sent bytes c') [txn] \<and> client_moved c (client_sent bytes c') 1)) \<or>
    (\<exists>e. r = Err e \<and> c' = c)"
proof -
  have zero: "add64 (la_sequence_number (cl_sender c)) 0 = la_sequence_number (cl_sender c)" using assms(2) by simp
  from builders(1) [of S now chain_id recipient amount] consider
      (built) txn payload where "apt_transfer S now recipient amount chain_id (cl_sender c) = (Ok txn, next_sequence_number (cl_sender c))"
        "st_raw txn = raw_transaction_new now chain_id payload (cl_sender c)"
    | (failed) e where "apt_transfer S now recipient amount chain_id (cl_sender c) = (Err e, cl_sender c)"
    unfolding builder_def by blast
  then show ?thesis
  proof cases
    case built
    then show ?thesis
      using assms(1) zero by (auto simp: on_sender_def client_sends_def client_moved_def client_sent_def
          numbered_raw [OF built(2)] next_sequence_number_def)
  next
    case failed
    then show ?thesis using assms(1) by (auto simp: on_sender_def)
  qed
qed

lemma client_moved_bound: "client_moved c c' n \<Longrightarrow> la_sequence_number (cl_sender c') < 2 ^ 64"
  using add64_bound by (simp add: client_moved_def)

lemma client_burst_sends:
  assumes "client_burst S bcs recipient amount chain_id xs c = (r, c')" "la_sequence_number (cl_sender c) < 2 ^ 64"
  shows "\<exists>txns. client_sends bcs chain_id c c' txns \<and> length txns \<le> length xs \<and>
    (r = Ok True \<longrightarrow> client_moved c c' (length txns) \<and> length txns = length xs)"
  using assms
proof (induction xs arbitrary: c r)
  case Nil
  then show ?case using client_sends_refl by (fastforce simp: ret_def)
next
  case (Cons x xs)
  obtain now written where x: "x = (now, written)" by fastforce
  obtain r1 c1 where one: "on_sender (apt_transfer S now recipient amount chain_id) c = (r1, c1)" by fastforce
  from client_one [OF one Cons.prems(2), of bcs] consider
      (sent) txn bytes where "r1 = Ok txn" "bcs txn = Some bytes" written
        "client_sends bcs chain_id c (client_sent bytes c1) [txn]" "client_moved c (client_sent bytes c1) 1"
    | (stopped) "cl_sent c' = cl_sent c" "r \<noteq> Ok True"
    using Cons.prems(1) one unfolding x
    by (auto simp: monad_defs try_opt_def split: option.splits if_splits)
  then show ?case
  proof cases
    case sent
    then have "client_burst S bcs recipient amount chain_id xs (client_sent bytes c1) = (r, c')"
      using Cons.prems(1) one unfolding x by (simp add: monad_defs try_opt_def)
    from Cons.IH [OF this client_moved_bound [OF sent(5)]] obtain txns where
      "client_sends bcs chain_id (client_sent bytes c1) c' txns" "length txns \<le> length xs"
      "r = Ok True \<longrightarrow> client_moved (client_sent bytes c1) c' (length txns) \<and> length txns = length xs" by blast
    with sent(4,5) show ?thesis
      using client_sends_trans [of bcs chain_id c "client_sent bytes c1" "[txn]" c' txns]
        client_moved_trans [of c "client_sent bytes c1" 1 c' "length txns"]
      by (intro exI [of _ "txn # txns"]) auto
  next
    case stopped
    then show ?thesis by (intro exI [of _ "[]"]) (simp add: client_sends_def)
  qed
qed

lemma client_loop_sends:
  assumes "client_loop S bcs recipient amount chain_id rate ticks c = (r, c')" "la_sequence_number (cl_sender c) < 2 ^ 64"
  shows "\<exists>txns. client_sends bcs chain_id c c' txns \<and> length txns \<le> burst_size rate * length ticks"
  using assms
proof (induction ticks arbitrary: c)
  case Nil
  then show ?case using client_sends_refl by (fastforce simp: ret_def)
next
  case (Cons tick ticks)
  obtain r1 c1 where b: "client_burst S bcs recipient amount chain_id (take (burst_size rate) tick) c = (r1, c1)" by fastforce
  from client_burst_sends [OF this Cons.prems(2)] obtain txns where
    txns: "client_sends bcs chain_id c c1 txns" "length txns \<le> burst_size rate"
      "r1 = Ok True \<longrightarrow> client_moved c c1 (length txns)" by fastforce
  show ?case
  proof (cases "r1 = Ok True")
    case True
    then have "client_loop S bcs recipient amount chain_id rate ticks c1 = (r, c')"
      using Cons.prems(1) b by (simp add: monad_defs)
    from Cons.IH [OF this] True txns(3) obtain txns' where
      "client_sends bcs chain_id c1 c' txns'" "length txns' \<le> burst_size rate * length ticks"
      using client_moved_bound by blast
    with txns True show ?thesis
      using client_sends_trans [of bcs chain_id c c1 txns c' txns'] by (intro exI [of _ "txns @ txns'"]) simp
  next
    case False
    then have "c' = c1" using Cons.prems(1) b by (auto simp: monad_defs split: res.splits if_splits)
    with txns show ?thesis by (intro exI [of _ txns]) simp
  qed
qed

lemma submit_attempts_refused: "attempt + n \<le> 21 \<Longrightarrow>
    submit_attempts attempt (replicate n Refused @ dials) = submit_attempts (attempt + n) dials"
  by (induction n arbitrary: attempt) auto

text \<open>A worker that answers within 21 refusals is served; the 22nd refusal ends the attempts.\<close>

lemma submit_transaction_outcome:
  assumes "bcs txn \<noteq> None"
  shows "n \<le> 21 \<Longrightarrow> submit_transaction bcs (replicate n Refused @ Connected True # dials) txn = Some (Ok ())"
    and "submit_transaction bcs (replicate 22 Refused @ dials) txn = Some (Err (Failed ''exhausted retries connecting to worker''))"
proof -
  have "replicate 22 Refused @ dials = replicate 21 Refused @ Refused # dials"
    by (simp add: numeral_eq_Suc replicate_app_Cons_same)
  then show "submit_transaction bcs (replicate 22 Refused @ dials) txn = Some (Err (Failed ''exhausted retries connecting to worker''))"
    using assms submit_attempts_refused [of 0 21 "Refused # dials"] by (auto simp: submit_transaction_def)
next
  show "n \<le> 21 \<Longrightarrow> submit_transaction bcs (replicate n Refused @ Connected True # dials) txn = Some (Ok ())"
    using assms submit_attempts_refused [of 0 n "Connected True # dials"] by (auto simp: submit_transaction_def)
qed

section \<open>Properties\<close>

text \<open>
  However long the benchmark client runs and however it ends, what it has written to its
  connection is the encodings of transfers from its account with consecutive sequence numbers,
  starting with the account's: nothing is sent twice, skipped or sent out of order; and no
  tick of the timer sends more than the burst size.
\<close>

lemma client_sends_in_sequence:
  assumes "client_send S bcs recipient amount chain_id rate connected ticks c = (r, c')" "la_sequence_number (cl_sender c) < 2 ^ 64"
  shows "\<exists>txns. map Some (cl_sent c') = map Some (cl_sent c) @ map bcs txns \<and>
    map numbered txns =
      map (\<lambda>i. (la_address (cl_sender c), add64 (la_sequence_number (cl_sender c)) i, chain_id)) [0..<length txns] \<and>
    length txns \<le> max 1 (rate div 20) * length ticks"
proof (cases "rate = 0 \<or> \<not> connected")
  case True
  then have "c' = c" using assms(1) by (auto simp: client_send_def ret_def raise_def split: if_splits)
  then show ?thesis by (intro exI [of _ "[]"]) simp
next
  case False
  then have "client_loop S bcs recipient amount chain_id rate ticks c = (r, c')" using assms(1) by (simp add: client_send_def)
  from client_loop_sends [OF this assms(2)] show ?thesis by (simp add: client_sends_def burst_size_def)
qed

text \<open>
  C13. The committer, run on the executor, leaves the database in the state of executing, one
  after the other, the deduplicated transactions of the committed payloads in the order of
  the commits, on top of the genesis state with the funded accounts; no call panics or fails.
  Two replicas that commit the same payloads and find the same headers are therefore in the
  same state.
\<close>

theorem committed_transactions_reach_the_state:
  fixes S :: "('addr, 'sk, 'p, 'chain, 'sig) sdk" and A :: "('key, 'addr, 'tx, 'status, 'out) aptos"
  assumes "\<And>a. publishes A a" "well_formed_outputs A"
  shows "\<exists>db'. perform_all A S (bootstrap_accounts (can_generate S)) db = (Ok (), db') \<and>
    perform_all A S (committer_spawn True (can_generate S) D de bcs payloads) db =
      (Ok (), fold (txn_effect A)
         (concat (map (\<lambda>(st, certificates). deduplicate_transactions bcs (gather_transactions D de st certificates)) payloads)) db')"
proof -
  let ?blocks = "map (deduplicate_transactions bcs) (filter (\<lambda>txs. txs \<noteq> []) (map (\<lambda>(st, cs). gather_transactions D de st cs) payloads))"
  have "\<forall>e \<in> set (bootstrap_accounts (can_generate S) :: 'tx committer_effect list). \<exists>seed b. e = BootstrapAccount seed b \<and> b < 2 ^ 64"
    by (auto simp: bootstrap_accounts_def initial_account_balance_def)
  from perform_bootstrap [OF assms(1) this, of S db] obtain db' where
    db': "perform_all A S (bootstrap_accounts (can_generate S)) db = (Ok (), db')" by blast
  have "concat ?blocks =
      concat (map (\<lambda>(st, cs). deduplicate_transactions bcs (gather_transactions D de st cs)) payloads)"
    by (induction payloads) auto
  moreover have "committer_spawn True (can_generate S) D de bcs payloads = bootstrap_accounts (can_generate S) @ map ExecuteBlock ?blocks"
    by (simp add: committer_spawn_def committer_run comp_def)
  ultimately show ?thesis
    using db' perform_all_append [OF db', of "map ExecuteBlock ?blocks"] perform_blocks [OF assms(2), of S ?blocks db'] by simp
qed

definition toy_rocksdb :: "(key \<rightharpoonup> val) rocksdb" where
  "toy_rocksdb = \<lparr>db_put = (\<lambda>m k v. m(k \<mapsto> v)), db_get = (\<lambda>m k. Inr (m k))\<rparr>"

definition toy_transfer :: "(nat, unit, nat, nat) signed_transaction" where
  "toy_transfer = SingleSigned (raw_transaction_new (Some 3) 7 (StdlibPayload ()) toy_account) [5] 9"

definition toy_payloads :: "((key \<rightharpoonup> val) store \<times> nat certificate list) list" where
  "toy_payloads = [(\<lparr>st_db = [[1] \<mapsto> [2]], st_obligations = Map.empty\<rparr>,
     [\<lparr>cert_id = Digest [1], cert_round = 1, cert_origin = PublicKey [], cert_votes = (0, 0)\<rparr>])]"

definition toy_de :: "val \<Rightarrow> (nat, unit, nat, nat) signed_transaction header option" where
  "toy_de v = Some \<lparr>h_author = PublicKey [], h_round = 1, h_payload = [toy_transfer, toy_transfer], h_id = Digest v,
     h_signature = signature_default\<rparr>"

theorem committed_transactions_reach_the_state_witness:
  "\<exists>db'. perform_all toy_vm toy_kit (committer_spawn True (can_generate toy_kit) toy_rocksdb toy_de (\<lambda>_. Some [4]) toy_payloads)
     test_db_reader_new = (Ok (), txn_effect toy_vm toy_transfer db')"
proof -
  have "publishes toy_vm a" for a by (simp add: toy_vm_def toy_publishes)
  moreover have "well_formed_outputs toy_vm" by (simp add: toy_vm_def toy_well_formed)
  ultimately have "\<exists>db'. perform_all toy_vm toy_kit (bootstrap_accounts (can_generate toy_kit)) test_db_reader_new = (Ok (), db') \<and>
    perform_all toy_vm toy_kit (committer_spawn True (can_generate toy_kit) toy_rocksdb toy_de (\<lambda>_. Some [4]) toy_payloads) test_db_reader_new =
      (Ok (), fold (txn_effect toy_vm) (concat (map (\<lambda>(st, certificates).
         deduplicate_transactions (\<lambda>_. Some [4]) (gather_transactions toy_rocksdb toy_de st certificates)) toy_payloads)) db')"
    by (rule committed_transactions_reach_the_state)
  then show ?thesis
    by (auto simp: toy_payloads_def gather_transactions_def load_header_def store_read_def toy_rocksdb_def to_vec_def toy_de_def
        deduplicate_transactions_def simp del: perform_all.simps)
qed

end
