(* ===== verification/Keys.thy ===== *)
theory Keys
  imports Config Store Tasks
begin

text \<open>
  Keys and configuration files (src/crypto/src/lib.rs, src/config/src/lib.rs) and what the node
  binary does with them before it starts its tasks (src/node/src/main.rs). Base64, JSON, key
  generation and the file system are parameters: \<open>base64\<close>, \<open>json\<close> and a map from paths to
  contents. An error of another crate is reported by its text.
\<close>

section \<open>Encoded keys\<close>

datatype secret_key = SecretKey (secret_bytes: "u8 list")

record base64 =
  b64_encode :: "u8 list \<Rightarrow> string"
  b64_decode :: "string \<Rightarrow> u8 list option"

datatype decode_error = DecodeError

definition digest_size :: "digest \<Rightarrow> usize" where
  "digest_size d = length (digest_bytes d)"

definition digest_try_from :: "u8 list \<Rightarrow> (decode_error, digest) res" where
  "digest_try_from item = (if length item = 32 then Ok (Digest item) else Err DecodeError)"

definition public_key_encode :: "base64 \<Rightarrow> public_key \<Rightarrow> string" where
  "public_key_encode B pk = b64_encode B (key_bytes pk)"

text \<open>
  \<^verbatim>\<open>bytes[..n].try_into()\<close>: the slice panics when there are fewer than \<open>n\<close> bytes, so
  the error behind it is never returned; further bytes are ignored.
\<close>

definition first_bytes :: "nat \<Rightarrow> u8 list \<Rightarrow> ('e, u8 list) res" where
  "first_bytes n bytes = (if length bytes < n then Panic ''range end index out of range'' else Ok (take n bytes))"

definition public_key_decode :: "base64 \<Rightarrow> string \<Rightarrow> (decode_error, public_key) res" where
  "public_key_decode B s =
     (case b64_decode B s of
        None \<Rightarrow> Err DecodeError
      | Some bytes \<Rightarrow> bind_r (first_bytes 32 bytes) (\<lambda>arr. Ok (PublicKey arr)))"

definition secret_key_encode :: "base64 \<Rightarrow> secret_key \<Rightarrow> string" where
  "secret_key_encode B sk = b64_encode B (secret_bytes sk)"

definition secret_key_decode :: "base64 \<Rightarrow> string \<Rightarrow> (decode_error, secret_key) res" where
  "secret_key_decode B s =
     (case b64_decode B s of
        None \<Rightarrow> Err DecodeError
      | Some bytes \<Rightarrow> bind_r (first_bytes 64 bytes) (\<lambda>arr. Ok (SecretKey arr)))"

text \<open>\<^verbatim>\<open>Drop for SecretKey\<close> overwrites the bytes.\<close>

definition secret_key_drop :: "secret_key \<Rightarrow> secret_key" where
  "secret_key_drop sk = SecretKey (map (\<lambda>_. 0) (secret_bytes sk))"

text \<open>The pair of the library: the public bytes, and the secret bytes followed by them.\<close>

definition generate_keypair :: "u8 list \<times> u8 list \<Rightarrow> public_key \<times> secret_key" where
  "generate_keypair = (\<lambda>(public, pair). (PublicKey public, SecretKey pair))"

text \<open>
  \<^verbatim>\<open>Signature::verify_batch\<close>: every signature and key is parsed first
  (\<open>sig_ok\<close>, \<open>key_ok\<close>); \<open>batch\<close> is the library's batch check on equally many
  messages, signatures and keys.
\<close>

definition signature_verify_batch ::
  "(u8 list \<Rightarrow> bool) \<Rightarrow> (u8 list \<Rightarrow> bool) \<Rightarrow> (u8 list list \<Rightarrow> u8 list list \<Rightarrow> u8 list list \<Rightarrow> bool) \<Rightarrow>
   digest \<Rightarrow> (public_key \<times> signature) list \<Rightarrow> (crypto_error, unit) res" where
  "signature_verify_batch sig_ok key_ok batch d votes =
     (if list_all (\<lambda>(key, sg). sig_ok (flatten sg) \<and> key_ok (key_bytes key)) votes \<and>
         batch (map (\<lambda>_. digest_bytes d) votes) (map (\<lambda>(_, sg). flatten sg) votes) (map (\<lambda>(key, _). key_bytes key) votes)
      then Ok () else Err CryptoError)"

section \<open>The signature services\<close>

text \<open>
  A service task answers the requests of its channel in order, each on the one-shot channel
  that came with it (a natural number).
\<close>

definition signature_service_turn ::
  "('pk, 's) runtime \<Rightarrow> digest \<times> nat \<Rightarrow> (nat \<times> signature) list \<Rightarrow> (nat \<times> signature) list" where
  "signature_service_turn E = (\<lambda>(digest, sender) replies. replies @ [(sender, signature_new E digest)])"

definition bls_signature_service_turn ::
  "('pk, 's) runtime \<Rightarrow> digest \<times> nat \<Rightarrow> (nat \<times> 's) list \<Rightarrow> (nat \<times> 's) list" where
  "bls_signature_service_turn E = (\<lambda>(digest, sender) replies. replies @ [(sender, bls_sign E (digest_bytes digest))])"

text \<open>\<^verbatim>\<open>request_signature\<close>: panics when the service is gone or drops the channel.\<close>

definition request_reply :: "(nat \<times> 'a) list \<Rightarrow> nat \<Rightarrow> ('e, 'a) res" where
  "request_reply replies receiver =
     expect ''Failed to receive signature from Signature Service'' (map_of replies receiver)"

text \<open>A request to the BLS service that is queued between the requests of other tasks.\<close>

definition bls_request_signature ::
  "('pk, 's) runtime \<Rightarrow> (digest \<times> nat) list \<Rightarrow> digest \<times> nat \<Rightarrow> (digest \<times> nat) list \<Rightarrow> ('e, 's) res" where
  "bls_request_signature E earlier request later =
     request_reply (task_run (bls_signature_service_turn E) (earlier @ request # later) []) (snd request)"

section \<open>Files\<close>

type_synonym file_system = "string \<rightharpoonup> u8 list"

definition import_file :: "(u8 list \<Rightarrow> (string, 'a) res) \<Rightarrow> file_system \<Rightarrow> string \<Rightarrow> (config_error, 'a) res" where
  "import_file de fs path =
     (case fs path of
        None \<Rightarrow> Err (ImportError path ''not found'')
      | Some data \<Rightarrow> map_err (ImportError path) (de data))"

text \<open>
  \<^verbatim>\<open>Export\<close> opens the file without truncating it: what is longer than the new
  contents stays. \<open>writable\<close> tells whether the file can be opened.
\<close>

definition overwrite :: "u8 list \<Rightarrow> u8 list option \<Rightarrow> u8 list" where
  "overwrite data old = data @ drop (length data) (case old of None \<Rightarrow> [] | Some bytes \<Rightarrow> bytes)"

definition export_file ::
  "('a \<Rightarrow> u8 list) \<Rightarrow> (string \<Rightarrow> bool) \<Rightarrow> file_system \<Rightarrow> string \<Rightarrow> 'a \<Rightarrow> (config_error, unit) res \<times> file_system" where
  "export_file ser writable fs path x =
     (if writable path then (Ok (), fs(path \<mapsto> overwrite (ser x @ [10]) (fs path)))
      else (Err (ExportError path ''cannot open''), fs))"

section \<open>Key pairs\<close>

record key_pair =
  kp_name :: public_key
  kp_secret :: secret_key

definition key_pair_new :: "u8 list \<times> u8 list \<Rightarrow> key_pair" where
  "key_pair_new pair = (case generate_keypair pair of (name, secret) \<Rightarrow> \<lparr>kp_name = name, kp_secret = secret\<rparr>)"

text \<open>The JSON object with the two strings of a key pair.\<close>

record json =
  j_pair :: "string \<Rightarrow> string \<Rightarrow> u8 list"
  j_unpair :: "u8 list \<Rightarrow> (string \<times> string) option"

definition key_pair_serialize :: "base64 \<Rightarrow> json \<Rightarrow> key_pair \<Rightarrow> u8 list" where
  "key_pair_serialize B J kp = j_pair J (public_key_encode B (kp_name kp)) (secret_key_encode B (kp_secret kp))"

definition key_pair_deserialize :: "base64 \<Rightarrow> json \<Rightarrow> u8 list \<Rightarrow> (string, key_pair) res" where
  "key_pair_deserialize B J data =
     (case j_unpair J data of
        None \<Rightarrow> Err ''not a key pair''
      | Some (name, secret) \<Rightarrow>
          bind_r (map_err (\<lambda>_. ''bad name'') (public_key_decode B name)) (\<lambda>name.
          bind_r (map_err (\<lambda>_. ''bad secret'') (secret_key_decode B secret)) (\<lambda>secret.
            Ok \<lparr>kp_name = name, kp_secret = secret\<rparr>)))"

text \<open>
  \<^verbatim>\<open>create_bls_key_pairs\<close>: one file per node, whose path is the given one with every
  letter x replaced by the number of the node. \<open>node_info\<close> is the pretty-printed JSON of the
  three encoded shares of a node.
\<close>

definition node_path :: "string \<Rightarrow> nat \<Rightarrow> string" where
  "node_path path node_id = concat (map (\<lambda>c. if c = CHR ''x'' then show_nat node_id else [c]) path)"

definition create_bls_key_pairs :: "(nat \<Rightarrow> u8 list) \<Rightarrow> nat \<Rightarrow> string \<Rightarrow> file_system \<Rightarrow> file_system" where
  "create_bls_key_pairs node_info nodes path fs =
     fold (\<lambda>node_id fs. fs(node_path path node_id \<mapsto> node_info node_id)) [0..<nodes] fs"

section \<open>Starting a node\<close>

record ('pk, 'blsk) node_setup =
  ns_name :: public_key
  ns_secret :: secret_key
  ns_bls :: 'blsk
  ns_committee :: "'pk committee"
  ns_parameters :: parameters
  ns_primary :: bool

datatype start_error = ConfigProblem config_error | StoreProblem

text \<open>
  \<^verbatim>\<open>run\<close> up to the point where the tasks are spawned; \<open>ns_primary\<close> tells whether
  \<^verbatim>\<open>Primary::spawn\<close> is called before \<^verbatim>\<open>Consensus::spawn\<close>.
\<close>

definition node_run ::
  "(u8 list \<Rightarrow> (string, key_pair) res) \<Rightarrow> (u8 list \<Rightarrow> (string, 'blsk) res) \<Rightarrow>
   (u8 list \<Rightarrow> (string, (public_key \<times> 'pk::{linorder, ab_group_add} authority) list) res) \<Rightarrow>
   (u8 list \<Rightarrow> (string, parameters) res) \<Rightarrow> bool \<Rightarrow> file_system \<Rightarrow>
   string \<Rightarrow> string \<Rightarrow> string \<Rightarrow> string option \<Rightarrow> (start_error, ('pk, 'blsk) node_setup) res" where
  "node_run de_pair de_bls de_comm de_params store_opens fs ed_key_file bls_key_file committee_file parameters_file =
     bind_r (map_err ConfigProblem (import_file de_pair fs ed_key_file)) (\<lambda>ed_keypair.
     bind_r (map_err ConfigProblem (import_file de_bls fs bls_key_file)) (\<lambda>bls_keypair.
     bind_r (map_err ConfigProblem (import_file de_comm fs committee_file)) (\<lambda>auths.
     bind_r (case parameters_file of
         Some filename \<Rightarrow> map_err ConfigProblem (import_file de_params fs filename)
       | None \<Rightarrow> Ok parameters_default) (\<lambda>params.
     bind_r (committee_new auths (p_n params) (p_f params) (p_c params) (p_k params)) (\<lambda>C.
     bind_r (ensure store_opens StoreProblem) (\<lambda>_.
       Ok \<lparr>ns_name = kp_name ed_keypair, ns_secret = kp_secret ed_keypair, ns_bls = bls_keypair, ns_committee = C,
           ns_parameters = params, ns_primary = (\<not> p_consensus_only params)\<rparr>))))))"

section \<open>Lemmas\<close>

definition base64_laws :: "base64 \<Rightarrow> bool" where
  "base64_laws B \<longleftrightarrow> (\<forall>bytes. b64_decode B (b64_encode B bytes) = Some bytes)"

text \<open>A JSON parser reads back what was written and ignores the line feed after it.\<close>

definition json_laws :: "json \<Rightarrow> bool" where
  "json_laws J \<longleftrightarrow> (\<forall>a b. j_unpair J (j_pair J a b @ [10]) = Some (a, b))"

definition key_pair_ok :: "key_pair \<Rightarrow> bool" where
  "key_pair_ok kp \<longleftrightarrow> length (key_bytes (kp_name kp)) = 32 \<and> length (secret_bytes (kp_secret kp)) = 64"

lemma decode_encode:
  assumes "base64_laws B"
  shows "length (key_bytes pk) = 32 \<Longrightarrow> public_key_decode B (public_key_encode B pk) = Ok pk"
    and "length (secret_bytes sk) = 64 \<Longrightarrow> secret_key_decode B (secret_key_encode B sk) = Ok sk"
  using assms by (simp_all add: base64_laws_def public_key_decode_def public_key_encode_def secret_key_decode_def
      secret_key_encode_def first_bytes_def)

text \<open>A text that decodes to too few bytes is not refused with an error.\<close>

lemma short_key_panics:
  assumes "b64_decode B s = Some bytes"
  shows "length bytes < 32 \<Longrightarrow> \<exists>msg. public_key_decode B s = Panic msg"
    and "length bytes < 64 \<Longrightarrow> \<exists>msg. secret_key_decode B s = Panic msg"
  using assms by (simp_all add: public_key_decode_def secret_key_decode_def first_bytes_def)

lemma overwrite_fresh: "length (case old of None \<Rightarrow> [] | Some bytes \<Rightarrow> bytes) \<le> length data \<Longrightarrow> overwrite data old = data"
  by (simp add: overwrite_def)

lemma key_pair_de_ser:
  assumes "base64_laws B" "json_laws J" "key_pair_ok kp"
  shows "key_pair_deserialize B J (key_pair_serialize B J kp @ [10]) = Ok kp"
  using assms decode_encode [OF assms(1)]
  by (simp add: key_pair_deserialize_def key_pair_serialize_def json_laws_def key_pair_ok_def)

text \<open>Every request is answered with the signature of its own digest, whatever else is in the channel.\<close>

lemma service_run: "task_run (signature_service_turn E) requests replies =
    replies @ map (\<lambda>(digest, sender). (sender, signature_new E digest)) requests"
  by (induction requests arbitrary: replies) (auto simp: signature_service_turn_def)

lemma service_answers_own_request:
  assumes "distinct (map snd requests)" "(d, sender) \<in> set requests"
  shows "request_reply (task_run (signature_service_turn E) requests []) sender = Ok (signature_new E d)"
proof -
  have "map fst (map (\<lambda>(d, sender). (sender, signature_new E d)) requests) = map snd requests"
    by (induction requests) auto
  moreover have "(sender, signature_new E d) \<in> set (map (\<lambda>(d, sender). (sender, signature_new E d)) requests)"
    using assms(2) by force
  ultimately show ?thesis
    using assms(1) by (simp only: service_run append_Nil request_reply_def map_of_is_SomeI expect_simps)
qed

lemma bls_service_run: "task_run (bls_signature_service_turn E) requests replies =
    replies @ map (\<lambda>(digest, sender). (sender, bls_sign E (digest_bytes digest))) requests"
  by (induction requests arbitrary: replies) (auto simp: bls_signature_service_turn_def)

lemma bls_service_answers_own_request:
  assumes "sender \<notin> snd ` set earlier"
  shows "bls_request_signature E earlier (d, sender) later = Ok (bls_sign E (digest_bytes d))"
proof -
  have "map_of (map (\<lambda>(d, s). (s, bls_sign E (digest_bytes d))) earlier) sender = None"
    using assms by (force simp: map_of_eq_None_iff)
  then show ?thesis
    by (simp add: bls_request_signature_def request_reply_def bls_service_run map_add_def expect_def
        del: task_run_simps split: option.split)
qed

lemma bls_key_files:
  assumes "inj_on (node_path path) {..<nodes}" "i < nodes"
  shows "create_bls_key_pairs node_info nodes path fs (node_path path i) = Some (node_info i)"
  using assms
proof (induction nodes)
  case (Suc nodes)
  show ?case
  proof (cases "i = nodes")
    case False
    then have "node_path path nodes \<noteq> node_path path i" using Suc.prems by (auto dest: inj_onD)
    moreover have "inj_on (node_path path) {..<nodes}" using Suc.prems(1) by (rule inj_on_subset) auto
    ultimately show ?thesis using Suc False by (simp add: create_bls_key_pairs_def)
  qed (simp add: create_bls_key_pairs_def)
qed simp

text \<open>A path without an x makes every node write the same file.\<close>

lemma bls_key_files_collide:
  assumes "CHR ''x'' \<notin> set path" "0 < nodes"
  shows "create_bls_key_pairs node_info nodes path fs = fs(path \<mapsto> node_info (nodes - 1))"
proof -
  have path: "node_path path i = path" for i
    using assms(1) unfolding node_path_def by (induction path) auto
  have "create_bls_key_pairs node_info n path fs = (if n = 0 then fs else fs(path \<mapsto> node_info (n - 1)))" for n
    by (induction n) (auto simp: create_bls_key_pairs_def path)
  with assms(2) show ?thesis by simp
qed

section \<open>Properties\<close>

text \<open>
  C30. A key pair exported to a new file, or over one that is not longer, is imported again
  unchanged, and no other file is touched. Over a longer file the old tail stays behind the
  new contents. This needs base64 and JSON to read back what they wrote and keys of 32 and 64
  bytes.
\<close>

theorem key_files_round_trip:
  assumes "base64_laws B" "json_laws J" "key_pair_ok kp" "writable path"
  shows "\<exists>fs'. export_file (key_pair_serialize B J) writable fs path kp = (Ok (), fs') \<and> (\<forall>p. p \<noteq> path \<longrightarrow> fs' p = fs p) \<and>
    (case fs path of
       None \<Rightarrow> import_file (key_pair_deserialize B J) fs' path = Ok kp
     | Some old \<Rightarrow>
         if length old \<le> length (key_pair_serialize B J kp) + 1 then import_file (key_pair_deserialize B J) fs' path = Ok kp
         else fs' path = Some (key_pair_serialize B J kp @ [10] @ drop (length (key_pair_serialize B J kp) + 1) old))"
proof -
  have "import_file (key_pair_deserialize B J) (fs(path \<mapsto> key_pair_serialize B J kp @ [10])) path = Ok kp"
    using key_pair_de_ser [OF assms(1-3)] by (simp add: import_file_def)
  then show ?thesis
    using assms(4) by (simp add: export_file_def overwrite_def split: option.split)
qed

definition toy_base64 :: base64 where
  "toy_base64 = \<lparr>b64_encode = map (\<lambda>b. char_of (unat b)), b64_decode = (\<lambda>s. Some (map (\<lambda>c. of_nat (of_char c)) s))\<rparr>"

text \<open>Two strings, the length of the first in unary in front of them.\<close>

definition toy_json :: json where
  "toy_json = \<lparr>
     j_pair = (\<lambda>a b. replicate (length a) 1 @ [2] @ map (\<lambda>c. of_nat (of_char c)) (a @ b)),
     j_unpair = (\<lambda>data. let n = length (takeWhile (\<lambda>x. x = 1) data); rest = butlast (drop (n + 1) data)
       in Some (map (\<lambda>b. char_of (unat b)) (take n rest), map (\<lambda>b. char_of (unat b)) (drop n rest)))\<rparr>"

lemma byte_mod [simp]: "(of_nat (unat b mod 256) :: u8) = b"
proof -
  have "unat b mod 256 = unat b" using unsigned_less [of b, where 'a = nat] by simp
  then show ?thesis by simp
qed

lemma char_byte [simp]: "char_of (unat (of_nat (of_char c) :: u8)) = c"
  by (simp add: unat_of_nat)

lemma toy_base64_laws: "base64_laws toy_base64"
  by (simp add: base64_laws_def toy_base64_def comp_def)

lemma toy_json_laws: "json_laws toy_json"
proof -
  have "takeWhile (\<lambda>x. x = 1) (replicate n (1 :: u8) @ 2 # ys) = replicate n 1" for n ys
    by (induction n) simp_all
  then show ?thesis by (simp add: json_laws_def toy_json_def Let_def comp_def butlast_append)
qed

definition toy_key_pair :: key_pair where
  "toy_key_pair = \<lparr>kp_name = PublicKey (replicate 32 3), kp_secret = SecretKey (replicate 64 4)\<rparr>"

theorem key_files_round_trip_witness:
  "\<exists>fs'. export_file (key_pair_serialize toy_base64 toy_json) (\<lambda>_. True) Map.empty ''node.json'' toy_key_pair = (Ok (), fs') \<and>
    import_file (key_pair_deserialize toy_base64 toy_json) fs' ''node.json'' = Ok toy_key_pair"
  using key_files_round_trip [OF toy_base64_laws toy_json_laws, of toy_key_pair "\<lambda>_. True" "''node.json''" Map.empty]
  by (auto simp: key_pair_ok_def toy_key_pair_def)

end
