(* ===== verification/Header_Waiter.thy ===== *)
theory Header_Waiter
  imports Primary_Tasks "HOL-Library.AList"
begin

text \<open>
  The mempool's synchronizer and header waiter (src/primary/src/synchronizer.rs and
  header_waiter.rs). Their module declarations in lib.rs are commented out and they are
  written for a header whose payload maps batch digests to worker ids; the header of
  Primary_Messages carries such a payload at the type of pairs. The iteration order of a
  hash map, the clock and the value of the shared consensus round are inputs of a turn; a
  cancel channel is a natural number, and channels to other tasks stay open.
\<close>

type_synonym batch_header = "(digest \<times> worker_id) header"

definition batch_key :: "digest \<times> worker_id \<Rightarrow> key" where
  "batch_key = (\<lambda>(digest, worker_id). digest_bytes digest @ u32_to_le_bytes worker_id)"

datatype waiter_message =
  SyncBatches "(digest \<times> worker_id) list" batch_header
| SyncParents "digest list" batch_header

section \<open>Synchronizer\<close>

record psynchronizer =
  ps_name :: public_key
  ps_tx_header_waiter :: "waiter_message list"

definition psynchronizer_new :: "public_key \<Rightarrow> psynchronizer" where
  "psynchronizer_new name = \<lparr>ps_name = name, ps_tx_header_waiter = []\<rparr>"

text \<open>The loop over the payload: a digest that is inserted twice keeps its last worker.\<close>

fun missing_batches ::
  "'db rocksdb \<Rightarrow> 'db store \<Rightarrow> (digest \<times> worker_id) list \<Rightarrow> (digest \<times> worker_id) list \<Rightarrow>
   (dag_error, (digest \<times> worker_id) list) res" where
  "missing_batches D st [] missing = Ok missing"
| "missing_batches D st ((digest, worker_id) # payload) missing =
     (case store_read D (batch_key (digest, worker_id)) st of
        Inl _ \<Rightarrow> Err DagStoreError
      | Inr None \<Rightarrow> missing_batches D st payload (AList.update digest worker_id missing)
      | Inr (Some _) \<Rightarrow> missing_batches D st payload missing)"

text \<open>\<open>order\<close> is the order in which the map of missing batches is iterated by its receiver.\<close>

definition missing_payload ::
  "'db rocksdb \<Rightarrow> ((digest \<times> worker_id) list \<Rightarrow> (digest \<times> worker_id) list) \<Rightarrow> 'db store \<Rightarrow> batch_header \<Rightarrow>
   (psynchronizer, dag_error, bool) handler" where
  "missing_payload D order st header y =
     (if h_author header = ps_name y then (Ok False, y)
      else case missing_batches D st (h_payload header) [] of
        Ok missing \<Rightarrow>
          if missing = [] then (Ok False, y)
          else (Ok True, y\<lparr>ps_tx_header_waiter := ps_tx_header_waiter y @ [SyncBatches (order missing) header]\<rparr>)
      | Err e \<Rightarrow> (Err e, y)
      | Panic m \<Rightarrow> (Panic m, y)
      | Diverge \<Rightarrow> (Diverge, y))"

section \<open>Header waiter: state\<close>

text \<open>A future of the pool: the keys it waits for, the header it delivers, its cancel channel.\<close>

record hw_waiter =
  hv_missing :: "key list"
  hv_deliver :: batch_header
  hv_handler :: nat

record header_waiter =
  hw_name :: public_key
  hw_gc_depth :: u64
  hw_sync_retry_delay :: u64
  hw_sync_retry_nodes :: usize
  hw_network :: simple_sender
  hw_parent_requests :: "digest \<rightharpoonup> u64 \<times> nat"
  hw_batch_requests :: "digest \<rightharpoonup> u64"
  hw_pending :: "digest \<rightharpoonup> u64 \<times> nat"
  hw_waiting :: "hw_waiter list"
  hw_cancelled :: "nat list"
  hw_tx_core :: "batch_header list"
  hw_next :: nat

definition header_waiter_new :: "public_key \<Rightarrow> u64 \<Rightarrow> u64 \<Rightarrow> usize \<Rightarrow> header_waiter" where
  "header_waiter_new name gc_depth delay nodes =
     \<lparr>hw_name = name, hw_gc_depth = gc_depth, hw_sync_retry_delay = delay, hw_sync_retry_nodes = nodes,
      hw_network = simple_sender_new, hw_parent_requests = Map.empty, hw_batch_requests = Map.empty,
      hw_pending = Map.empty, hw_waiting = [], hw_cancelled = [], hw_tx_core = [], hw_next = 0\<rparr>"

text \<open>
  What a future of the pool may complete with: the header once every key has been read, an
  error when a read failed, \<^verbatim>\<open>None\<close> when its channel was signalled or its
  sender, which lives in the pending map, was dropped. When several hold,
  \<^verbatim>\<open>select!\<close> takes any of them.
\<close>

definition hw_waiter_may ::
  "'db rocksdb \<Rightarrow> 'db store \<Rightarrow> header_waiter \<Rightarrow> hw_waiter \<Rightarrow> (dag_error, batch_header option) res \<Rightarrow> bool" where
  "hw_waiter_may D st w v result \<longleftrightarrow>
     (case result of
        Ok (Some header) \<Rightarrow>
          header = hv_deliver v \<and>
          list_all (\<lambda>k. case store_read D k st of Inr (Some _) \<Rightarrow> True | _ \<Rightarrow> False) (hv_missing v)
      | Ok None \<Rightarrow>
          hv_handler v \<in> set (hw_cancelled w) \<or>
          map_option snd (hw_pending w (h_id (hv_deliver v))) \<noteq> Some (hv_handler v)
      | Err DagStoreError \<Rightarrow> list_ex (\<lambda>k. case store_read D k st of Inl _ \<Rightarrow> True | _ \<Rightarrow> False) (hv_missing v)
      | _ \<Rightarrow> False)"

section \<open>Header waiter: the branches of the loop\<close>

text \<open>The inputs of one turn that the code takes from its environment.\<close>

record hw_inputs =
  hi_now :: nat
  hi_consensus_round :: u64
  hi_worker_order :: "(worker_id \<times> digest list) list \<Rightarrow> (worker_id \<times> digest list) list"
  hi_parent_order :: "digest list"
  hi_pending_order :: "digest list"
  hi_shuffle :: "socket_addr list \<Rightarrow> socket_addr list"

definition hw_push :: "key list \<Rightarrow> batch_header \<Rightarrow> header_waiter \<Rightarrow> header_waiter" where
  "hw_push wait_for header w =
     (let ch = hw_next w in
      w\<lparr>hw_next := Suc ch, hw_pending := (hw_pending w)(h_id header \<mapsto> (h_round header, ch)),
        hw_waiting := hw_waiting w @ [\<lparr>hv_missing = wait_for, hv_deliver = header, hv_handler = ch\<rparr>]\<rparr>)"

text \<open>\<^verbatim>\<open>entry(k).or_insert_with(Vec::new).push(v)\<close>.\<close>

fun push_entry :: "'k \<Rightarrow> 'v \<Rightarrow> ('k \<times> 'v list) list \<Rightarrow> ('k \<times> 'v list) list" where
  "push_entry k v [] = [(k, [v])]"
| "push_entry k v ((k', vs) # m) = (if k' = k then (k', vs @ [v]) # m else (k', vs) # push_entry k v m)"

text \<open>The digests that were not requested before, grouped by worker, and the requests recorded.\<close>

fun batch_entries ::
  "u64 \<Rightarrow> (digest \<times> worker_id) list \<Rightarrow> (digest \<rightharpoonup> u64) \<Rightarrow> (worker_id \<times> digest list) list \<Rightarrow>
   (worker_id \<times> digest list) list \<times> (digest \<rightharpoonup> u64)" where
  "batch_entries round [] requests requires_sync = (requires_sync, requests)"
| "batch_entries round ((digest, worker_id) # missing) requests requires_sync =
     (if requests digest \<noteq> None then batch_entries round missing requests requires_sync
      else batch_entries round missing (requests(digest \<mapsto> round)) (push_entry worker_id digest requires_sync))"

fun hw_request_batches ::
  "'pk committee \<Rightarrow> (primary_worker_message \<Rightarrow> bytes) \<Rightarrow> public_key \<Rightarrow> (worker_id \<times> digest list) list \<Rightarrow>
   (header_waiter, dag_error, unit) handler" where
  "hw_request_batches C ser author [] w = (Ok (), w)"
| "hw_request_batches C ser author ((worker_id, digests) # rest) w =
     (case committee_worker C (hw_name w) worker_id of
        Ok address \<Rightarrow>
          hw_request_batches C ser author rest
            (w\<lparr>hw_network := simple_send (primary_to_worker address) (ser (Synchronize digests author)) (hw_network w)\<rparr>)
      | _ \<Rightarrow> (Panic ''Author of valid header is not in the committee'', w))"

text \<open>
  The branches return whether the loop goes on to its cleanup; \<^verbatim>\<open>continue\<close> skips it.
\<close>

definition hw_sync_batches ::
  "'pk committee \<Rightarrow> (primary_worker_message \<Rightarrow> bytes) \<Rightarrow> hw_inputs \<Rightarrow> (digest \<times> worker_id) list \<Rightarrow> batch_header \<Rightarrow>
   (header_waiter, dag_error, bool) handler" where
  "hw_sync_batches C ser inp missing header w =
     (if hw_pending w (h_id header) \<noteq> None then (Ok False, w)
      else
        let w1 = hw_push (map batch_key missing) header w;
            (requires_sync, requests) = batch_entries (h_round header) missing (hw_batch_requests w1) [];
            w2 = w1\<lparr>hw_batch_requests := requests\<rparr>
        in bind_m (hw_request_batches C ser (h_author header) (hi_worker_order inp requires_sync))
             (\<lambda>_. ret True) w2)"

fun parent_entries ::
  "u64 \<Rightarrow> nat \<Rightarrow> digest list \<Rightarrow> (digest \<rightharpoonup> u64 \<times> nat) \<Rightarrow> digest list \<times> (digest \<rightharpoonup> u64 \<times> nat)" where
  "parent_entries round now [] requests = ([], requests)"
| "parent_entries round now (digest # missing) requests =
     (if requests digest \<noteq> None then parent_entries round now missing requests
      else let (requires_sync, requests') = parent_entries round now missing (requests(digest \<mapsto> (round, now)))
           in (digest # requires_sync, requests'))"

definition hw_sync_parents ::
  "'pk committee \<Rightarrow> (('s, digest \<times> worker_id) primary_message \<Rightarrow> bytes) \<Rightarrow> hw_inputs \<Rightarrow> digest list \<Rightarrow> batch_header \<Rightarrow>
   (header_waiter, dag_error, bool) handler" where
  "hw_sync_parents C ser inp missing header w =
     (if hw_pending w (h_id header) \<noteq> None then (Ok False, w)
      else
        let w1 = hw_push (map to_vec missing) header w;
            (requires_sync, requests) = parent_entries (h_round header) (hi_now inp) missing (hw_parent_requests w1);
            w2 = w1\<lparr>hw_parent_requests := requests\<rparr>
        in if requires_sync = [] then (Ok True, w2)
           else case committee_primary C (h_author header) of
             Ok address \<Rightarrow>
               (Ok True, w2\<lparr>hw_network := simple_send (primary_to_primary address)
                  (ser (PmCertificatesRequest requires_sync (hw_name w2))) (hw_network w2)\<rparr>)
           | _ \<Rightarrow> (Panic ''Author of valid header not in the committee'', w2))"

definition hw_on_waiter ::
  "hw_waiter \<Rightarrow> (dag_error, batch_header option) res \<Rightarrow> (header_waiter, dag_error, bool) handler" where
  "hw_on_waiter v result w =
     (let w1 = w\<lparr>hw_waiting := remove1 v (hw_waiting w)\<rparr> in
      case result of
        Ok (Some header) \<Rightarrow>
          (Ok True, w1\<lparr>hw_pending := (hw_pending w1)(h_id header := None),
             hw_batch_requests := hw_batch_requests w1 |` (- (fst ` set (h_payload header))),
             hw_tx_core := hw_tx_core w1 @ [header]\<rparr>)
      | Ok None \<Rightarrow> (Ok True, w1)
      | _ \<Rightarrow> (Panic ''Storage failure: killing node.'', w1))"

definition hw_on_timer ::
  "'pk committee \<Rightarrow> (('s, digest \<times> worker_id) primary_message \<Rightarrow> bytes) \<Rightarrow> hw_inputs \<Rightarrow>
   (header_waiter, dag_error, bool) handler" where
  "hw_on_timer C ser inp w =
     (let retry = filter (\<lambda>d. case hw_parent_requests w d of
            Some (_, timestamp) \<Rightarrow> timestamp + hw_sync_retry_delay w < hi_now inp
          | None \<Rightarrow> False) (hi_parent_order inp);
          addresses = map (\<lambda>(_, x). primary_to_primary x) (others_primaries C (hw_name w))
      in (Ok True, w\<lparr>hw_network := simple_lucky_broadcast (hi_shuffle inp) addresses
            (ser (PmCertificatesRequest retry (hw_name w))) (hw_sync_retry_nodes w) (hw_network w)\<rparr>))"

definition hw_cleanup :: "hw_inputs \<Rightarrow> header_waiter \<Rightarrow> header_waiter" where
  "hw_cleanup inp w =
     (let round = hi_consensus_round inp in
      if round > hw_gc_depth w then
        let gc_round = sub64 round (hw_gc_depth w) in
        w\<lparr>hw_cancelled := hw_cancelled w @ List.map_filter (\<lambda>d. case hw_pending w d of
              Some (r, handler) \<Rightarrow> if r \<le> gc_round then Some handler else None
            | None \<Rightarrow> None) (hi_pending_order inp),
          hw_pending := retain (\<lambda>_ (r, _). r > gc_round) (hw_pending w),
          hw_batch_requests := retain (\<lambda>_ r. r > gc_round) (hw_batch_requests w),
          hw_parent_requests := retain (\<lambda>_ (r, _). r > gc_round) (hw_parent_requests w)\<rparr>
      else w)"

datatype hw_event =
  HwMessage waiter_message
| HwWaiter hw_waiter "(dag_error, batch_header option) res"
| HwTimer

definition hw_branch ::
  "'pk committee \<Rightarrow> (primary_worker_message \<Rightarrow> bytes) \<Rightarrow> (('s, digest \<times> worker_id) primary_message \<Rightarrow> bytes) \<Rightarrow>
   hw_inputs \<Rightarrow> hw_event \<Rightarrow> (header_waiter, dag_error, bool) handler" where
  "hw_branch C ser_worker ser_primary inp ev =
     (case ev of
        HwMessage (SyncBatches missing header) \<Rightarrow> hw_sync_batches C ser_worker inp missing header
      | HwMessage (SyncParents missing header) \<Rightarrow> hw_sync_parents C ser_primary inp missing header
      | HwWaiter v result \<Rightarrow> hw_on_waiter v result
      | HwTimer \<Rightarrow> hw_on_timer C ser_primary inp)"

definition hw_turn ::
  "'pk committee \<Rightarrow> (primary_worker_message \<Rightarrow> bytes) \<Rightarrow> (('s, digest \<times> worker_id) primary_message \<Rightarrow> bytes) \<Rightarrow>
   hw_inputs \<Rightarrow> hw_event \<Rightarrow> (header_waiter, dag_error, unit) handler" where
  "hw_turn C ser_worker ser_primary inp ev =
     bind_m (hw_branch C ser_worker ser_primary inp ev)
       (\<lambda>cleanup. when_m cleanup (modify_m (hw_cleanup inp)))"

section \<open>Lemmas on the branches\<close>

lemma hw_request_batches_frame:
  "\<exists>network. snd (hw_request_batches C ser author rs w) = w\<lparr>hw_network := network\<rparr>"
proof (induction C ser author rs w rule: hw_request_batches.induct)
  case (1 C ser author w)
  show ?case by (rule exI [of _ "hw_network w"]) simp
next
  case (2 C ser author i ds rest w)
  have unchanged: "\<exists>network. w = w\<lparr>hw_network := network\<rparr>" by (rule exI [of _ "hw_network w"]) simp
  show ?case
  proof (cases "committee_worker C (hw_name w) i")
    case (Ok address)
    with 2 [OF Ok] show ?thesis by auto
  qed (simp_all add: unchanged)
qed

lemma hw_cleanup_simps [simp]:
  "hw_waiting (hw_cleanup inp w) = hw_waiting w" "hw_tx_core (hw_cleanup inp w) = hw_tx_core w"
  "hw_next (hw_cleanup inp w) = hw_next w" "hw_name (hw_cleanup inp w) = hw_name w"
  "hw_network (hw_cleanup inp w) = hw_network w"
  by (simp_all add: hw_cleanup_def Let_def)

lemma hw_turn_Ok:
  assumes "hw_turn C sw sp inp ev w = (Ok (), w')"
  obtains c w1 where "hw_branch C sw sp inp ev w = (Ok c, w1)" "w' = (if c then hw_cleanup inp w1 else w1)"
proof -
  obtain r w1 where 1: "hw_branch C sw sp inp ev w = (r, w1)" by fastforce
  with assms obtain c where "r = Ok c" "w' = (if c then hw_cleanup inp w1 else w1)"
    by (cases r) (auto simp: hw_turn_def monad_defs split: if_splits)
  with 1 that show thesis by blast
qed

text \<open>What each branch does to the pool and to the channel to the core.\<close>

lemma hw_sync_batches_Ok:
  assumes "hw_sync_batches C ser inp missing header w = (Ok c, w')"
  shows "if hw_pending w (h_id header) = None
    then \<exists>requests network. w' = (hw_push (map batch_key missing) header w)\<lparr>hw_batch_requests := requests, hw_network := network\<rparr>
    else w' = w"
proof (cases "hw_pending w (h_id header) = None")
  case True
  obtain rs requests where e:
    "batch_entries (h_round header) missing (hw_batch_requests (hw_push (map batch_key missing) header w)) [] = (rs, requests)"
    by fastforce
  let ?w2 = "(hw_push (map batch_key missing) header w)\<lparr>hw_batch_requests := requests\<rparr>"
  have "\<exists>network. w' = ?w2\<lparr>hw_network := network\<rparr>"
    using assms True e hw_request_batches_frame [of C ser "h_author header" "hi_worker_order inp rs" ?w2]
    by (auto simp: hw_sync_batches_def Let_def monad_defs split: prod.splits res.splits)
  with True show ?thesis by auto
qed (use assms in \<open>auto simp: hw_sync_batches_def\<close>)

lemma hw_on_timer_pool:
  "hw_on_timer C ser inp w = (r, w') \<Longrightarrow> hw_waiting w' = hw_waiting w \<and> hw_tx_core w' = hw_tx_core w"
  by (auto simp: hw_on_timer_def Let_def)

lemma hw_on_waiter_pool:
  "hw_on_waiter v r w = (Ok c, w') \<Longrightarrow>
   hw_waiting w' = remove1 v (hw_waiting w) \<and>
   hw_tx_core w' = hw_tx_core w @ (case r of Ok (Some header) \<Rightarrow> [header] | _ \<Rightarrow> [])"
  by (auto simp: hw_on_waiter_def Let_def split: res.splits option.splits)

section \<open>Synchronizer and waiter together\<close>

text \<open>
  The two tasks over the store that the payload receiver fills. The core hands headers to
  the synchronizer (\<open>checked\<close>), its commands reach the waiter in order (\<open>received\<close>), futures
  of the pool complete (\<open>completed\<close>), the timer fires, and other tasks write to the store. A
  payload is a map, so its digests are distinct. Nothing in the sources sends
  \<^verbatim>\<open>SyncParents\<close>.
\<close>

record 'db sync_system =
  sy_store :: "'db store"
  sy_sync :: psynchronizer
  sy_waiter :: header_waiter

definition sync_system_new :: "'db store \<Rightarrow> public_key \<Rightarrow> u64 \<Rightarrow> u64 \<Rightarrow> usize \<Rightarrow> 'db sync_system" where
  "sync_system_new st name gc_depth delay nodes =
     \<lparr>sy_store = st, sy_sync = psynchronizer_new name, sy_waiter = header_waiter_new name gc_depth delay nodes\<rparr>"

inductive sync_step ::
  "'db rocksdb \<Rightarrow> 'pk committee \<Rightarrow> (primary_worker_message \<Rightarrow> bytes) \<Rightarrow>
   (('s, digest \<times> worker_id) primary_message \<Rightarrow> bytes) \<Rightarrow> 'db sync_system \<Rightarrow> 'db sync_system \<Rightarrow> bool"
  for D C ser_worker ser_primary where
  checked:
    "distinct (map fst (h_payload header)) \<Longrightarrow> (\<And>xs. set (order xs) = set xs) \<Longrightarrow>
     missing_payload D order (sy_store s) header (sy_sync s) = (r, y) \<Longrightarrow>
     sync_step D C ser_worker ser_primary s (s\<lparr>sy_sync := y\<rparr>)"
| received:
    "ps_tx_header_waiter (sy_sync s) = m # ms \<Longrightarrow>
     hw_turn C ser_worker ser_primary inp (HwMessage m) (sy_waiter s) = (Ok (), w) \<Longrightarrow>
     sync_step D C ser_worker ser_primary s
       (s\<lparr>sy_sync := (sy_sync s)\<lparr>ps_tx_header_waiter := ms\<rparr>, sy_waiter := w\<rparr>)"
| completed:
    "v \<in> set (hw_waiting (sy_waiter s)) \<Longrightarrow> hw_waiter_may D (sy_store s) (sy_waiter s) v r \<Longrightarrow>
     hw_turn C ser_worker ser_primary inp (HwWaiter v r) (sy_waiter s) = (Ok (), w) \<Longrightarrow>
     sync_step D C ser_worker ser_primary s (s\<lparr>sy_waiter := w\<rparr>)"
| timer:
    "hw_turn C ser_worker ser_primary inp HwTimer (sy_waiter s) = (Ok (), w) \<Longrightarrow>
     sync_step D C ser_worker ser_primary s (s\<lparr>sy_waiter := w\<rparr>)"
| written:
    "sync_step D C ser_worker ser_primary s (s\<lparr>sy_store := snd (store_write D k value (sy_store s))\<rparr>)"

definition batch_stored :: "'db rocksdb \<Rightarrow> 'db store \<Rightarrow> digest \<times> worker_id \<Rightarrow> bool" where
  "batch_stored D st p \<longleftrightarrow> (\<exists>value. store_read D (batch_key p) st = Inr (Some value))"

definition sync_command_ok :: "'db rocksdb \<Rightarrow> 'db store \<Rightarrow> waiter_message \<Rightarrow> bool" where
  "sync_command_ok D st m \<longleftrightarrow>
     (case m of
        SyncBatches missing header \<Rightarrow> (\<forall>p \<in> set (h_payload header). batch_stored D st p \<or> p \<in> set missing)
      | SyncParents _ _ \<Rightarrow> False)"

definition sync_waiter_ok :: "'db rocksdb \<Rightarrow> 'db store \<Rightarrow> hw_waiter \<Rightarrow> bool" where
  "sync_waiter_ok D st v \<longleftrightarrow>
     (\<forall>p \<in> set (h_payload (hv_deliver v)). batch_stored D st p \<or> batch_key p \<in> set (hv_missing v))"

definition sync_inv :: "'db rocksdb \<Rightarrow> 'db sync_system \<Rightarrow> bool" where
  "sync_inv D s \<longleftrightarrow>
     (\<forall>m \<in> set (ps_tx_header_waiter (sy_sync s)). sync_command_ok D (sy_store s) m) \<and>
     (\<forall>v \<in> set (hw_waiting (sy_waiter s)). sync_waiter_ok D (sy_store s) v) \<and>
     (\<forall>header \<in> set (hw_tx_core (sy_waiter s)). \<forall>p \<in> set (h_payload header). batch_stored D (sy_store s) p)"

lemma alist_update_new: "k \<notin> fst ` set al \<Longrightarrow> AList.update k v al = al @ [(k, v)]"
  by (induction al) auto

lemma missing_batches_complete:
  assumes "missing_batches D st payload acc = Ok missing"
    and "distinct (map fst payload)" "fst ` set acc \<inter> fst ` set payload = {}"
  shows "set missing = set acc \<union> {p \<in> set payload. \<not> batch_stored D st p}"
  using assms
proof (induction D st payload acc rule: missing_batches.induct)
  case (1 D st missing)
  then show ?case by simp
next
  case (2 D st digest i payload acc)
  have new: "digest \<notin> fst ` set acc" using "2.prems"(3) by auto
  show ?case
  proof (cases "store_read D (batch_key (digest, i)) st")
    case (Inl e)
    with "2.prems" show ?thesis by simp
  next
    case (Inr found)
    show ?thesis
    proof (cases found)
      case None
      have "set missing = set (AList.update digest i acc) \<union> {p \<in> set payload. \<not> batch_stored D st p}"
        using "2.IH"(1) [OF Inr None] "2.prems" Inr None new by (auto simp: alist_update_new)
      with new Inr None show ?thesis by (auto simp: alist_update_new batch_stored_def)
    next
      case (Some v)
      with "2.IH"(2) [OF Inr Some] "2.prems" Inr show ?thesis by (auto simp: batch_stored_def)
    qed
  qed
qed

lemma batch_stored_write:
  assumes "kv_laws D" "batch_stored D st p"
  shows "batch_stored D (snd (store_write D k v st)) p"
proof (cases "batch_key p = k")
  case True
  with assms(1) show ?thesis by (auto simp: batch_stored_def kv_laws_def)
next
  case False
  with assms show ?thesis by (auto simp: batch_stored_def kv_laws_def)
qed

text \<open>\<^verbatim>\<open>missing_payload\<close> decides whether the payload is complete, and reports exactly what is missing.\<close>

lemma missing_payload_result:
  assumes "missing_payload D order st header y = (Ok b, y')" "distinct (map fst (h_payload header))"
    and "h_author header \<noteq> ps_name y"
  shows "b \<longleftrightarrow> (\<exists>p \<in> set (h_payload header). \<not> batch_stored D st p)"
proof -
  obtain missing where m: "missing_batches D st (h_payload header) [] = Ok missing"
    using assms by (auto simp: missing_payload_def split: res.splits)
  have "set missing = {p \<in> set (h_payload header). \<not> batch_stored D st p}"
    using missing_batches_complete [OF m assms(2)] by simp
  moreover have "b \<longleftrightarrow> missing \<noteq> []"
    using assms m by (auto simp: missing_payload_def split: if_splits)
  ultimately show ?thesis by (metis (no_types, lifting) Collect_empty_eq set_empty)
qed

lemma missing_payload_command:
  assumes "missing_payload D order st header y = (r, y')" "distinct (map fst (h_payload header))"
    and "\<And>xs. set (order xs) = set xs"
    and "\<forall>m \<in> set (ps_tx_header_waiter y). sync_command_ok D st m"
  shows "\<forall>m \<in> set (ps_tx_header_waiter y'). sync_command_ok D st m"
proof -
  have "sync_command_ok D st (SyncBatches (order missing) header)"
    if "missing_batches D st (h_payload header) [] = Ok missing" for missing
    using missing_batches_complete [OF that assms(2)] assms(3) by (auto simp: sync_command_ok_def)
  with assms(1,4) show ?thesis by (auto simp: missing_payload_def split: if_splits res.splits)
qed

lemma sync_inv_write:
  assumes "kv_laws D" "sync_inv D s"
  shows "sync_inv D (s\<lparr>sy_store := snd (store_write D k v (sy_store s))\<rparr>)"
proof -
  note mono = batch_stored_write [OF assms(1), of "sy_store s" _ k v]
  have "sync_command_ok D (sy_store s) m \<Longrightarrow> sync_command_ok D (snd (store_write D k v (sy_store s))) m" for m
    using mono by (fastforce simp: sync_command_ok_def split: waiter_message.splits)
  moreover have "sync_waiter_ok D (sy_store s) u \<Longrightarrow> sync_waiter_ok D (snd (store_write D k v (sy_store s))) u" for u
    using mono by (fastforce simp: sync_waiter_ok_def)
  ultimately show ?thesis using assms(2) mono unfolding sync_inv_def by simp
qed

lemma sync_received_waiter:
  assumes "hw_turn C sw sp inp (HwMessage m) w = (Ok (), w')" "sync_command_ok D st m"
    and "\<forall>v \<in> set (hw_waiting w). sync_waiter_ok D st v"
  shows "(\<forall>v \<in> set (hw_waiting w'). sync_waiter_ok D st v) \<and> hw_tx_core w' = hw_tx_core w"
proof -
  obtain missing header where m: "m = SyncBatches missing header"
    using assms(2) by (cases m) (auto simp: sync_command_ok_def)
  obtain c w1 where 1: "hw_sync_batches C sw inp missing header w = (Ok c, w1)"
    and w': "w' = (if c then hw_cleanup inp w1 else w1)"
    using assms(1) by (rule hw_turn_Ok) (simp add: m hw_branch_def)
  have "sync_waiter_ok D st \<lparr>hv_missing = map batch_key missing, hv_deliver = header, hv_handler = hw_next w\<rparr>"
    using assms(2) unfolding m sync_command_ok_def sync_waiter_ok_def by simp blast
  then have "(\<forall>v \<in> set (hw_waiting w1). sync_waiter_ok D st v) \<and> hw_tx_core w1 = hw_tx_core w"
    using hw_sync_batches_Ok [OF 1] assms(3) by (auto simp: hw_push_def Let_def split: if_splits)
  then show ?thesis by (simp add: w')
qed

lemma sync_completed_waiter:
  assumes "hw_turn C sw sp inp (HwWaiter v r) w = (Ok (), w')" "hw_waiter_may D st w v r"
    and "v \<in> set (hw_waiting w)" "\<forall>v \<in> set (hw_waiting w). sync_waiter_ok D st v"
  shows "set (hw_waiting w') \<subseteq> set (hw_waiting w) \<and>
    (\<forall>header \<in> set (hw_tx_core w'). header \<in> set (hw_tx_core w) \<or> (\<forall>p \<in> set (h_payload header). batch_stored D st p))"
proof -
  obtain c w1 where 1: "hw_on_waiter v r w = (Ok c, w1)" and w': "w' = (if c then hw_cleanup inp w1 else w1)"
    using assms(1) by (rule hw_turn_Ok) (simp add: hw_branch_def)
  have "\<forall>p \<in> set (h_payload header). batch_stored D st p" if "r = Ok (Some header)" for header
  proof -
    have "\<exists>value. store_read D k st = Inr (Some value)" if "k \<in> set (hv_missing v)" for k
      using assms(2) \<open>r = Ok (Some header)\<close> that
      by (cases "store_read D k st") (force simp: hw_waiter_may_def list_all_iff split: option.splits)+
    moreover have "sync_waiter_ok D st v" "header = hv_deliver v"
      using assms(2-4) that by (simp_all add: hw_waiter_may_def)
    ultimately show ?thesis unfolding sync_waiter_ok_def batch_stored_def by blast
  qed
  then have "set (hw_waiting w1) \<subseteq> set (hw_waiting w) \<and>
      (\<forall>header \<in> set (hw_tx_core w1). header \<in> set (hw_tx_core w) \<or> (\<forall>p \<in> set (h_payload header). batch_stored D st p))"
    using hw_on_waiter_pool [OF 1] by (auto split: res.splits option.splits dest: set_remove1_subset [THEN subsetD])
  then show ?thesis by (simp add: w')
qed

lemma sync_step_inv:
  assumes "sync_step D C sw sp s s'" "kv_laws D" "sync_inv D s"
  shows "sync_inv D s'"
  using assms
proof (induction rule: sync_step.induct)
  case (checked header order s r y)
  from missing_payload_command [OF checked(3,1,2)] checked(5) show ?case
    by (simp add: sync_inv_def)
next
  case (received s m ms inp w)
  from sync_received_waiter [OF received(2), of D "sy_store s"] received(1,4) show ?case
    by (simp add: sync_inv_def)
next
  case (completed v s r inp w)
  from sync_completed_waiter [OF completed(3,2,1)] completed(5) show ?case
    by (auto simp: sync_inv_def)
next
  case (timer inp s w)
  then obtain c w1 where "hw_on_timer C sp inp (sy_waiter s) = (Ok c, w1)" "w = (if c then hw_cleanup inp w1 else w1)"
    by (auto elim!: hw_turn_Ok simp: hw_branch_def)
  with hw_on_timer_pool [OF this(1)] timer(3) show ?case by (simp add: sync_inv_def)
next
  case (written s k v)
  then show ?case by (simp add: sync_inv_write)
qed

lemma sync_steps_inv:
  assumes "(sync_step D C sw sp)\<^sup>*\<^sup>* (sync_system_new st name gd dl nd) s" "kv_laws D"
  shows "sync_inv D s"
  using assms
proof (induction rule: rtranclp_induct)
  case base
  then show ?case
    by (simp add: sync_inv_def sync_system_new_def psynchronizer_new_def header_waiter_new_def)
next
  case (step s s')
  then show ?case using sync_step_inv by blast
qed

text \<open>A future of the pool whose keys are stored can deliver its header.\<close>

lemma sync_can_deliver:
  assumes "v \<in> set (hw_waiting (sy_waiter s))"
    and "\<forall>k \<in> set (hv_missing v). \<exists>value. store_read D k (sy_store s) = Inr (Some value)"
  shows "\<exists>s'. sync_step D C sw sp s s' \<and> hw_tx_core (sy_waiter s') = hw_tx_core (sy_waiter s) @ [hv_deliver v]"
proof -
  let ?r = "Ok (Some (hv_deliver v)) :: (dag_error, batch_header option) res"
  obtain inp :: hw_inputs where True by simp
  obtain w where w: "hw_turn C sw sp inp (HwWaiter v ?r) (sy_waiter s) = (Ok (), w)"
    and core: "hw_tx_core w = hw_tx_core (sy_waiter s) @ [hv_deliver v]"
    by (simp add: hw_turn_def hw_branch_def hw_on_waiter_def monad_defs Let_def)
  have "hw_waiter_may D (sy_store s) (sy_waiter s) v ?r"
    using assms(2) by (auto simp: hw_waiter_may_def list_all_iff split: sum.splits option.splits)
  from sync_step.completed [where D = D, OF assms(1) this w] core show ?thesis by force
qed

section \<open>Requests for batches and parents\<close>

definition entry_of :: "('k \<times> 'v list) list \<Rightarrow> 'k \<Rightarrow> 'v list" where
  "entry_of m k = (case map_of m k of Some vs \<Rightarrow> vs | None \<Rightarrow> [])"

lemma entry_of_push [simp]: "entry_of (push_entry k v m) k' = entry_of m k' @ (if k' = k then [v] else [])"
  by (induction k v m rule: push_entry.induct) (auto simp: entry_of_def)

text \<open>
  Each worker is asked for exactly the missing batches the header attributes to it, except
  for digests that were requested before, from whichever worker.
\<close>

lemma batch_entries_requested:
  assumes "distinct (map fst missing)"
  shows "entry_of (fst (batch_entries round missing requests acc)) i =
    entry_of acc i @ map fst (filter (\<lambda>(d, j). j = i \<and> requests d = None) missing)"
  using assms
proof (induction round missing requests acc rule: batch_entries.induct)
  case (1 round requests acc)
  then show ?case by simp
next
  case (2 round d j missing requests acc)
  have "filter (\<lambda>(x, k). k = i \<and> (requests(d \<mapsto> round)) x = None) missing =
      filter (\<lambda>(x, k). k = i \<and> requests x = None) missing"
    using "2.prems" by (intro filter_cong) force+
  note same = this
  show ?case
  proof (cases "requests d")
    case None
    with "2.IH"(2) "2.prems"
    have "entry_of (fst (batch_entries round ((d, j) # missing) requests acc)) i =
        entry_of (push_entry j d acc) i @ map fst (filter (\<lambda>(x, k). k = i \<and> (requests(d \<mapsto> round)) x = None) missing)"
      by (simp add: fun_upd_def del: entry_of_push)
    then show ?thesis unfolding same using None by simp
  next
    case (Some r)
    with 2 show ?thesis by simp
  qed
qed

text \<open>
  The requests are keyed by the digest alone: a header that attributes a requested batch to
  another worker waits for a key that nobody is asked for.
\<close>

lemma other_worker_not_asked:
  assumes "hw_batch_requests w d \<noteq> None" "hw_pending w (h_id header) = None"
    and "hw_sync_batches C ser inp [(d, i)] header w = (Ok c, w')" "hi_worker_order inp [] = []"
  shows "hw_network w' = hw_network w" and "batch_key (d, i) \<in> set (hv_missing (last (hw_waiting w')))"
  using assms by (auto simp: hw_sync_batches_def hw_push_def Let_def monad_defs)

text \<open>The author is asked once for each parent that was not requested before.\<close>

lemma parent_entries_requested:
  "distinct (fst (parent_entries round now missing requests)) \<and>
   set (fst (parent_entries round now missing requests)) = {d \<in> set missing. requests d = None}"
proof (induction round now missing requests rule: parent_entries.induct)
  case (1 round now requests)
  then show ?case by simp
next
  case (2 round now d missing requests)
  show ?case
  proof (cases "requests d")
    case None
    obtain xs m where r: "parent_entries round now missing (requests(d \<mapsto> (round, now))) = (xs, m)" by fastforce
    with 2(2) None have "distinct xs \<and> set xs = {x \<in> set missing. (requests(d \<mapsto> (round, now))) x = None}"
      by (simp add: fun_upd_def)
    with None r show ?thesis by auto
  next
    case (Some p)
    with 2 show ?thesis by auto
  qed
qed

text \<open>
  Delivering a header forgets the requests for its batches but not those for its parents:
  until they are collected, the timer asks for them again.
\<close>

lemma delivered_batches_forgotten:
  assumes "hw_on_waiter v (Ok (Some header)) w = (Ok c, w')" "(d, i) \<in> set (h_payload header)"
  shows "hw_batch_requests w' d = None" and "hw_parent_requests w' = hw_parent_requests w"
  using assms by (force simp: hw_on_waiter_def Let_def restrict_map_def)+

text \<open>The timer broadcasts even when there is nothing to ask for.\<close>

lemma timer_broadcasts_empty_request:
  assumes "hw_parent_requests w = Map.empty"
  shows "hw_on_timer C ser inp w = (Ok True, w\<lparr>hw_network := simple_lucky_broadcast (hi_shuffle inp)
      (map (\<lambda>(_, x). primary_to_primary x) (others_primaries C (hw_name w)))
      (ser (PmCertificatesRequest [] (hw_name w))) (hw_sync_retry_nodes w) (hw_network w)\<rparr>)"
  using assms by (simp add: hw_on_timer_def)

text \<open>Collection: nothing of a collected round stays, and every dropped header's future is signalled.\<close>

lemma hw_cleanup_collects:
  assumes "hi_consensus_round inp > hw_gc_depth w" "dom (hw_pending w) \<subseteq> set (hi_pending_order inp)"
    and "hw_pending w d = Some (r, handler)" "r + hw_gc_depth w \<le> hi_consensus_round inp"
    and "hi_consensus_round inp < 2 ^ 64"
  shows "hw_pending (hw_cleanup inp w) d = None" and "handler \<in> set (hw_cancelled (hw_cleanup inp w))"
proof -
  have le: "r \<le> sub64 (hi_consensus_round inp) (hw_gc_depth w)"
    using assms by (subst sub64_small) simp_all
  show "hw_pending (hw_cleanup inp w) d = None"
    using assms(1,3) le by (simp add: hw_cleanup_def Let_def retain_eq_None)
  have "d \<in> set (hi_pending_order inp)" using assms(2,3) by auto
  then show "handler \<in> set (hw_cancelled (hw_cleanup inp w))"
    using assms(1,3) le by (force simp: hw_cleanup_def Let_def map_filter_def image_iff)
qed

section \<open>The contract of the two tasks\<close>

text \<open>
  C38. Headers whose payload is incomplete are handed back to the core only when it is
  complete. However the synchronizer, the header waiter, its timer and the tasks that write
  to the store interleave: every header the waiter has delivered to the core has each of its
  batches in the store, under the digest and the worker the header names; and whenever all
  keys a pooled header waits for are stored, the next completion can deliver exactly that
  header.
\<close>

theorem rescheduled_headers_are_complete:
  assumes "kv_laws D" "(sync_step D C ser_worker ser_primary)\<^sup>*\<^sup>* (sync_system_new st name gc_depth delay nodes) s"
  shows "(\<forall>header \<in> set (hw_tx_core (sy_waiter s)). \<forall>p \<in> set (h_payload header).
            \<exists>value. store_read D (batch_key p) (sy_store s) = Inr (Some value)) \<and>
         (\<forall>v \<in> set (hw_waiting (sy_waiter s)).
            (\<forall>k \<in> set (hv_missing v). \<exists>value. store_read D k (sy_store s) = Inr (Some value)) \<longrightarrow>
            (\<exists>s'. sync_step D C ser_worker ser_primary s s' \<and>
                  hw_tx_core (sy_waiter s') = hw_tx_core (sy_waiter s) @ [hv_deliver v]))"
  using sync_steps_inv [OF assms(2,1)] sync_can_deliver unfolding sync_inv_def batch_stored_def by blast

definition toy_batch_db :: "(key \<rightharpoonup> val) rocksdb" where
  "toy_batch_db = \<lparr>db_put = (\<lambda>m k v. m(k \<mapsto> v)), db_get = (\<lambda>m k. Inr (m k))\<rparr>"

definition toy_batch_committee :: "int committee" where
  "toy_batch_committee =
     (let a = SocketAddr [127, 0, 0, 1] 80 in
      \<lparr>authorities = [(PublicKey [1], \<lparr>a_id = 0, bls_pubkey_g2 = 1, is_honest = True, a_stake = 1,
         a_consensus = \<lparr>consensus_to_consensus = a\<rparr>,
         a_primary = \<lparr>primary_to_primary = a, worker_to_primary = a\<rparr>,
         a_workers = [(0, \<lparr>wa_transactions = a, worker_to_worker = a, primary_to_worker = a\<rparr>)]\<rparr>)],
       sorted_keys = [1], combined_pubkey = 1, cm_n = 1, cm_f = 0, cm_c = 0, cm_k = 0, cm_p = 0,
       cm_quorum_threshold = 1, cm_slow_commit_threshold = 1, cm_fast_commit_threshold = 1,
       cm_view_change_threshold = 1\<rparr>)"

definition toy_batch_header :: batch_header where
  "toy_batch_header = \<lparr>h_author = PublicKey [2], h_round = 1, h_payload = [(Digest [7], 0)],
     h_id = Digest [9], h_signature = signature_default\<rparr>"

text \<open>A run in which the batch is missing, requested, stored and the header delivered.\<close>

lemma toy_sync_run:
  "\<exists>s. (sync_step toy_batch_db toy_batch_committee (\<lambda>_. []) (\<lambda>_ :: (int, digest \<times> worker_id) primary_message. []))\<^sup>*\<^sup>*
         (sync_system_new (store_new Map.empty) (PublicKey [1]) 50 5000 3) s \<and>
       hw_tx_core (sy_waiter s) = [toy_batch_header]"
proof -
  let ?step = "sync_step toy_batch_db toy_batch_committee (\<lambda>_. []) (\<lambda>_ :: (int, digest \<times> worker_id) primary_message. [])"
  let ?s0 = "sync_system_new (store_new Map.empty) (PublicKey [1]) 50 5000 3 :: (key \<rightharpoonup> val) sync_system"
  let ?m = "SyncBatches [(Digest [7], 0)] toy_batch_header"
  let ?s1 = "?s0\<lparr>sy_sync := \<lparr>ps_name = PublicKey [1], ps_tx_header_waiter = [?m]\<rparr>\<rparr>"
  let ?inp = "\<lparr>hi_now = 0, hi_consensus_round = 0, hi_worker_order = (\<lambda>xs. xs), hi_parent_order = [],
      hi_pending_order = [], hi_shuffle = (\<lambda>xs. xs)\<rparr>"
  let ?k = "batch_key (Digest [7], 0)"
  have 1: "?step ?s0 ?s1"
    by (rule sync_step.checked [where header = toy_batch_header and order = "\<lambda>xs. xs" and r = "Ok True"])
      (simp_all add: missing_payload_def toy_batch_header_def toy_batch_db_def sync_system_new_def store_new_def
        psynchronizer_new_def)
  obtain w where w: "hw_turn toy_batch_committee (\<lambda>_. []) (\<lambda>_ :: (int, digest \<times> worker_id) primary_message. [])
      ?inp (HwMessage ?m) (sy_waiter ?s1) = (Ok (), w)"
    and pool: "hw_waiting w = [\<lparr>hv_missing = [?k], hv_deliver = toy_batch_header, hv_handler = 0\<rparr>]" "hw_tx_core w = []"
    by (simp add: hw_turn_def hw_branch_def hw_sync_batches_def hw_push_def sync_system_new_def header_waiter_new_def
        monad_defs Let_def toy_batch_header_def toy_batch_committee_def committee_worker_def hw_cleanup_def)
  let ?s2 = "?s1\<lparr>sy_sync := (sy_sync ?s1)\<lparr>ps_tx_header_waiter := []\<rparr>, sy_waiter := w\<rparr>"
  have 2: "?step ?s1 ?s2"
    by (rule sync_step.received [OF _ w]) simp
  let ?s3 = "?s2\<lparr>sy_store := snd (store_write toy_batch_db ?k [] (sy_store ?s2))\<rparr>"
  have 3: "?step ?s2 ?s3" by (rule sync_step.written)
  have "\<exists>s'. ?step ?s3 s' \<and> hw_tx_core (sy_waiter s') = hw_tx_core (sy_waiter ?s3) @ [toy_batch_header]"
    using sync_can_deliver [of _ ?s3 toy_batch_db] pool by (force simp: toy_batch_db_def)
  then obtain s where "?step ?s3 s" "hw_tx_core (sy_waiter s) = [toy_batch_header]"
    using pool by auto
  with 1 2 3 show ?thesis by (meson rtranclp.rtrancl_into_rtrancl rtranclp.rtrancl_refl)
qed

theorem rescheduled_headers_are_complete_witness:
  "\<exists>s :: (key \<rightharpoonup> val) sync_system. hw_tx_core (sy_waiter s) = [toy_batch_header] \<and>
       (\<exists>value. store_read toy_batch_db (batch_key (Digest [7], 0)) (sy_store s) = Inr (Some value))"
proof -
  obtain s where r: "(sync_step toy_batch_db toy_batch_committee (\<lambda>_. []) (\<lambda>_ :: (int, digest \<times> worker_id) primary_message. []))\<^sup>*\<^sup>*
      (sync_system_new (store_new Map.empty) (PublicKey [1]) 50 5000 3) s"
    and core: "hw_tx_core (sy_waiter s) = [toy_batch_header]"
    using toy_sync_run by blast
  have "kv_laws toy_batch_db" by (simp add: kv_laws_def toy_batch_db_def)
  from rescheduled_headers_are_complete [OF this r] core
  have "\<exists>value. store_read toy_batch_db (batch_key (Digest [7], 0)) (sy_store s) = Inr (Some value)"
    by (simp add: toy_batch_header_def)
  with core show ?thesis by blast
qed

end
