(* ===== verification/Receiver.thy ===== *)
theory Receiver
  imports Network "HOL-Library.Sublist"
begin

text \<open>
  The network receiver with all its connections (src/network/src/receiver.rs) and the texts of
  the network errors (src/network/src/error.rs). The operating system is an argument: whether
  the port can be bound, what \<^verbatim>\<open>accept\<close> returns and which frames arrive. The clones
  of the handler share their channels, so all connections work on one handler state; their
  tasks interleave in any order. \<open>rc_order\<close> records which connection handed which message to
  the handler, \<open>rc_log\<close> what is logged.
\<close>

type_synonym u16 = nat

datatype network_error =
  FailedToConnect socket_addr u16 string
| FailedToListen string
| FailedToSendMessage socket_addr string
| FailedToReceiveMessage socket_addr string
| FailedToReceiveAck socket_addr
| UnexpectedAck socket_addr

text \<open>The texts given by \<^verbatim>\<open>thiserror\<close>, over the display of addresses.\<close>

fun network_error_display :: "(socket_addr \<Rightarrow> string) \<Rightarrow> network_error \<Rightarrow> string" where
  "network_error_display show_addr (FailedToConnect address retry e) =
     ''Failed to connect to '' @ show_addr address @ '' (retry '' @ show_nat retry @ ''): '' @ e"
| "network_error_display show_addr (FailedToListen e) = ''Failed to accept connection: '' @ e"
| "network_error_display show_addr (FailedToSendMessage address e) =
     ''Failed to send message to '' @ show_addr address @ '': '' @ e"
| "network_error_display show_addr (FailedToReceiveMessage address e) =
     ''Failed to receive message from '' @ show_addr address @ '': '' @ e"
| "network_error_display show_addr (FailedToReceiveAck address) = ''Failed to receive ACK from '' @ show_addr address"
| "network_error_display show_addr (UnexpectedAck address) = ''Receive unexpected ACK from '' @ show_addr address"

section \<open>State\<close>

datatype receiver_log =
  Listening socket_addr
| Incoming socket_addr
| WarnNetwork network_error
| WarnHandler
| ClosedByPeer socket_addr

record rx_connection =
  cn_peer :: socket_addr
  cn_open :: bool

record 'st receiver =
  rc_state :: 'st
  rc_conns :: "rx_connection list"
  rc_order :: "(nat \<times> bytes) list"
  rc_log :: "receiver_log list"

text \<open>\<open>bind\<close> tells whether the port could be bound.\<close>

definition receiver_spawn :: "bool \<Rightarrow> socket_addr \<Rightarrow> 'st \<Rightarrow> ('e, 'st receiver) res" where
  "receiver_spawn bind address s =
     (if bind then Ok \<lparr>rc_state = s, rc_conns = [], rc_order = [], rc_log = [Listening address]\<rparr>
      else Panic ''Failed to bind TCP port'')"

section \<open>Turns\<close>

text \<open>
  What a connection's stream yields: a frame, an error of the transport, its end. The codec
  refuses frames above its limit.
\<close>

datatype frame = Frame bytes | Broken string | EndOfStream

definition max_frame_length :: nat where
  "max_frame_length = 320 * 1000 * 1000"

definition decode_frame :: "frame \<Rightarrow> frame" where
  "decode_frame f =
     (case f of Frame data \<Rightarrow> if length data > max_frame_length then Broken ''frame size too big'' else f | _ \<Rightarrow> f)"

datatype receiver_event = RvAccept "string + socket_addr" | RvNext nat frame

definition receiver_accept :: "string + socket_addr \<Rightarrow> 'st receiver \<Rightarrow> 'st receiver" where
  "receiver_accept result r =
     (case result of
        Inl e \<Rightarrow> r\<lparr>rc_log := rc_log r @ [WarnNetwork (FailedToListen e)]\<rparr>
      | Inr peer \<Rightarrow> r\<lparr>rc_log := rc_log r @ [Incoming peer], rc_conns := rc_conns r @ [\<lparr>cn_peer = peer, cn_open = True\<rparr>]\<rparr>)"

definition close_connection :: "nat \<Rightarrow> receiver_log list \<Rightarrow> 'st receiver \<Rightarrow> 'st receiver" where
  "close_connection i log r =
     r\<lparr>rc_conns := (rc_conns r)[i := (rc_conns r ! i)\<lparr>cn_open := False\<rparr>], rc_log := rc_log r @ log\<rparr>"

text \<open>
  One iteration of the loop of connection \<open>i\<close>'s task. A panic of the handler ends the task
  without the warning.
\<close>

definition runner_turn :: "(bytes \<Rightarrow> ('st, 'e, unit) handler) \<Rightarrow> nat \<Rightarrow> frame \<Rightarrow> 'st receiver \<Rightarrow> 'st receiver" where
  "runner_turn dispatch i f r =
     (if i < length (rc_conns r) \<and> cn_open (rc_conns r ! i) then
        case decode_frame f of
          Frame message \<Rightarrow>
            (case dispatch message (rc_state r) of (result, s) \<Rightarrow>
               let r' = r\<lparr>rc_state := s, rc_order := rc_order r @ [(i, message)]\<rparr> in
               (case result of
                  Ok _ \<Rightarrow> r'
                | Err _ \<Rightarrow> close_connection i [WarnHandler] r'
                | _ \<Rightarrow> close_connection i [] r'))
        | Broken e \<Rightarrow> close_connection i [WarnNetwork (FailedToReceiveMessage (cn_peer (rc_conns r ! i)) e)] r
        | EndOfStream \<Rightarrow> close_connection i [ClosedByPeer (cn_peer (rc_conns r ! i))] r
      else r)"

definition receiver_turn ::
  "(bytes \<Rightarrow> ('st, 'e, unit) handler) \<Rightarrow> receiver_event \<Rightarrow> 'st receiver \<Rightarrow> 'st receiver" where
  "receiver_turn dispatch ev =
     (case ev of RvAccept result \<Rightarrow> receiver_accept result | RvNext i f \<Rightarrow> runner_turn dispatch i f)"

section \<open>What the receiver promises\<close>

text \<open>Frames arrive on connections that were accepted before.\<close>

fun arrivals_ok :: "nat \<Rightarrow> receiver_event list \<Rightarrow> bool" where
  "arrivals_ok n [] = True"
| "arrivals_ok n (RvAccept (Inr _) # evs) = arrivals_ok (Suc n) evs"
| "arrivals_ok n (RvAccept (Inl _) # evs) = arrivals_ok n evs"
| "arrivals_ok n (RvNext i _ # evs) = (i < n \<and> arrivals_ok n evs)"

definition frames_of :: "nat \<Rightarrow> receiver_event list \<Rightarrow> bytes list" where
  "frames_of i evs =
     List.map_filter (\<lambda>ev. case ev of
        RvNext j (Frame data) \<Rightarrow> if j = i \<and> length data \<le> max_frame_length then Some data else None
      | _ \<Rightarrow> None) evs"

definition messages_of :: "nat \<Rightarrow> 'st receiver \<Rightarrow> bytes list" where
  "messages_of i r = map snd (filter (\<lambda>(j, _). j = i) (rc_order r))"

lemma frames_of_simps [simp]:
  "frames_of i [] = []"
  "frames_of i (evs @ evs') = frames_of i evs @ frames_of i evs'"
  "frames_of i [RvAccept a] = []"
  "frames_of i [RvNext j (Frame data)] = (if j = i \<and> length data \<le> max_frame_length then [data] else [])"
  "frames_of i [RvNext j (Broken e)] = []" "frames_of i [RvNext j EndOfStream] = []"
  by (simp_all add: frames_of_def map_filter_def)

text \<open>
  The handler has seen exactly the messages of the record, one after the other. An open
  connection has handed over every frame it received, a closed one a prefix, and an
  unaccepted one nothing.
\<close>

definition receiver_ok ::
  "(bytes \<Rightarrow> ('st, 'e, unit) handler) \<Rightarrow> 'st \<Rightarrow> receiver_event list \<Rightarrow> 'st receiver \<Rightarrow> bool" where
  "receiver_ok dispatch s evs r \<longleftrightarrow>
     rc_state r = fold (\<lambda>(_, m) s. snd (dispatch m s)) (rc_order r) s \<and>
     (\<forall>i. prefix (messages_of i r) (frames_of i evs)) \<and>
     (\<forall>i < length (rc_conns r). cn_open (rc_conns r ! i) \<longrightarrow> messages_of i r = frames_of i evs) \<and>
     (\<forall>i \<ge> length (rc_conns r). frames_of i evs = [])"

lemma receiver_okD:
  assumes "receiver_ok dispatch s evs r"
  shows "rc_state r = fold (\<lambda>(_, m) s. snd (dispatch m s)) (rc_order r) s"
    and "prefix (messages_of i r) (frames_of i evs)"
    and "i < length (rc_conns r) \<Longrightarrow> cn_open (rc_conns r ! i) \<Longrightarrow> messages_of i r = frames_of i evs"
    and "i \<ge> length (rc_conns r) \<Longrightarrow> frames_of i evs = []"
  using assms unfolding receiver_ok_def by blast+

lemma close_connection_simps [simp]:
  "rc_state (close_connection i log r) = rc_state r" "rc_order (close_connection i log r) = rc_order r"
  "length (rc_conns (close_connection i log r)) = length (rc_conns r)"
  "messages_of j (close_connection i log r) = messages_of j r"
  "i < length (rc_conns r) \<Longrightarrow> j < length (rc_conns r) \<Longrightarrow>
   cn_open (rc_conns (close_connection i log r) ! j) \<longleftrightarrow> j \<noteq> i \<and> cn_open (rc_conns r ! j)"
  by (auto simp: close_connection_def messages_of_def nth_list_update)

text \<open>Closing a connection keeps the invariant, whatever it received last.\<close>

lemma receiver_ok_close:
  assumes "receiver_ok dispatch s evs r" "i < length (rc_conns r)"
    and "\<And>j. frames_of j evs' = (if j = i then frames_of i evs @ xs else frames_of j evs)"
  shows "receiver_ok dispatch s evs' (close_connection i log r)"
  using assms unfolding receiver_ok_def by (auto simp: prefix_prefix)

lemma receiver_ok_take:
  assumes "receiver_ok dispatch s evs r" "i < length (rc_conns r)" "cn_open (rc_conns r ! i)"
    and "dispatch message (rc_state r) = (result, s')" "length message \<le> max_frame_length"
  shows "receiver_ok dispatch s (evs @ [RvNext i (Frame message)])
    (r\<lparr>rc_state := s', rc_order := rc_order r @ [(i, message)]\<rparr>)"
proof -
  have m: "messages_of j (r\<lparr>rc_state := s', rc_order := rc_order r @ [(i, message)]\<rparr>) =
      messages_of j r @ (if j = i then [message] else [])" for j
    by (simp add: messages_of_def)
  show ?thesis
    using receiver_okD [OF assms(1)] assms(2-5) unfolding receiver_ok_def m
    by (auto simp flip: receiver_okD(1) [OF assms(1)])
qed

lemma runner_turn_ok:
  assumes "receiver_ok dispatch s evs r" "i < length (rc_conns r)"
  shows "receiver_ok dispatch s (evs @ [RvNext i f]) (runner_turn dispatch i f r)"
proof (cases "cn_open (rc_conns r ! i)")
  case False
  then show ?thesis
    using assms by (cases f) (auto simp: runner_turn_def receiver_ok_def prefix_prefix)
next
  case True
  have close: "receiver_ok dispatch s (evs @ [RvNext i f]) (close_connection i log r)" for log
    by (rule receiver_ok_close [OF assms, of _ "frames_of i [RvNext i f]"]) (cases f; auto)
  show ?thesis
  proof (cases "decode_frame f")
    case (Frame message)
    then have f: "f = Frame message" "length message \<le> max_frame_length"
      by (auto simp: decode_frame_def split: frame.splits if_splits)
    obtain result s' where d: "dispatch message (rc_state r) = (result, s')" by fastforce
    let ?r = "r\<lparr>rc_state := s', rc_order := rc_order r @ [(i, message)]\<rparr>"
    have ok: "receiver_ok dispatch s (evs @ [RvNext i f]) ?r"
      unfolding f(1) by (rule receiver_ok_take [where result = result]) (use assms True d f in auto)
    have "receiver_ok dispatch s (evs @ [RvNext i f]) (close_connection i log ?r)" for log
      by (rule receiver_ok_close [OF ok, where xs = "[]"]) (use assms in auto)
    with ok show ?thesis
      using assms(2) True Frame d by (simp add: runner_turn_def Let_def split: res.split)
  qed (use assms(2) True close in \<open>simp_all add: runner_turn_def\<close>)
qed

lemma receiver_accept_ok:
  assumes "receiver_ok dispatch s evs r"
  shows "receiver_ok dispatch s (evs @ [RvAccept a]) (receiver_accept a r)"
proof (cases a)
  case (Inl e)
  with assms show ?thesis by (simp add: receiver_ok_def receiver_accept_def messages_of_def)
next
  case (Inr peer)
  have "messages_of (length (rc_conns r)) r = []"
    using receiver_okD(2,4) [OF assms, of "length (rc_conns r)"] by simp
  with Inr assms show ?thesis
    by (auto simp: receiver_ok_def receiver_accept_def messages_of_def nth_append less_Suc_eq)
qed

lemma receiver_run_ok:
  assumes "receiver_ok dispatch s evs0 r" "arrivals_ok (length (rc_conns r)) evs"
  shows "receiver_ok dispatch s (evs0 @ evs) (task_run (receiver_turn dispatch) evs r)"
  using assms
proof (induction evs arbitrary: evs0 r)
  case Nil
  then show ?case by simp
next
  case (Cons ev evs)
  have "receiver_ok dispatch s (evs0 @ [ev]) (receiver_turn dispatch ev r) \<and>
      arrivals_ok (length (rc_conns (receiver_turn dispatch ev r))) evs"
  proof (cases ev)
    case (RvAccept a)
    with Cons.prems(2) have "arrivals_ok (length (rc_conns (receiver_accept a r))) evs"
      by (cases a) (auto simp: receiver_accept_def)
    with RvAccept receiver_accept_ok [OF Cons.prems(1)] show ?thesis by (simp add: receiver_turn_def)
  next
    case (RvNext i f)
    with Cons.prems runner_turn_ok [OF Cons.prems(1)]
    have "length (rc_conns (runner_turn dispatch i f r)) = length (rc_conns r)"
      by (auto simp: runner_turn_def Let_def split: frame.splits prod.splits res.splits)
    with RvNext Cons.prems runner_turn_ok [OF Cons.prems(1)] show ?thesis
      by (auto simp: receiver_turn_def)
  qed
  with Cons.IH [of "evs0 @ [ev]" "receiver_turn dispatch ev r"] show ?case by simp
qed

text \<open>A connection is closed by its own stream only.\<close>

lemma runner_turn_other:
  "j \<noteq> i \<Longrightarrow> rc_conns (runner_turn dispatch i f r) ! j = rc_conns r ! j"
  by (auto simp: runner_turn_def close_connection_def Let_def split: frame.splits prod.splits res.splits)

text \<open>With a single connection the receiver is the loop over the frames of that connection.\<close>

definition frame_of :: "bytes option \<Rightarrow> frame" where
  "frame_of x = (case x of Some data \<Rightarrow> Frame data | None \<Rightarrow> Broken [])"

lemma closed_connection_idle:
  "\<not> cn_open (rc_conns r ! i) \<Longrightarrow> task_run (receiver_turn dispatch) (map (\<lambda>x. RvNext i (frame_of x)) frames) r = r"
  by (induction frames) (simp_all add: receiver_turn_def runner_turn_def)

lemma single_connection:
  assumes "rc_conns r = [c]" "cn_open c" "\<forall>x \<in> set frames. \<forall>data. x = Some data \<longrightarrow> length data \<le> max_frame_length"
  shows "rc_state (task_run (receiver_turn dispatch) (map (\<lambda>x. RvNext 0 (frame_of x)) frames) r) =
    spawn_runner dispatch frames (rc_state r)"
  using assms
proof (induction frames arbitrary: r c)
  case Nil
  then show ?case by simp
next
  case (Cons x frames)
  show ?case
  proof (cases x)
    case None
    let ?r = "receiver_turn dispatch (RvNext 0 (frame_of None)) r"
    have "\<not> cn_open (rc_conns ?r ! 0)" "rc_state ?r = rc_state r"
      using Cons.prems by (auto simp: receiver_turn_def runner_turn_def frame_of_def decode_frame_def close_connection_def)
    then show ?thesis using closed_connection_idle [of ?r 0 dispatch frames] None by simp
  next
    case (Some message)
    let ?r = "receiver_turn dispatch (RvNext 0 (frame_of x)) r"
    obtain result s' where d: "dispatch message (rc_state r) = (result, s')" by fastforce
    have turn: "?r = (let r' = r\<lparr>rc_state := s', rc_order := rc_order r @ [(0, message)]\<rparr> in
        case result of Ok _ \<Rightarrow> r' | Err _ \<Rightarrow> close_connection 0 [WarnHandler] r' | _ \<Rightarrow> close_connection 0 [] r')"
      using Cons.prems d Some by (simp add: receiver_turn_def runner_turn_def frame_of_def decode_frame_def)
    show ?thesis
    proof (cases "\<exists>u. result = Ok u")
      case True
      then have "rc_conns ?r = [c]" "rc_state ?r = s'" using Cons.prems(1) turn by auto
      with Cons.IH [of ?r c] Cons.prems True d Some show ?thesis by auto
    next
      case False
      then have "\<not> cn_open (rc_conns ?r ! 0)" "rc_state ?r = s'"
        using Cons.prems(1) unfolding turn by (auto simp: Let_def close_connection_def split: res.splits)
      with False d Some closed_connection_idle [of ?r 0 dispatch frames] show ?thesis
        by (auto split: res.splits)
    qed
  qed
qed

lemma closed_turn:
  assumes "i < length (rc_conns r)" "\<not> cn_open (rc_conns r ! i)"
  shows "i < length (rc_conns (receiver_turn dispatch ev r))" "\<not> cn_open (rc_conns (receiver_turn dispatch ev r) ! i)"
    "messages_of i (receiver_turn dispatch ev r) = messages_of i r"
proof -
  have "i < length (rc_conns (receiver_turn dispatch ev r)) \<and> \<not> cn_open (rc_conns (receiver_turn dispatch ev r) ! i) \<and>
      messages_of i (receiver_turn dispatch ev r) = messages_of i r"
  proof (cases ev)
    case (RvAccept a)
    with assms show ?thesis
      by (cases a) (auto simp: receiver_turn_def receiver_accept_def messages_of_def nth_append)
  next
    case (RvNext j f)
    have "messages_of i (r\<lparr>rc_state := s', rc_order := rc_order r @ [(j, m)]\<rparr>) = messages_of i r" if "j \<noteq> i" for s' m
      using that by (simp add: messages_of_def)
    with RvNext assms show ?thesis
      by (auto simp: receiver_turn_def runner_turn_def Let_def split: frame.splits prod.splits res.splits)
  qed
  then show "i < length (rc_conns (receiver_turn dispatch ev r))" "\<not> cn_open (rc_conns (receiver_turn dispatch ev r) ! i)"
    "messages_of i (receiver_turn dispatch ev r) = messages_of i r" by blast+
qed

text \<open>A closed connection stays closed and contributes nothing more.\<close>

lemma closed_run:
  "i < length (rc_conns r) \<Longrightarrow> \<not> cn_open (rc_conns r ! i) \<Longrightarrow>
   messages_of i (task_run (receiver_turn dispatch) evs r) = messages_of i r"
  by (induction evs arbitrary: r) (simp_all add: closed_turn)

section \<open>The contract\<close>

text \<open>
  C17. The receiver serves its connections in isolation. Whatever connections are accepted or
  refused and however their frames, transport errors and ends interleave, with a handler that
  may fail: the handler has run on exactly the recorded messages, one after the other; the
  messages each connection contributed are a prefix of the frames (within the size limit) that
  arrived on it, in order; on a connection that is still open none of them is missing; and a
  connection that was closed at some point contributes nothing after it.
\<close>

theorem receiver_serves_connections:
  fixes dispatch :: "bytes \<Rightarrow> ('st, 'e, unit) handler"
  assumes "receiver_spawn True address s = (Ok start :: ('e, 'st receiver) res)" "arrivals_ok 0 (before @ after)"
    and "mid = task_run (receiver_turn dispatch) before start" "r = task_run (receiver_turn dispatch) after mid"
  shows "rc_state r = fold (\<lambda>(_, m) s. snd (dispatch m s)) (rc_order r) s \<and>
    prefix (messages_of i r) (frames_of i (before @ after)) \<and>
    (i < length (rc_conns r) \<and> cn_open (rc_conns r ! i) \<longrightarrow> messages_of i r = frames_of i (before @ after)) \<and>
    (i < length (rc_conns mid) \<and> \<not> cn_open (rc_conns mid ! i) \<longrightarrow> messages_of i r = messages_of i mid)"
proof -
  have "receiver_ok dispatch s [] start" and "rc_conns start = []"
    using assms(1) by (auto simp: receiver_spawn_def receiver_ok_def messages_of_def)
  from receiver_run_ok [OF this(1), of "before @ after"] this(2) assms(2-4)
  have "receiver_ok dispatch s (before @ after) r" by simp
  from receiver_okD [OF this] closed_run [of i mid dispatch after] assms(4) show ?thesis by blast
qed

text \<open>Two connections; the handler refuses the message \<open>[0]\<close>, which closes the first only.\<close>

theorem receiver_serves_connections_witness:
  "\<exists>r :: bytes list receiver. messages_of 0 r = [[0]] \<and> messages_of 1 r = [[5], [7]] \<and> rc_state r = [[0], [5], [7]]"
proof -
  let ?before = "[RvAccept (Inr (SocketAddr [1] 1)), RvAccept (Inl ''EMFILE''), RvAccept (Inr (SocketAddr [2] 2)),
      RvNext 0 (Frame [0])]"
  let ?after = "[RvNext 1 (Frame [5]), RvNext 0 (Frame [6]), RvNext 1 (Frame [7])]"
  let ?d = "(\<lambda>m s. (if m = [0] then Err () else Ok (), s @ [m])) :: bytes \<Rightarrow> (bytes list, unit, unit) handler"
  let ?start = "\<lparr>rc_state = [], rc_conns = [], rc_order = [], rc_log = [Listening (SocketAddr [3] 3)]\<rparr> :: bytes list receiver"
  let ?mid = "task_run (receiver_turn ?d) ?before ?start"
  let ?r = "task_run (receiver_turn ?d) ?after ?mid"
  note turns = receiver_turn_def receiver_accept_def runner_turn_def close_connection_def decode_frame_def
    max_frame_length_def frames_of_def map_filter_def messages_of_def Let_def
  have start: "receiver_spawn True (SocketAddr [3] 3) [] = (Ok ?start :: (unit, bytes list receiver) res)"
    by (simp add: receiver_spawn_def)
  have ok: "arrivals_ok 0 (?before @ ?after)" by simp
  note served = receiver_serves_connections [OF start ok refl refl]
  have "1 < length (rc_conns ?r)" "cn_open (rc_conns ?r ! 1)" "frames_of 1 (?before @ ?after) = [[5], [7]]"
    by (simp_all add: turns)
  with served [of ?d 1] have one: "messages_of 1 ?r = [[5], [7]]" by metis
  have "0 < length (rc_conns ?mid)" "\<not> cn_open (rc_conns ?mid ! 0)" "messages_of 0 ?mid = [[0]]"
    by (simp_all add: turns)
  with served [of ?d 0] have zero: "messages_of 0 ?r = [[0]]" by metis
  have "rc_state ?r = [[0], [5], [7]]" by (simp add: turns)
  with zero one show ?thesis by blast
qed

end
