(* ===== verification/Programs.thy ===== *)
theory Programs
  imports Client Keys
begin

text \<open>
  The main functions: the node binary (src/node/src/main.rs), the benchmark client
  (src/node/src/benchmark_client.rs) and the two cluster tests
  (src/aptos_executor/src/bin/integration_test.rs and three_trader_integration_test.rs).
  A command line is what clap hands to the program: the texts of the arguments it declares.
  The terminal output and the logger's format are not modelled.
\<close>

section \<open>Numbers on the command line\<close>

datatype parse_int_error = EmptyNumber | InvalidDigit | PosOverflow

text \<open>
  \<^verbatim>\<open>str::parse\<close> at an unsigned type with the given number of bits: an optional plus
  sign and decimal digits, refused when the value does not fit.
\<close>

definition digit_value :: "char \<Rightarrow> nat option" where
  "digit_value c = (let n = of_char c in if 48 \<le> n \<and> n \<le> (57 :: nat) then Some (n - 48) else None)"

fun parse_digits :: "nat \<Rightarrow> string \<Rightarrow> nat \<Rightarrow> (parse_int_error, nat) res" where
  "parse_digits bits [] value = Ok value"
| "parse_digits bits (c # cs) value =
     (case digit_value c of
        None \<Rightarrow> Err InvalidDigit
      | Some d \<Rightarrow> if value * 10 + d < 2 ^ bits then parse_digits bits cs (value * 10 + d) else Err PosOverflow)"

definition parse_uint :: "nat \<Rightarrow> string \<Rightarrow> (parse_int_error, nat) res" where
  "parse_uint bits s =
     (case s of
        [] \<Rightarrow> Err EmptyNumber
      | c # cs \<Rightarrow> if c = CHR ''+'' then (if cs = [] then Err InvalidDigit else parse_digits bits cs 0)
                  else parse_digits bits s 0)"

section \<open>The node binary\<close>

definition default_log_level :: "nat \<Rightarrow> string" where
  "default_log_level occurrences =
     (case occurrences of
        0 \<Rightarrow> ''error''
      | Suc 0 \<Rightarrow> ''warn''
      | Suc (Suc 0) \<Rightarrow> ''info''
      | Suc (Suc (Suc 0)) \<Rightarrow> ''debug''
      | _ \<Rightarrow> ''trace'')"

datatype run_role = RunPrimary | RunWorker string

record run_args =
  ra_edkeys :: string
  ra_blskeys :: string
  ra_committee :: string
  ra_parameters :: "string option"
  ra_role :: run_role

datatype node_command =
  GenerateKeys string
| GenerateBlsKeys string string string
| RunNode run_args

text \<open>What the outside gives: the readers of the files, randomness, the file system's permissions.\<close>

record ('pk, 'blsk) node_world =
  nw_pair :: "u8 list \<Rightarrow> (string, key_pair) res"
  nw_bls :: "u8 list \<Rightarrow> (string, 'blsk) res"
  nw_comm :: "u8 list \<Rightarrow> (string, (public_key \<times> 'pk authority) list) res"
  nw_params :: "u8 list \<Rightarrow> (string, parameters) res"
  nw_ser_pair :: "key_pair \<Rightarrow> u8 list"
  nw_store_opens :: bool
  nw_writable :: "string \<Rightarrow> bool"
  nw_keypair :: "u8 list \<times> u8 list"
  nw_node_info :: "usize \<Rightarrow> nat \<Rightarrow> u8 list"

text \<open>How \<^verbatim>\<open>main\<close> ends: with files written, or with the tasks of a primary started.\<close>

datatype ('pk, 'blsk) node_outcome = Written file_system | Started "('pk, 'blsk) node_setup"

definition unwrap_parsed :: "('e, 'a) res \<Rightarrow> ('f, 'a) res" where
  "unwrap_parsed r = (case r of Ok a \<Rightarrow> Ok a | Diverge \<Rightarrow> Diverge | Err _ \<Rightarrow> Panic ''called Result::unwrap() on an Err value'' | Panic m \<Rightarrow> Panic m)"

definition node_main ::
  "('pk::{linorder, ab_group_add}, 'blsk) node_world \<Rightarrow> file_system \<Rightarrow> node_command \<Rightarrow> (start_error, ('pk, 'blsk) node_outcome) res" where
  "node_main W fs command =
     (case command of
        GenerateKeys filename \<Rightarrow>
          (case export_file (nw_ser_pair W) (nw_writable W) fs filename (key_pair_new (nw_keypair W)) of
             (r, fs') \<Rightarrow> bind_r (map_err ConfigProblem r) (\<lambda>_. Ok (Written fs')))
      | GenerateBlsKeys nodes threshold path \<Rightarrow>
          bind_r (unwrap_parsed (parse_uint 64 nodes)) (\<lambda>nodes.
          bind_r (unwrap_parsed (parse_uint 64 threshold)) (\<lambda>threshold.
            Ok (Written (create_bls_key_pairs (nw_node_info W threshold) nodes path fs))))
      | RunNode args \<Rightarrow>
          bind_r (node_run (nw_pair W) (nw_bls W) (nw_comm W) (nw_params W) (nw_store_opens W) fs
                    (ra_edkeys args) (ra_blskeys args) (ra_committee args) (ra_parameters args)) (\<lambda>setup.
            case ra_role args of
              RunPrimary \<Rightarrow> Ok (Started setup)
            | RunWorker _ \<Rightarrow> Panic ''internal error: entered unreachable code''))"

text \<open>
  After the tasks are started, \<^verbatim>\<open>analyze\<close> takes blocks from the consensus' output
  until the channel closes; a node that gets there ends in \<^verbatim>\<open>unreachable!()\<close>. \<open>None\<close> in
  the list is the closed channel; the result \<open>None\<close> is a node still running.
\<close>

fun analyze :: "'b option list \<Rightarrow> ('e, unit) res option" where
  "analyze [] = None"
| "analyze (Some _ # rx_output) = analyze rx_output"
| "analyze (None # rx_output) = Some (Panic ''internal error: entered unreachable code'')"

section \<open>The benchmark client\<close>

record client_args =
  ca_addr :: string
  ca_size :: string
  ca_burst :: string
  ca_rate :: string
  ca_nodes :: "string list"

record client_config =
  cc_target :: socket_addr
  cc_size :: usize
  cc_burst_duration :: u64
  cc_rate :: u64
  cc_nodes :: "socket_addr list"

fun parse_addresses :: "(string \<Rightarrow> socket_addr option) \<Rightarrow> string list \<Rightarrow> (builder_error, socket_addr list) res" where
  "parse_addresses parse [] = Ok []"
| "parse_addresses parse (x # xs) =
     (case parse x of
        None \<Rightarrow> Err (Failed ''Invalid socket address format'')
      | Some a \<Rightarrow> bind_r (parse_addresses parse xs) (\<lambda>as. Ok (a # as)))"

text \<open>\<open>parse\<close> is the parser of socket addresses.\<close>

definition client_config_of :: "(string \<Rightarrow> socket_addr option) \<Rightarrow> client_args \<Rightarrow> (builder_error, client_config) res" where
  "client_config_of parse args =
     (case parse (ca_addr args) of
        None \<Rightarrow> Err (Failed ''Invalid socket address format'')
      | Some target \<Rightarrow>
          bind_r (map_err (\<lambda>_. Failed ''The size of transactions must be a non-negative integer'') (parse_uint 64 (ca_size args))) (\<lambda>size.
          bind_r (map_err (\<lambda>_. Failed ''Burst duration must be a non-negative integer'') (parse_uint 64 (ca_burst args))) (\<lambda>burst.
          bind_r (map_err (\<lambda>_. Failed ''The rate of transactions must be a non-negative integer'') (parse_uint 64 (ca_rate args))) (\<lambda>rate.
          bind_r (parse_addresses parse (ca_nodes args)) (\<lambda>nodes.
            Ok \<lparr>cc_target = target, cc_size = size, cc_burst_duration = burst, cc_rate = rate, cc_nodes = nodes\<rparr>)))))"

text \<open>
  \<^verbatim>\<open>wait\<close>: one task per node dials until it is answered; \<open>dials\<close> is what the attempts
  meet. The result is how many attempts each node took, \<open>None\<close> while a node is not answering.
\<close>

fun dial_until_online :: "bool list \<Rightarrow> nat option" where
  "dial_until_online [] = None"
| "dial_until_online (online # dials) = (if online then Some 1 else map_option Suc (dial_until_online dials))"

fun client_wait :: "(socket_addr \<Rightarrow> bool list) \<Rightarrow> socket_addr list \<Rightarrow> nat list option" where
  "client_wait dials [] = Some []"
| "client_wait dials (address # nodes) =
     (case dial_until_online (dials address) of
        None \<Rightarrow> None
      | Some n \<Rightarrow> map_option (\<lambda>ns. n # ns) (client_wait dials nodes))"

text \<open>
  \<^verbatim>\<open>main\<close>. \<open>None\<close> is a client that still waits for the nodes. The sample transaction only
  serves to log its size; it is built from its own copy of the sender.
\<close>

definition client_main ::
  "('addr, 'sk, 'p, 'chain, 'sig) sdk \<Rightarrow> (('addr, 'p, 'chain, 'sig) signed_transaction \<Rightarrow> u8 list option) \<Rightarrow>
   (string \<Rightarrow> socket_addr option) \<Rightarrow> 'chain \<Rightarrow> u64 option \<Rightarrow> (socket_addr \<Rightarrow> bool list) \<Rightarrow> (socket_addr \<Rightarrow> bool) \<Rightarrow>
   (u64 option \<times> bool) list list \<Rightarrow> client_args \<Rightarrow> (builder_error, ('addr, 'sk) client) res option" where
  "client_main S bcs parse chain_id now dials connects ticks args =
     (case
        bind_r (client_config_of parse args) (\<lambda>config.
        bind_r (account_generate S 2) (\<lambda>recipient.
        bind_r (account_generate S 1) (\<lambda>sample_sender.
        bind_r (fst (apt_transfer S now (la_address recipient) 1 chain_id sample_sender)) (\<lambda>sample_tx.
        bind_r (case bcs sample_tx of None \<Rightarrow> Err NotEncoded | Some bytes \<Rightarrow> Ok (length bytes)) (\<lambda>_.
        bind_r (account_generate S 1) (\<lambda>sender. Ok (config, recipient, sender)))))))
      of
        Ok (config, recipient, sender) \<Rightarrow>
          (case client_wait dials (cc_nodes config) of
             None \<Rightarrow> None
           | Some _ \<Rightarrow>
               (case client_send S bcs (la_address recipient) 1 chain_id (cc_rate config) (connects (cc_target config)) ticks
                       \<lparr>cl_sender = sender, cl_counter = 0, cl_sent = []\<rparr> of
                  (r, c) \<Rightarrow> Some (bind_r (map_err (\<lambda>_. Failed ''Failed to submit transactions'') r) (\<lambda>_. Ok c))))
      | Err e \<Rightarrow> Some (Err e)
      | Panic m \<Rightarrow> Some (Panic m)
      | Diverge \<Rightarrow> Some Diverge)"

section \<open>The cluster tests\<close>

text \<open>\<^verbatim>\<open>?\<close> on a call that may still be running.\<close>

definition bind_o :: "('e, 'a) res option \<Rightarrow> ('a \<Rightarrow> ('e, 'b) res option) \<Rightarrow> ('e, 'b) res option" where
  "bind_o r f =
     (case r of
        None \<Rightarrow> None
      | Some (Ok a) \<Rightarrow> f a
      | Some (Err e) \<Rightarrow> Some (Err e)
      | Some (Panic m) \<Rightarrow> Some (Panic m)
      | Some Diverge \<Rightarrow> Some Diverge)"

text \<open>
  The nested loops of both tests: every transaction goes to every worker before the next one.
  \<open>dials i address\<close> is what the attempts to send transaction \<open>i\<close> to a worker meet, \<open>failure\<close>
  the text that \<^verbatim>\<open>with_context\<close> adds.
\<close>

fun submit_to ::
  "('tx \<Rightarrow> u8 list option) \<Rightarrow> (socket_addr \<Rightarrow> dial list) \<Rightarrow> (socket_addr \<Rightarrow> string) \<Rightarrow> 'tx \<Rightarrow> socket_addr list \<Rightarrow>
   (builder_error, unit) res option" where
  "submit_to bcs dials failure txn [] = Some (Ok ())"
| "submit_to bcs dials failure txn (address # addresses) =
     bind_o (map_option (map_err (\<lambda>_. Failed (failure address))) (submit_transaction bcs (dials address) txn))
       (\<lambda>_. submit_to bcs dials failure txn addresses)"

fun submit_sequence ::
  "('tx \<Rightarrow> u8 list option) \<Rightarrow> (nat \<Rightarrow> socket_addr \<Rightarrow> dial list) \<Rightarrow> (nat \<Rightarrow> 'tx \<Rightarrow> socket_addr \<Rightarrow> string) \<Rightarrow> nat \<Rightarrow> 'tx list \<Rightarrow>
   socket_addr list \<Rightarrow> (builder_error, unit) res option" where
  "submit_sequence bcs dials failure i [] addresses = Some (Ok ())"
| "submit_sequence bcs dials failure i (txn # txns) addresses =
     bind_o (submit_to bcs (dials i) (failure i txn) txn addresses)
       (\<lambda>_. submit_sequence bcs dials failure (Suc i) txns addresses)"

text \<open>The committee file, read through \<^verbatim>\<open>Comm::import\<close>.\<close>

definition import_worker_addresses ::
  "(u8 list \<Rightarrow> (string, (public_key \<times> 'pk authority) list) res) \<Rightarrow> file_system \<Rightarrow> string \<Rightarrow> (builder_error, socket_addr list) res" where
  "import_worker_addresses de_comm fs path =
     bind_r (map_err (\<lambda>_. Failed (''failed to import committee from '' @ path)) (import_file de_comm fs path))
       (\<lambda>auths. Ok (load_worker_addresses auths))"

definition integration_test ::
  "('addr, 'sk, 'p, 'chain, 'sig) sdk \<Rightarrow> (('addr, 'p, 'chain, 'sig) signed_transaction \<Rightarrow> u8 list option) \<Rightarrow> (nat \<Rightarrow> u64 option) \<Rightarrow>
   'chain \<Rightarrow> files \<Rightarrow> (u8 list \<Rightarrow> (string, (public_key \<times> 'pk authority) list) res) \<Rightarrow> file_system \<Rightarrow> (socket_addr \<Rightarrow> string) \<Rightarrow>
   (nat \<Rightarrow> socket_addr \<Rightarrow> dial list) \<Rightarrow> (string \<Rightarrow> (nat \<times> log_poll) list) \<Rightarrow> (builder_error, unit) res option" where
  "integration_test S bcs clock chain_id F de_comm fs show_addr dials polls =
     (let local_dir = resolve_local_dir F;
          committee_path = path_join local_dir ''config/committee.json'';
          log_path = resolve_log_path F local_dir in
      bind_o (Some (import_worker_addresses de_comm fs committee_path)) (\<lambda>worker_addresses.
        if worker_addresses = [] then Some (Err (Failed ''no worker transaction addresses found in committee file''))
        else
          bind_o (Some (build_transfer_sequence S clock chain_id)) (\<lambda>transactions.
          bind_o (submit_sequence bcs dials
              (\<lambda>i _ address. ''failed to submit txn '' @ show_nat (i + 1) @ '' to '' @ show_addr address) 0 transactions worker_addresses) (\<lambda>_.
            wait_for_execution_logs 40 3 (polls log_path) 0 0))))"

definition three_trader_integration_test ::
  "('addr, 'sk, 'p, 'chain, 'sig) sdk \<Rightarrow> (('addr, 'p, 'chain, 'sig) signed_transaction \<Rightarrow> u8 list option) \<Rightarrow> (nat \<Rightarrow> u64 option) \<Rightarrow>
   'chain \<Rightarrow> files \<Rightarrow> (u8 list \<Rightarrow> (string, (public_key \<times> 'pk authority) list) res) \<Rightarrow> file_system \<Rightarrow> (socket_addr \<Rightarrow> string) \<Rightarrow>
   (nat \<Rightarrow> socket_addr \<Rightarrow> dial list) \<Rightarrow> (string \<Rightarrow> (nat \<times> log_poll) list) \<Rightarrow> (builder_error, unit) res option" where
  "three_trader_integration_test S bcs clock chain_id F de_comm fs show_addr dials polls =
     (let local_dir = resolve_local_dir F;
          committee_path = path_join local_dir ''config/committee.json'';
          log_path = resolve_log_path F local_dir in
      bind_o (Some (resolve_package_dir F)) (\<lambda>package_dir.
      bind_o (Some (import_worker_addresses de_comm fs committee_path)) (\<lambda>worker_addresses.
        if worker_addresses = [] then Some (Err (Failed ''no worker transaction addresses found in committee file''))
        else
          bind_o (Some (build_three_trader_transactions S F clock package_dir chain_id)) (\<lambda>scenario.
          bind_o (submit_sequence (\<lambda>x. bcs (sc_txn x)) dials
              (\<lambda>i x address. ''failed to submit step '' @ show_nat (i + 1) @ '' ('' @ sc_label x @ '') to '' @ show_addr address)
              0 scenario worker_addresses) (\<lambda>_.
            wait_for_execution_logs 60 expected_scenario_txns (polls log_path) 0 0)))))"

section \<open>Lemmas\<close>

lemma digit_value_digit [simp]: "d < 10 \<Longrightarrow> digit_value (char_of (48 + d :: nat)) = Some d"
  by (simp add: digit_value_def Let_def)

lemma parse_digits_append:
  "parse_digits bits (xs @ ys) v = bind_r (parse_digits bits xs v) (parse_digits bits ys)"
  by (induction xs arbitrary: v) (auto split: option.split)

declare show_nat.simps [simp del]

lemma parse_digits_show: "n < 2 ^ bits \<Longrightarrow> parse_digits bits (show_nat n) 0 = Ok n"
proof (induction n rule: show_nat.induct)
  case (1 n)
  show ?case
  proof (cases "n < 10")
    case True
    with 1 show ?thesis by (simp add: show_nat.simps [of n])
  next
    case False
    have "n div 10 < 2 ^ bits" using 1 by (meson div_le_dividend le_less_trans)
    then have "parse_digits bits (show_nat (n div 10)) 0 = Ok (n div 10)" using 1 False by simp
    with 1 False show ?thesis by (simp add: show_nat.simps [of n] parse_digits_append)
  qed
qed

lemma show_nat_digits: "c \<in> set (show_nat n) \<Longrightarrow> \<exists>d < 10. c = char_of (48 + d :: nat)"
proof (induction n rule: show_nat.induct)
  case (1 n)
  show ?case
  proof (cases "n < 10")
    case True
    with 1 show ?thesis by (auto simp: show_nat.simps [of n])
  next
    case False
    with 1 have "c \<in> set (show_nat (n div 10)) \<or> c = char_of (48 + n mod 10)" by (auto simp: show_nat.simps [of n])
    moreover have "n mod 10 < 10" by simp
    ultimately show ?thesis using 1 False by blast
  qed
qed

lemma show_nat_ne: "show_nat n \<noteq> []"
  by (subst show_nat.simps) simp

text \<open>A number that is printed and passed on the command line is read back.\<close>

lemma parse_show:
  assumes "n < 2 ^ bits"
  shows "parse_uint bits (show_nat n) = Ok n"
proof -
  obtain c cs where s: "show_nat n = c # cs" using show_nat_ne by (cases "show_nat n") auto
  then obtain d where "d < 10" "c = char_of (48 + d :: nat)" using show_nat_digits [of c n] by auto
  then have "digit_value c = Some d" by simp
  moreover have "digit_value CHR ''+'' = None" by (simp add: digit_value_def)
  ultimately have "c \<noteq> CHR ''+''" by auto
  with s parse_digits_show [OF assms] show ?thesis by (simp add: parse_uint_def)
qed

lemma parse_digits_bound: "v < 2 ^ bits \<Longrightarrow> parse_digits bits s v = Ok n \<Longrightarrow> n < 2 ^ bits"
  by (induction s arbitrary: v) (auto split: option.splits if_splits)

lemma parse_uint_bound: "parse_uint bits s = Ok n \<Longrightarrow> n < 2 ^ bits"
  using parse_digits_bound [of 0 bits]
  by (auto simp: parse_uint_def simp del: parse_digits.simps split: list.splits if_splits)

text \<open>The command line offers the role of a worker; every start in that role that gets past the files panics.\<close>

lemma run_worker_panics:
  assumes "node_run (nw_pair W) (nw_bls W) (nw_comm W) (nw_params W) (nw_store_opens W) fs
      (ra_edkeys args) (ra_blskeys args) (ra_committee args) (ra_parameters args) = Ok setup"
    and "ra_role args = RunWorker i"
  shows "node_main W fs (RunNode args) = Panic ''internal error: entered unreachable code''"
  using assms by (simp add: node_main_def)

text \<open>A primary started from a key file written by \<^verbatim>\<open>generate_keys\<close> runs under the generated name.\<close>

lemma generated_keys_start_node:
  assumes "base64_laws B" "json_laws J" "nw_ser_pair W = key_pair_serialize B J" "nw_pair W = key_pair_deserialize B J"
    and "key_pair_ok (key_pair_new (nw_keypair W))" "fs filename = None"
    and "node_main W fs (GenerateKeys filename) = Ok (Written fs')"
    and "ra_edkeys args = filename" "node_main W fs' (RunNode args) = Ok (Started setup)"
  shows "ns_name setup = kp_name (key_pair_new (nw_keypair W)) \<and> ns_secret setup = kp_secret (key_pair_new (nw_keypair W))"
proof -
  let ?kp = "key_pair_new (nw_keypair W)"
  have "fs' = fs(filename \<mapsto> overwrite (key_pair_serialize B J ?kp @ [10]) None)"
    using assms(3,6,7) by (auto simp: node_main_def export_file_def map_err_def split: if_splits)
  then have "import_file (nw_pair W) fs' filename = Ok ?kp"
    using key_pair_de_ser [OF assms(1,2,5)] assms(4) by (simp add: import_file_def overwrite_def map_err_def)
  moreover have "node_run (nw_pair W) (nw_bls W) (nw_comm W) (nw_params W) (nw_store_opens W) fs'
      filename (ra_blskeys args) (ra_committee args) (ra_parameters args) = Ok setup"
    using assms(8,9) by (cases "ra_role args") (auto simp: node_main_def bind_r_Ok_iff)
  ultimately show ?thesis
    by (auto simp: node_run_def bind_r_Ok_iff)
qed

text \<open>The client starts sending exactly when every node has answered.\<close>

lemma dial_until_online_iff: "dial_until_online ds \<noteq> None \<longleftrightarrow> True \<in> set ds"
  by (induction ds) auto

lemma client_wait_iff: "client_wait dials nodes \<noteq> None \<longleftrightarrow> (\<forall>address \<in> set nodes. True \<in> set (dials address))"
proof (induction nodes)
  case (Cons address nodes)
  then show ?case using dial_until_online_iff [of "dials address"] by (auto split: option.split)
qed simp

text \<open>The requested size of a transaction has no influence on what is sent.\<close>

lemma client_size_ignored:
  assumes "parse_uint 64 (ca_size args) = Ok m" "parse_uint 64 sz = Ok n"
  shows "client_main S bcs parse chain_id now dials connects ticks (args\<lparr>ca_size := sz\<rparr>) =
    client_main S bcs parse chain_id now dials connects ticks args"
  unfolding client_main_def client_config_of_def using assms
  by (auto simp: map_err_def bind_r_def split: option.splits res.splits)

lemma bind_o_Ok_iff: "bind_o r f = Some (Ok b) \<longleftrightarrow> (\<exists>a. r = Some (Ok a) \<and> f a = Some (Ok b))"
  by (auto simp: bind_o_def split: option.splits res.splits)

lemma submit_to_Ok:
  "submit_to bcs dials failure txn addresses = Some (Ok ()) \<longleftrightarrow>
   (\<forall>address \<in> set addresses. submit_transaction bcs (dials address) txn = Some (Ok ()))"
  by (induction addresses) (auto simp: bind_o_Ok_iff)

lemma submit_sequence_Ok:
  "submit_sequence bcs dials failure i txns addresses = Some (Ok ()) \<longleftrightarrow>
   (\<forall>j < length txns. \<forall>address \<in> set addresses. submit_transaction bcs (dials (i + j) address) (txns ! j) = Some (Ok ()))"
proof (induction txns arbitrary: i)
  case (Cons txn txns)
  have "(\<forall>j < length (txn # txns). P j) \<longleftrightarrow> P 0 \<and> (\<forall>j < length txns. P (Suc j))" for P
    by (auto simp: less_Suc_eq_0_disj)
  then show ?case by (simp add: Cons bind_o_Ok_iff submit_to_Ok)
qed simp

text \<open>
  A passing transfer test has sent each of its three transactions to every worker of the
  committee file, of which there is at least one, and has seen the log report as many
  executions in time.
\<close>

lemma integration_test_passes:
  assumes "integration_test S bcs clock chain_id F de_comm fs show_addr dials polls = Some (Ok ())"
  obtains addresses txns where
    "import_worker_addresses de_comm fs (path_join (resolve_local_dir F) ''config/committee.json'') = Ok addresses"
    "addresses \<noteq> []" "build_transfer_sequence S clock chain_id = Ok txns" "length txns = 3"
    "\<And>i address. i < 3 \<Longrightarrow> address \<in> set addresses \<Longrightarrow> submit_transaction bcs (dials i address) (txns ! i) = Some (Ok ())"
    "wait_for_execution_logs 40 3 (polls (resolve_log_path F (resolve_local_dir F))) 0 0 = Some (Ok ())"
proof -
  obtain addresses txns where 1:
    "import_worker_addresses de_comm fs (path_join (resolve_local_dir F) ''config/committee.json'') = Ok addresses"
    "addresses \<noteq> []" "build_transfer_sequence S clock chain_id = Ok txns"
    "\<forall>j < length txns. \<forall>address \<in> set addresses. submit_transaction bcs (dials j address) (txns ! j) = Some (Ok ())"
    "wait_for_execution_logs 40 3 (polls (resolve_log_path F (resolve_local_dir F))) 0 0 = Some (Ok ())"
    using assms unfolding integration_test_def Let_def
    by (auto simp: bind_o_Ok_iff submit_sequence_Ok split: if_splits)
  have "length txns = 3" using 1(3) by (auto simp: build_transfer_sequence_def bind_r_Ok_iff)
  with 1 that show thesis by auto
qed

text \<open>
  A client that ends has written the encodings of transfers with the sequence numbers 0, 1, 2,
  and so on, of the account with seed 1, after every listed node had answered.
\<close>

lemma client_main_sends:
  assumes "client_main S bcs parse chain_id now dials connects ticks args = Some (Ok c)"
  obtains config sender txns where "client_config_of parse args = Ok config"
    "\<forall>address \<in> set (cc_nodes config). True \<in> set (dials address)" "account_generate S 1 = Ok sender"
    "map Some (cl_sent c) = map bcs txns" "map numbered txns = map (\<lambda>i. (la_address sender, add64 0 i, chain_id)) [0..<length txns]"
proof -
  let ?start = "\<lambda>sender. \<lparr>cl_sender = sender, cl_counter = 0, cl_sent = []\<rparr>"
  obtain config addr sender r where *: "client_config_of parse args = Ok config"
    "account_generate S 1 = Ok sender" "client_wait dials (cc_nodes config) \<noteq> None"
    "client_send S bcs addr 1 chain_id (cc_rate config) (connects (cc_target config)) ticks (?start sender) = (r, c)"
    using assms unfolding client_main_def
    by (auto simp: bind_r_Ok_iff split: res.splits option.splits prod.splits)
  have "la_sequence_number sender = 0"
    using *(2) by (auto simp: account_generate_def from_private_key_def Let_def split: option.splits)
  with client_sends_in_sequence [OF *(4)] *(1-3) client_wait_iff [of dials "cc_nodes config"] that
  show thesis by auto
qed

end
