(* ===== verification/Texts.thy ===== *)
theory Texts
  imports Messages Keys
begin

text \<open>
  The texts under which values appear in the logs: \<^verbatim>\<open>Display\<close> and \<^verbatim>\<open>Debug\<close>
  of digests and keys (src/crypto/src/lib.rs), of the messages of the consensus
  (src/hydrangea/src/messages.rs) and of the mempool (src/primary/src/messages.rs), the
  parameters written to the log at the start (src/config/src/lib.rs), and the serde form of
  keys. A text is a result because the displayed prefix of a digest is unwrapped.
\<close>

section \<open>Formatting\<close>

declare show_nat.simps [simp del]

text \<open>\<^verbatim>\<open>write!\<close> with its pieces in order.\<close>

fun fmt :: "('e, string) res list \<Rightarrow> ('e, string) res" where
  "fmt [] = Ok []"
| "fmt (p # ps) = bind_r p (\<lambda>s. bind_r (fmt ps) (\<lambda>t. Ok (s @ t)))"

text \<open>\<^verbatim>\<open>get(0..16).unwrap()\<close> on a string of ASCII characters.\<close>

definition get16 :: "string \<Rightarrow> ('e, string) res" where
  "get16 s = (if 16 \<le> length s then Ok (take 16 s) else Panic ''called Option::unwrap() on a None value'')"

definition digest_debug :: "base64 \<Rightarrow> digest \<Rightarrow> string" where
  "digest_debug B d = b64_encode B (digest_bytes d)"

definition digest_display :: "base64 \<Rightarrow> digest \<Rightarrow> ('e, string) res" where
  "digest_display B d = get16 (b64_encode B (digest_bytes d))"

definition public_key_debug :: "base64 \<Rightarrow> public_key \<Rightarrow> string" where
  "public_key_debug B pk = public_key_encode B pk"

definition public_key_display :: "base64 \<Rightarrow> public_key \<Rightarrow> ('e, string) res" where
  "public_key_display B pk = get16 (public_key_encode B pk)"

section \<open>Consensus messages\<close>

definition block_debug :: "base64 \<Rightarrow> ('pk, 's) runtime \<Rightarrow> 's block \<Rightarrow> ('e, string) res" where
  "block_debug B E b = fmt
     [digest_display B (block_digest E b), Ok '': CMB(author '', public_key_display B (b_author b), Ok '', parent '',
      digest_display B (b_parent b), Ok '', round '', Ok (show_nat (b_round b)), Ok '', payload_len '',
      Ok (show_nat (length (b_payload b))), Ok '')'']"

definition block_display :: "'s block \<Rightarrow> string" where
  "block_display b = ''CMB'' @ show_nat (b_round b)"

definition proposal_type_display :: "proposal_type \<Rightarrow> string" where
  "proposal_type_display t = (case t of FallbackProposal \<Rightarrow> ''Fallback'' | NormalProposalType \<Rightarrow> ''Normal'')"

definition vote_type_display :: "vote_type \<Rightarrow> string" where
  "vote_type_display t = (case t of Commit \<Rightarrow> ''C'' | Normal \<Rightarrow> ''NV'')"

definition vote_debug :: "base64 \<Rightarrow> 's vote \<Rightarrow> ('e, string) res" where
  "vote_debug B v = fmt
     [Ok ''V('', Ok (vote_type_display (v_kind v)), Ok '', '', public_key_display B (v_author v), Ok '', '',
      Ok (show_nat (v_round v)), Ok '', '', digest_display B (v_blk_hash v), Ok '')'']"

definition qc_display :: "base64 \<Rightarrow> 's qc \<Rightarrow> ('e, string) res" where
  "qc_display B q = fmt [Ok ''QC('', digest_display B (qc_blk_hash q), Ok '', '', Ok (show_nat (qc_round q)), Ok '')'']"

definition qc_debug :: "base64 \<Rightarrow> 's qc \<Rightarrow> ('e, string) res" where
  "qc_debug B q =
     (case qc_kind q of
        Commit \<Rightarrow> fmt [Ok ''CommitQC('', digest_display B (qc_blk_hash q), Ok '', '', Ok (show_nat (qc_round q)), Ok '')'']
      | _ \<Rightarrow> fmt [Ok ''NQC('', Ok (vote_type_display (qc_kind q)), Ok '', '', digest_display B (qc_blk_hash q), Ok '', '',
                   Ok (show_nat (qc_round q)), Ok '')''])"

definition wqc_display :: "base64 \<Rightarrow> 's wqc \<Rightarrow> ('e, string) res" where
  "wqc_display B q = fmt [Ok ''WQC('', digest_display B (wqc_blk_hash q), Ok '', '', Ok (show_nat (wqc_round q)), Ok '')'']"

definition wqc_debug :: "base64 \<Rightarrow> 's wqc \<Rightarrow> ('e, string) res" where
  "wqc_debug B q = fmt [Ok ''WQC('', digest_display B (wqc_blk_hash q), Ok '', '', Ok (show_nat (wqc_round q)), Ok '')'']"

definition timeout_debug :: "base64 \<Rightarrow> 's timeout \<Rightarrow> ('e, string) res" where
  "timeout_debug B t = fmt
     [Ok ''TV('', public_key_display B (t_author t), Ok '', '', Ok (show_nat (t_round t)), Ok '', '',
      qc_debug B (t_high_qc t), Ok '')'']"

text \<open>The derived \<^verbatim>\<open>Debug\<close> of a vector of numbers.\<close>

fun debug_rest :: "nat list \<Rightarrow> string" where
  "debug_rest [] = '']''"
| "debug_rest (x # xs) = '', '' @ show_nat x @ debug_rest xs"

definition debug_list :: "nat list \<Rightarrow> string" where
  "debug_list xs = (case xs of [] \<Rightarrow> ''[]'' | x # xs \<Rightarrow> ''['' @ show_nat x @ debug_rest xs)"

definition tc_debug :: "base64 \<Rightarrow> 's tc \<Rightarrow> ('e, string) res" where
  "tc_debug B t = fmt
     [Ok ''TC('', Ok (show_nat (tc_round t)), Ok '', '', qc_debug B (tc_high_qc t), Ok '', '',
      Ok (debug_list (locked_rounds t)), Ok '')'']"

definition np_debug :: "base64 \<Rightarrow> ('pk, 's) runtime \<Rightarrow> 's normal_proposal \<Rightarrow> ('e, string) res" where
  "np_debug B E p = fmt
     [Ok ''NormalProposal '', digest_display B (np_digest E p), Ok '': Block '', block_debug B E (np_block p), Ok '', '',
      qc_debug B (np_qc p), Ok '')'']"

definition np_display :: "'s normal_proposal \<Rightarrow> string" where
  "np_display p = ''NormalProposal B'' @ show_nat (b_round (np_block p))"

definition fp_debug :: "base64 \<Rightarrow> ('pk, 's) runtime \<Rightarrow> 's fallback_recovery_proposal \<Rightarrow> ('e, string) res" where
  "fp_debug B E p = fmt
     [Ok ''FallbackRecoveryProposal '', digest_display B (fp_digest E p), Ok '': '', block_debug B E (fp_block p), Ok '', '',
      tc_debug B (fp_tc p)]"

definition fp_display :: "'s fallback_recovery_proposal \<Rightarrow> string" where
  "fp_display p = ''FallbackRecoveryProposal B'' @ show_nat (b_round (fp_block p))"

section \<open>Mempool messages\<close>

definition header_debug :: "base64 \<Rightarrow> 'tx header \<Rightarrow> ('e, string) res" where
  "header_debug B h = fmt
     [digest_display B (h_id h), Ok '': B'', Ok (show_nat (h_round h)), Ok ''('', public_key_display B (h_author h), Ok '')'']"

definition header_display :: "base64 \<Rightarrow> 'tx header \<Rightarrow> ('e, string) res" where
  "header_display B h = fmt [Ok ''B'', Ok (show_nat (h_round h)), Ok ''('', public_key_display B (h_author h), Ok '')'']"

definition pvote_debug :: "base64 \<Rightarrow> ('pk, 's) runtime \<Rightarrow> 's pvote \<Rightarrow> ('e, string) res" where
  "pvote_debug B E v = fmt
     [digest_display B (pvote_digest E v), Ok '': V'', Ok (show_nat (pv_round v)), Ok ''('',
      public_key_display B (pv_author v), Ok '', '', digest_display B (pv_id v), Ok '')'']"

definition certificate_debug :: "base64 \<Rightarrow> ('pk, 's) runtime \<Rightarrow> 's certificate \<Rightarrow> ('e, string) res" where
  "certificate_debug B E c = fmt
     [digest_display B (certificate_digest E c), Ok '': C'', Ok (show_nat (cert_round c)), Ok ''('',
      public_key_display B (cert_origin c), Ok '', '', digest_display B (cert_id c), Ok '')'']"

section \<open>Parameters\<close>

definition leader_elector_debug :: "leader_elector_kind \<Rightarrow> string" where
  "leader_elector_debug k =
     (case k of FailureBestCase \<Rightarrow> ''FailureBestCase'' | FailureMidCase \<Rightarrow> ''FailureMidCase''
      | FailureWorstCase \<Rightarrow> ''FailureWorstCase'' | FairSuccession \<Rightarrow> ''FairSuccession'' | Simple \<Rightarrow> ''Simple'')"

definition parameters_log :: "'pk committee \<Rightarrow> parameters \<Rightarrow> string list" where
  "parameters_log C p =
     (if p_consensus_only p then [''Running consensus in isolation''] else []) @
     [''With '' @ show_nat (length (get_byzantine_ids C)) @ '' faulty nodes in the network'',
      ''Using '' @ leader_elector_debug (p_leader_elector p) @ '' leader elector'',
      ''Timeout delay set to '' @ show_nat (p_timeout_delay p) @ '' ms'',
      ''Header size set to '' @ show_nat (p_header_size p) @ '' B'',
      ''F value set to '' @ show_nat (p_f p),
      ''C value set to '' @ show_nat (p_c p),
      ''K value set to '' @ show_nat (p_k p),
      ''Max header delay set to '' @ show_nat (p_max_header_delay p) @ '' ms'',
      ''Garbage collection depth set to '' @ show_nat (p_gc_depth p) @ '' rounds'',
      ''Sync retry delay set to '' @ show_nat (p_sync_retry_delay p) @ '' ms'',
      ''Sync retry nodes set to '' @ show_nat (p_sync_retry_nodes p) @ '' nodes'',
      ''Batch size set to '' @ show_nat (p_batch_size p) @ '' B'',
      ''Block size set to '' @ show_nat (p_max_block_size p) @ '' Certificates'',
      ''Max batch delay set to '' @ show_nat (p_max_batch_delay p) @ '' ms'']"

section \<open>Serde form of keys\<close>

text \<open>
  A serializer is what it makes of a string, a deserializer what string it finds; its own
  errors are passed on, those of the decoder become custom errors.
\<close>

definition public_key_serialize :: "base64 \<Rightarrow> (string \<Rightarrow> 'a) \<Rightarrow> public_key \<Rightarrow> 'a" where
  "public_key_serialize B serialize_str pk = serialize_str (public_key_encode B pk)"

definition public_key_deserialize :: "base64 \<Rightarrow> ('a \<Rightarrow> (string, string) res) \<Rightarrow> 'a \<Rightarrow> (string, public_key) res" where
  "public_key_deserialize B string_deserialize x =
     bind_r (string_deserialize x) (\<lambda>s. map_err (\<lambda>_. ''Invalid base64'') (public_key_decode B s))"

definition secret_key_serialize :: "base64 \<Rightarrow> (string \<Rightarrow> 'a) \<Rightarrow> secret_key \<Rightarrow> 'a" where
  "secret_key_serialize B serialize_str sk = serialize_str (secret_key_encode B sk)"

definition secret_key_deserialize :: "base64 \<Rightarrow> ('a \<Rightarrow> (string, string) res) \<Rightarrow> 'a \<Rightarrow> (string, secret_key) res" where
  "secret_key_deserialize B string_deserialize x =
     bind_r (string_deserialize x) (\<lambda>s. map_err (\<lambda>_. ''Invalid base64'') (secret_key_decode B s))"

section \<open>Lemmas\<close>

text \<open>Base64 turns each group of three bytes, the last one padded, into four characters.\<close>

definition base64_length :: "base64 \<Rightarrow> bool" where
  "base64_length B \<longleftrightarrow> (\<forall>bytes. length (b64_encode B bytes) = 4 * ((length bytes + 2) div 3))"

lemma serde_round_trip:
  assumes "base64_laws B" "\<And>s. string_deserialize (serialize_str s) = Ok s"
  shows "length (key_bytes pk) = 32 \<Longrightarrow>
      public_key_deserialize B string_deserialize (public_key_serialize B serialize_str pk) = Ok pk"
    and "length (secret_bytes sk) = 64 \<Longrightarrow>
      secret_key_deserialize B string_deserialize (secret_key_serialize B serialize_str sk) = Ok sk"
  using decode_encode [OF assms(1)] assms(2)
  by (simp_all add: public_key_deserialize_def public_key_serialize_def secret_key_deserialize_def secret_key_serialize_def)

lemma digest_debug_inj: "base64_laws B \<Longrightarrow> digest_debug B d = digest_debug B d' \<Longrightarrow> d = d'"
  unfolding digest_debug_def base64_laws_def by (metis digest.expand option.inject)

definition printed :: "('e, string) res \<Rightarrow> bool" where
  "printed r \<longleftrightarrow> (\<exists>s. r = Ok s)"

lemma printed_Ok [simp]: "printed (Ok s)"
  by (simp add: printed_def)

lemma printed_fmt [simp]: "printed (fmt ps) \<longleftrightarrow> list_all printed ps"
  by (induction ps) (auto simp: printed_def bind_r_Ok_iff)

declare fmt.simps [simp del]

lemma display_length:
  assumes "base64_length B"
  shows "length (digest_bytes d) = 32 \<Longrightarrow> \<exists>s. digest_display B d = Ok s \<and> length s = 16"
    and "length (key_bytes pk) = 32 \<Longrightarrow> \<exists>s. public_key_display B pk = Ok s \<and> length s = 16"
  using assms by (simp_all add: digest_display_def public_key_display_def public_key_encode_def get16_def base64_length_def)

lemma display_printed:
  assumes "base64_length B"
  shows "length (digest_bytes d) = 32 \<Longrightarrow> printed (digest_display B d)"
    and "length (key_bytes pk) = 32 \<Longrightarrow> printed (public_key_display B pk)"
  using display_length [OF assms] unfolding printed_def by blast+

text \<open>
  Logging never panics on values of the code's types: digests and keys are 32 bytes long,
  those that are computed because the hash has 64 bytes. The sizes a message needs:
\<close>

definition block_sized :: "'s block \<Rightarrow> bool" where
  "block_sized b \<longleftrightarrow> length (digest_bytes (b_parent b)) = 32 \<and> length (key_bytes (b_author b)) = 32"

definition qc_sized :: "'s qc \<Rightarrow> bool" where
  "qc_sized q \<longleftrightarrow> length (digest_bytes (qc_blk_hash q)) = 32"

lemma digests_sized:
  assumes "\<And>x. length (sha512 E x) = 64"
  shows "length (digest_bytes (block_digest E b)) = 32" "length (digest_bytes (np_digest E np)) = 32"
    "length (digest_bytes (fp_digest E fp)) = 32" "length (digest_bytes (pvote_digest E v)) = 32"
    "length (digest_bytes (certificate_digest E c)) = 32"
  using assms
  by (simp_all add: block_digest_def np_digest_def fp_digest_def pvote_digest_def certificate_digest_def hash32_def)

lemma qc_texts_printed:
  assumes "base64_length B" "qc_sized q"
  shows "printed (qc_debug B q)" and "printed (qc_display B q)"
  using assms by (auto simp: qc_debug_def qc_display_def qc_sized_def display_printed split: vote_type.split)

lemma block_text_printed:
  assumes "base64_length B" "\<And>x. length (sha512 E x) = 64" "block_sized b"
  shows "printed (block_debug B E b)"
  using assms by (simp add: block_debug_def block_sized_def display_printed digests_sized)

lemma proposal_texts_printed:
  assumes "base64_length B" "\<And>x. length (sha512 E x) = 64"
  shows "block_sized (np_block np) \<Longrightarrow> qc_sized (np_qc np) \<Longrightarrow> printed (np_debug B E np)"
    and "block_sized (fp_block fp) \<Longrightarrow> qc_sized (tc_high_qc (fp_tc fp)) \<Longrightarrow> printed (fp_debug B E fp)"
  using assms by (simp_all add: np_debug_def fp_debug_def tc_debug_def block_text_printed qc_texts_printed display_printed digests_sized)

lemma mempool_texts_printed:
  assumes "base64_length B" "\<And>x. length (sha512 E x) = 64"
  shows "length (digest_bytes (h_id h)) = 32 \<Longrightarrow> length (key_bytes (h_author h)) = 32 \<Longrightarrow> printed (header_debug B h)"
    and "length (key_bytes (pv_author v)) = 32 \<Longrightarrow> length (digest_bytes (pv_id v)) = 32 \<Longrightarrow> printed (pvote_debug B E v)"
    and "length (key_bytes (cert_origin c)) = 32 \<Longrightarrow> length (digest_bytes (cert_id c)) = 32 \<Longrightarrow> printed (certificate_debug B E c)"
  using assms
  by (simp_all add: header_debug_def pvote_debug_def certificate_debug_def display_printed digests_sized)

text \<open>The sixteen characters shown are the first twelve bytes: digests that differ later look the same.\<close>

lemma display_is_prefix:
  assumes "b64_encode B (xs @ ys) = b64_encode B xs @ b64_encode B ys" "b64_encode B (xs @ zs) = b64_encode B xs @ b64_encode B zs"
    and "length (b64_encode B xs) = 16"
  shows "digest_display B (Digest (xs @ ys)) = digest_display B (Digest (xs @ zs))"
  using assms by (simp add: digest_display_def get16_def)

end
