(* ===== verification/Spec2Isabelle.thy ===== *)
theory Spec2Isabelle
  imports Core_Properties Node Network Committer Leader_Properties Component_Properties Weaknesses
    Mempool Worker_Node Client Keys Header_Waiter Receiver Programs Texts
begin

text \<open>
  Verification of the Hydrangea state machine replication node (a Rust workspace; all paths below
  are under src/).

  \<^bold>\<open>The program.\<close> A node runs a mempool and a consensus. Clients send transactions to the
  mempool (crate primary): a batch maker groups them, a proposer puts them into headers, and the mempool core
  has headers certified by votes of the other nodes. Certificates are the payload of the consensus
  (crate hydrangea), a leader-based protocol with an optimistic fast path: leaders propose blocks, replicas
  vote in two kinds of votes (normal and commit), votes are aggregated into quorum certificates (QC), timeouts into
  timeout certificates (TC), and a committed block commits its ancestors. Committed payloads go to
  the committer, which loads the headers from the store, removes duplicate transactions and executes
  them on an Aptos virtual machine (crate aptos_executor). The crates config, crypto, store and network carry
  the committee and its thresholds, keys and signatures, a key-value store with waiting readers, and reliable and
  best-effort senders. The crate worker is an older mempool kept in the workspace and not
  started by the node binary.

  \<^bold>\<open>How it is modelled.\<close> A struct is a record, an enum a datatype, a map a partial function,
  a \<^verbatim>\<open>BTreeMap\<close> that is iterated an association list in key order. \<^verbatim>\<open>u32\<close>,
  \<^verbatim>\<open>u64\<close> and \<^verbatim>\<open>usize\<close> are naturals with wrapping operations (\<open>add64\<close> and its
  like), bytes and 128-bit chunks are words. A fallible function returns \<open>res\<close>, with
  \<open>Ok\<close>, \<open>Err\<close>, \<open>Panic\<close> for every \<^verbatim>\<open>expect\<close>, \<^verbatim>\<open>unwrap\<close>, index or
  \<^verbatim>\<open>panic!\<close>, and \<open>Diverge\<close>; a method on \<^verbatim>\<open>&mut self\<close> is a handler
  that threads the state through every outcome. A task is one turn per event; messages, channel sends and
  signatures are recorded in a trace. A channel between tasks is the list of what has been sent and not
  received. Code outside the repository is a parameter: SHA-512, ed25519 and BLS (\<open>runtime\<close>),
  RocksDB (\<open>rocksdb\<close>), serialisation, the Aptos crates (\<open>aptos\<close>, \<open>sdk\<close>), base64, JSON and the file
  system; what the code relies on is a named hypothesis (for instance \<open>kv_laws\<close>, \<open>bls_additive\<close>,
  \<open>publishes\<close>), and each property with such a hypothesis has an instance.

  \<^bold>\<open>Theories.\<close>

  \<^item> \<open>Prelude\<close>: fixed-width integers, results and the handler monad, evolution relations (locale
  \<open>evolution\<close>). \<open>Tasks\<close>: contracts of background tasks (locales \<open>task\<close>, \<open>guarded_task\<close>,
  \<open>forwarding_task\<close>, \<open>forwarding_pipeline\<close>, \<open>simulation\<close>).

  \<^item> \<open>Crypto\<close>, \<open>Config\<close>, \<open>Keys\<close>, \<open>Store\<close>: crypto/src/lib.rs, config/src/lib.rs, store/src/lib.rs and
  the start-up of node/src/main.rs. Shown: the thresholds of a committee and their intersections (locale
  \<open>weighted_voters\<close>, interpreted on the committee), removing absent keys equals adding the signers', key files
  round trip, waiting readers are served.

  \<^item> \<open>Messages\<close>, \<open>Signers\<close>, \<open>Aggregator\<close>, \<open>Aggregator_Proofs\<close>: hydrangea/src/messages.rs, aggregator.rs,
  error.rs. Shown: produced certificates are well formed and carry the threshold of their kind.

  \<^item> \<open>Leader\<close>, \<open>Leader_Proofs\<close>, \<open>Leader_Wait\<close>, \<open>Leader_Properties\<close>: hydrangea/src/leader.rs. Shown:
  every round has a leader, the fair schedule is balanced and contains every ordered pair once, and its leaders
  lead again within \<open>3 n - 2\<close> rounds for every size \<open>n\<close>. \<open>Leader_Wait\<close> gives the leader of every round in closed
  form and concludes that the fairness test of the code passes for every size.

  \<^item> \<open>Proposer\<close>, \<open>Synchronizer\<close>: hydrangea/src/proposer.rs, synchronizer.rs. Shown: proposals are acceptable,
  payloads are proposed once and in order, suspended blocks resume.

  \<^item> \<open>Core\<close>: hydrangea/src/core.rs, mempool.rs, timer.rs, every handler and the event loop. \<open>Core_Steps\<close>
  lifts a relation on states from the primitive steps to the whole loop (locales \<open>core_vote_steps\<close>,
  \<open>core_steps\<close>, \<open>core_loop_steps\<close>); \<open>Core_Safety\<close> interprets it for progress, signing discipline, the committed
  chain, delivery and memory; \<open>Core_Termination\<close> shows that a turn returns; \<open>Core_Properties\<close> states the
  results.

  \<^item> \<open>Instance\<close>, \<open>Agreement\<close>: a concrete committee and its runs; two prepare certificates of a round agree, and
  a view change keeps what was committed, for any runs of the honest replicas with at most f Byzantine stake.

  \<^item> \<open>Consensus\<close>, \<open>Node\<close>: hydrangea/src/consensus.rs, helper.rs: the tasks of a consensus node joined by
  channels. Shown: under every interleaving the core of a node is a run of the event loop, and the application and the
  executor are given the committed chain in order.

  \<^item> \<open>Committer\<close>: hydrangea/src/committer.rs. \<open>Network\<close>, \<open>Receiver\<close>: network/src. Shown: a reliable connection
  refines an outbox, retransmits and loses nothing; a receiver serves its connections in order and in isolation.

  \<^item> \<open>Primary_Messages\<close>, \<open>Primary_Core\<close>, \<open>Primary_Proofs\<close>, \<open>Primary_Tasks\<close>, \<open>Primary_Properties\<close>,
  \<open>Mempool\<close>: primary/src. Shown: headers are certified once; under every schedule of the mempool's tasks
  no client transaction is lost or reordered and certificates are stored before they are handed on.

  \<^item> \<open>Header_Waiter\<close>: primary/src/synchronizer.rs and header_waiter.rs, which are not compiled into the crate, as
  two tasks over the store. Shown: a header handed back to the core has its complete payload in the store.

  \<^item> \<open>Worker\<close>, \<open>Worker_Properties\<close>, \<open>Worker_Node\<close>: worker/src, task by task and as a whole.

  \<^item> \<open>Executor\<close>, \<open>Transactions\<close>, \<open>Scenario\<close>, \<open>Client\<close>: aptos_executor/src and node/src/benchmark_client.rs: the
  in-memory state and block execution, accounts and transaction builders, the order-book
  demonstration, the programs that submit transactions, and the committer run on the executor.

  \<^item> \<open>Programs\<close>: the main functions of node/src/main.rs, node/src/benchmark_client.rs and the two tests in
  aptos_executor/src/bin, with the numbers and addresses of their command lines. \<open>Texts\<close>: display and debug
  texts of keys, digests, messages and parameters, and the serde form of keys; shown: logging does not panic on
  values of the code's sizes.

  \<^item> \<open>Component_Properties\<close>: properties across single components. \<open>Weaknesses\<close>: behaviours that comments or
  the role of the code would not suggest, such as panics on input from the network.

  \<^bold>\<open>Fuel and bounds.\<close> Two loops of the consensus core are bounded by fuel, the walk along ancestors
  (\<open>ce_loop_fuel\<close>) and the mutual recursion of the vote and timeout handlers (\<open>ce_depth\<close>); running out is \<open>Diverge\<close>.
  \<open>core_turn_returns\<close> gives bounds under which no turn diverges; the safety properties hold for every
  fuel. All other functions are total. Properties that add stakes assume sums below \<open>2 ^ 32\<close>, which
  \<open>committee_wf\<close> states.

  The section below joins the receiver to the handlers of the mempool.

  \<^bold>\<open>Not modelled.\<close> TCP sockets: whether a port can be bound, which connections and frames arrive and whether a
  write succeeds are inputs. Timers are events; delays other
  than the back-off of the reliable sender are not measured. Bounded channel capacity (1000) and
  back-pressure are not modelled: channels are unbounded lists. The parsing of command lines by clap, the loggers'
  format and the terminal output of the binaries, the texts of the errors of the consensus and the mempool, and the
  benchmark-only logging. The random choice of peers and the iteration order of hash maps are parameters. The
  Aptos virtual machine, its state keys and encodings are third-party.
\<close>

section \<open>From the sockets to the mempool\<close>

text \<open>What a frame adds to the two channels behind the handler of messages from other primaries.\<close>

definition for_core :: "(bytes \<Rightarrow> ('s, 'tx) primary_message option) \<Rightarrow> bytes \<Rightarrow> ('s, 'tx) primary_message list" where
  "for_core de m =
     (case de m of None \<Rightarrow> [] | Some (PmCertificatesRequest _ _) \<Rightarrow> [] | Some message \<Rightarrow> [message])"

definition for_helper :: "(bytes \<Rightarrow> ('s, 'tx) primary_message option) \<Rightarrow> bytes \<Rightarrow> (digest list \<times> public_key) list" where
  "for_helper de m =
     (case de m of Some (PmCertificatesRequest missing requestor) \<Rightarrow> [(missing, requestor)] | _ \<Rightarrow> [])"

lemma primary_dispatch_queues:
  "tx_primary_messages (snd (primary_dispatch de m i)) = tx_primary_messages i @ for_core de m"
  "tx_cert_requests (snd (primary_dispatch de m i)) = tx_cert_requests i @ for_helper de m"
  by (auto simp: primary_dispatch_def for_core_def for_helper_def Let_def split: option.split primary_message.split)

lemma primary_inbox_fold:
  "tx_primary_messages (fold (\<lambda>(_, m) s. snd (primary_dispatch de m s)) order i) =
     tx_primary_messages i @ concat (map (\<lambda>(_, m). for_core de m) order) \<and>
   tx_cert_requests (fold (\<lambda>(_, m) s. snd (primary_dispatch de m s)) order i) =
     tx_cert_requests i @ concat (map (\<lambda>(_, m). for_helper de m) order)"
  by (induction order arbitrary: i) (auto simp: primary_dispatch_queues)

text \<open>
  The mempool core and the certificate helper are sent the messages of all connections in the
  order in which they were handed to the handler, and what comes from one connection is in
  the order of its frames. A frame that is not a message closes its connection only.
\<close>

lemma receiver_feeds_mempool:
  assumes "receiver_spawn True address inbox = (Ok start :: (dag_error, ('s, 'tx) primary_inbox receiver) res)"
    and "arrivals_ok 0 evs" "r = task_run (receiver_turn (primary_dispatch de)) evs start"
    and "tx_primary_messages inbox = []" "tx_cert_requests inbox = []"
  shows "tx_primary_messages (rc_state r) = concat (map (\<lambda>(_, m). for_core de m) (rc_order r))"
    and "tx_cert_requests (rc_state r) = concat (map (\<lambda>(_, m). for_helper de m) (rc_order r))"
    and "prefix (messages_of i r) (frames_of i evs)"
proof -
  have "receiver_ok (primary_dispatch de) inbox [] start" and "rc_conns start = []"
    using assms(1) by (auto simp: receiver_spawn_def receiver_ok_def messages_of_def)
  from receiver_run_ok [OF this(1), of evs] this(2) assms(2,3)
  have ok: "receiver_ok (primary_dispatch de) inbox evs r" by simp
  show "prefix (messages_of i r) (frames_of i evs)" by (rule receiver_okD(2) [OF ok])
  show "tx_primary_messages (rc_state r) = concat (map (\<lambda>(_, m). for_core de m) (rc_order r))"
    "tx_cert_requests (rc_state r) = concat (map (\<lambda>(_, m). for_helper de m) (rc_order r))"
    using primary_inbox_fold [of de "rc_order r" inbox] assms(4,5) by (simp_all add: receiver_okD(1) [OF ok])
qed

lemma undecodable_frame_closes:
  assumes "i < length (rc_conns r)" "cn_open (rc_conns r ! i)" "de m = None" "length m \<le> max_frame_length"
  shows "\<not> cn_open (rc_conns (receiver_turn (primary_dispatch de) (RvNext i (Frame m)) r) ! i)"
    and "j \<noteq> i \<Longrightarrow> rc_conns (receiver_turn (primary_dispatch de) (RvNext i (Frame m)) r) ! j = rc_conns r ! j"
  using assms by (auto simp: receiver_turn_def runner_turn_def decode_frame_def primary_dispatch_def close_connection_def Let_def)

end
